(* ===== verification/Prelude.thy ===== *)
theory Prelude
  imports Complex_Main
begin

text \<open>
  Shared vocabulary of the ViewportControl development: three-component vectors
  (the engine's \<open>Vector3\<close>), JavaScript numbers extended with the two infinities
  that the controller uses as default limits, the clamp idiom
  \<open>Math.max(lo, Math.min(hi, x))\<close>, \<open>Math.atan2\<close>, the faults that make a
  tick produce no finite camera pose, and the bind of the error-result type.
\<close>

named_theorems vec_simps "component equations of the vector operations"

record vec3 =
  vx :: real
  vy :: real
  vz :: real

definition vec0 :: vec3 where
  "vec0 = \<lparr>vx = 0, vy = 0, vz = 0\<rparr>"

definition vadd :: "vec3 \<Rightarrow> vec3 \<Rightarrow> vec3" where
  "vadd a b = \<lparr>vx = vx a + vx b, vy = vy a + vy b, vz = vz a + vz b\<rparr>"

definition vsub :: "vec3 \<Rightarrow> vec3 \<Rightarrow> vec3" where
  "vsub a b = \<lparr>vx = vx a - vx b, vy = vy a - vy b, vz = vz a - vz b\<rparr>"

definition vscale :: "real \<Rightarrow> vec3 \<Rightarrow> vec3" where
  "vscale k a = \<lparr>vx = k * vx a, vy = k * vy a, vz = k * vz a\<rparr>"

definition vlen :: "vec3 \<Rightarrow> real" where
  "vlen a = sqrt ((vx a)\<^sup>2 + (vy a)\<^sup>2 + (vz a)\<^sup>2)"

text \<open>Rotation about the up axis \<open>(0, 1, 0)\<close> by an angle, in the sense of the azimuth.\<close>

definition rot_y :: "real \<Rightarrow> vec3 \<Rightarrow> vec3" where
  "rot_y d v = \<lparr>vx = vx v * cos d + vz v * sin d, vy = vy v, vz = vz v * cos d - vx v * sin d\<rparr>"

text \<open>
  The configurable limits of the controller default to \<open>Infinity\<close> and
  \<open>-Infinity\<close>. A limit is therefore an extended real: \<open>NegInf < Fin r < PosInf\<close>.
  NaN is not a value of this type: the model reports the situations that would make
  the camera pose non-finite as a fault instead.
\<close>

datatype jsnum = NegInf | Fin real | PosInf

instantiation jsnum :: linorder
begin

fun less_eq_jsnum :: "jsnum \<Rightarrow> jsnum \<Rightarrow> bool" where
  "less_eq_jsnum NegInf _ = True"
| "less_eq_jsnum (Fin a) NegInf = False"
| "less_eq_jsnum (Fin a) (Fin b) = (a \<le> b)"
| "less_eq_jsnum (Fin a) PosInf = True"
| "less_eq_jsnum PosInf b = (b = PosInf)"

definition less_jsnum :: "jsnum \<Rightarrow> jsnum \<Rightarrow> bool" where
  "less_jsnum a b = (a \<le> b \<and> \<not> b \<le> a)"

instance
proof
  fix x y z :: jsnum
  show "(x < y) = (x \<le> y \<and> \<not> y \<le> x)" by (simp add: less_jsnum_def)
  show "x \<le> x" by (cases x) simp_all
  show "x \<le> y \<Longrightarrow> y \<le> z \<Longrightarrow> x \<le> z" by (cases x; cases y; cases z) simp_all
  show "x \<le> y \<Longrightarrow> y \<le> x \<Longrightarrow> x = y" by (cases x; cases y) simp_all
  show "x \<le> y \<or> y \<le> x" by (cases x; cases y) auto
qed

end

text \<open>The finite value of a number, \<open>None\<close> for the infinities.\<close>

fun fin_val :: "jsnum \<Rightarrow> real option" where
  "fin_val (Fin r) = Some r"
| "fin_val _ = None"

text \<open>
  \<open>Math.max(lo, Math.min(hi, x))\<close>, written out in \<open>_updateTransform\<close> and inside
  the engine's \<open>MathUtil.clamp\<close>; generic over the order, so that it serves both the
  real polar angle of \<open>makeSafe\<close> and the extended limits of the controller.
\<close>

definition js_clamp :: "'a::linorder \<Rightarrow> 'a \<Rightarrow> 'a \<Rightarrow> 'a" where
  "js_clamp lo hi x = max lo (min hi x)"

text \<open>
  The ways a frame can end without a finite camera pose: the camera sits on its target
  (the azimuth of a zero offset is undefined), the azimuth or distance clamp yields an
  infinite value, or the input reports the primary pointer held with no pointer present
  (reading \<open>pointers[0].deltaPosition\<close> throws). The bind of \<open>'e + 'a\<close> is generic in
  the error, so that a frame can pair its fault with the state the fault left.
\<close>

datatype fault = ZeroOffset | NonFinite | NoPointer

type_synonym 'a result = "fault + 'a"

definition res_bind :: "'e + 'a \<Rightarrow> ('a \<Rightarrow> 'e + 'b) \<Rightarrow> 'e + 'b" where
  "res_bind r f = (case r of Inl e \<Rightarrow> Inl e | Inr a \<Rightarrow> f a)"

text \<open>\<open>Math.atan2(y, x)\<close> on finite arguments (signed zeros are not distinguished).\<close>

definition atan2 :: "real \<Rightarrow> real \<Rightarrow> real" where
  "atan2 y x = (if 0 < x then arctan (y / x)
     else if x < 0 then (if 0 \<le> y then arctan (y / x) + pi else arctan (y / x) - pi)
     else if 0 < y then pi / 2 else if y < 0 then - (pi / 2) else 0)"

section \<open>Lemmas\<close>

lemma vlen_eq_0_iff: "vlen v = 0 \<longleftrightarrow> vx v = 0 \<and> vy v = 0 \<and> vz v = 0"
  by (simp add: vlen_def add_nonneg_eq_0_iff)

lemma vlen_nonneg: "0 \<le> vlen v"
  by (simp add: vlen_def)

lemma vlen_sq: "(vlen v)\<^sup>2 = (vx v)\<^sup>2 + (vy v)\<^sup>2 + (vz v)\<^sup>2"
  by (simp add: vlen_def)

lemma vlen_pos: "vlen v \<noteq> 0 \<Longrightarrow> 0 < vlen v"
  using vlen_nonneg [of v] by simp

lemma jsnum_Fin_less [simp]: "(Fin a < Fin b) = (a < b)"
  by (auto simp: less_jsnum_def)

lemma jsnum_bounds [simp]:
  "NegInf \<le> x" "x \<le> PosInf" "(PosInf \<le> x) = (x = PosInf)" "(x \<le> NegInf) = (x = NegInf)"
  by (cases x; simp)+

lemma max_min_Fin [simp]:
  "max (Fin a) (Fin b) = Fin (max a b)" "min (Fin a) (Fin b) = Fin (min a b)"
  by (simp_all add: max_def min_def)

lemma js_clamp_ge_lo: "lo \<le> js_clamp lo hi x"
  by (simp add: js_clamp_def)

lemma js_clamp_le_hi: "lo \<le> hi \<Longrightarrow> js_clamp lo hi x \<le> hi"
  by (simp add: js_clamp_def)

lemma js_clamp_id [simp]: "lo \<le> x \<Longrightarrow> x \<le> hi \<Longrightarrow> js_clamp lo hi x = x"
  by (simp add: js_clamp_def max_def min_def)

lemma js_clamp_inverted: "hi < lo \<Longrightarrow> js_clamp lo hi x = lo"
proof -
  assume "hi < lo"
  then have "min hi x \<le> lo" using min.cobounded1 [of hi x] by order
  then show ?thesis unfolding js_clamp_def by (rule max.absorb1)
qed

lemma js_clamp_cases:
  assumes "lo \<le> hi"
  shows "(x < lo \<and> js_clamp lo hi x = lo) \<or> (hi < x \<and> js_clamp lo hi x = hi)
       \<or> (lo \<le> x \<and> x \<le> hi \<and> js_clamp lo hi x = x)"
proof (cases "x < lo")
  case True
  then have "min hi x = x" using assms by (simp add: min.absorb2)
  with True show ?thesis unfolding js_clamp_def by (simp add: max.absorb1)
next
  case False
  show ?thesis
  proof (cases "hi < x")
    case True
    with assms show ?thesis unfolding js_clamp_def by (simp add: min.absorb1 max.absorb2)
  next
    case False
    with \<open>\<not> x < lo\<close> show ?thesis unfolding js_clamp_def by (simp add: not_less min.absorb2 max.absorb2)
  qed
qed

lemma js_clamp_Fin [simp]: "js_clamp (Fin a) (Fin b) (Fin x) = Fin (js_clamp a b x)"
  by (simp add: js_clamp_def)

text \<open>Two clamps in sequence form an idempotent map, whatever the four bounds are.\<close>

lemma js_clamp_twice_idem:
  fixes a b c d x :: "'a::linorder"
  shows "js_clamp c d (js_clamp a b (js_clamp c d (js_clamp a b x))) = js_clamp c d (js_clamp a b x)"
proof (cases "a \<le> b \<and> c \<le> d")
  case False
  then show ?thesis using js_clamp_inverted[of b a] js_clamp_inverted[of d c] by (auto simp: not_le)
next
  case True
  then have ab: "a \<le> b" and cd: "c \<le> d" by auto
  define y where "y = js_clamp a b x"
  define z where "z = js_clamp c d y"
  have y: "a \<le> y" "y \<le> b" using js_clamp_cases[OF ab, of x] ab unfolding y_def by auto
  have zy: "(y < c \<and> z = c) \<or> (d < y \<and> z = d) \<or> (c \<le> y \<and> y \<le> d \<and> z = y)"
    using js_clamp_cases[OF cd, of y] unfolding z_def by auto
  have z: "c \<le> z" "z \<le> d" using js_clamp_cases[OF cd, of y] cd unfolding z_def by auto
  have "js_clamp c d (js_clamp a b z) = z"
  proof (cases "z < a")
    case True
    with zy y have zd: "z = d" by (elim disjE conjE) order+
    have "js_clamp a b z = a" using js_clamp_cases[OF ab, of z] True ab by (elim disjE conjE) order+
    moreover have "js_clamp c d a = d" using js_clamp_cases[OF cd, of a] True zd cd by (elim disjE conjE) order+
    ultimately show ?thesis using zd by simp
  next
    case za: False
    show ?thesis
    proof (cases "b < z")
      case True
      with zy y have zc: "z = c" by (elim disjE conjE) order+
      have "js_clamp a b z = b" using js_clamp_cases[OF ab, of z] True ab by (elim disjE conjE) order+
      moreover have "js_clamp c d b = c" using js_clamp_cases[OF cd, of b] True zc cd by (elim disjE conjE) order+
      ultimately show ?thesis using zc by simp
    next
      case False
      with za have "js_clamp a b z = z" using js_clamp_cases[OF ab, of z] by (elim disjE conjE) order+
      moreover have "js_clamp c d z = z" using js_clamp_cases[OF cd, of z] z by (elim disjE conjE) order+
      ultimately show ?thesis by simp
    qed
  qed
  then show ?thesis unfolding y_def z_def .
qed

text \<open>The clamp of a finite number is finite exactly when the bounds allow it.\<close>

lemma js_clamp_finite_iff:
  "(\<exists>r. js_clamp lo hi (Fin x) = Fin r) \<longleftrightarrow> lo \<noteq> PosInf \<and> (lo \<noteq> NegInf \<or> hi \<noteq> NegInf)"
  by (cases lo; cases hi) (auto simp: js_clamp_def max_def min_def)

lemma res_bind_simps [simp]:
  "res_bind (Inl e) f = Inl e" "res_bind (Inr a) f = f a"
  by (simp_all add: res_bind_def)

lemma map_sum_id_Inr_iff [simp]: "map_sum f id m = Inr b \<longleftrightarrow> m = Inr b"
  by (cases m) auto

lemma res_bind_Inr_iff: "res_bind r f = Inr b \<longleftrightarrow> (\<exists>a. r = Inr a \<and> f a = Inr b)"
  by (cases r) simp_all

lemma sqrt_one_plus_ratio:
  assumes "x \<noteq> 0"
  shows "sqrt (1 + (y / x)\<^sup>2) = sqrt (x\<^sup>2 + y\<^sup>2) / \<bar>x\<bar>"
proof -
  have "1 + (y / x)\<^sup>2 = (x\<^sup>2 + y\<^sup>2) / (\<bar>x\<bar>)\<^sup>2"
    using assms by (simp add: field_simps power2_eq_square)
  then show ?thesis by (simp add: real_sqrt_divide)
qed

text \<open>
  The polar decomposition that \<open>atan2\<close> computes: \<open>(x, y) = h (cos t, sin t)\<close> with
  \<open>h = sqrt (x\<^sup>2 + y\<^sup>2)\<close>; at the origin both sides are 0.
\<close>

lemma atan2_polar:
  "sqrt (x\<^sup>2 + y\<^sup>2) * cos (atan2 y x) = x \<and> sqrt (x\<^sup>2 + y\<^sup>2) * sin (atan2 y x) = y"
proof (cases "x = 0")
  case True
  then show ?thesis by (cases "y = 0") (auto simp: atan2_def)
next
  case False
  have h: "0 < sqrt (x\<^sup>2 + y\<^sup>2)" using False by (simp add: sum_power2_gt_zero_iff)
  have c: "cos (arctan (y / x)) = \<bar>x\<bar> / sqrt (x\<^sup>2 + y\<^sup>2)"
    using False h by (simp add: cos_arctan sqrt_one_plus_ratio)
  have s: "sin (arctan (y / x)) = (y / x) * \<bar>x\<bar> / sqrt (x\<^sup>2 + y\<^sup>2)"
    using False h by (simp add: sin_arctan sqrt_one_plus_ratio)
  show ?thesis
  proof (cases "0 < x")
    case True
    then show ?thesis using c s h by (simp add: atan2_def)
  next
    case False
    with \<open>x \<noteq> 0\<close> have "x < 0" by simp
    then show ?thesis using c s h by (auto simp: atan2_def)
  qed
qed

lemma atan2_bounds: "- pi < atan2 y x \<and> atan2 y x \<le> pi"
proof -
  have "- (pi / 2) < arctan (y / x) \<and> arctan (y / x) < pi / 2" by (rule arctan_bounded)
  moreover have "x < 0 \<Longrightarrow> 0 < y \<Longrightarrow> arctan (y / x) < 0" by (simp add: divide_pos_neg)
  moreover have "x < 0 \<Longrightarrow> y < 0 \<Longrightarrow> 0 < arctan (y / x)" by (simp add: divide_neg_neg)
  ultimately show ?thesis using pi_gt_zero by (auto simp: atan2_def)
qed

text \<open>Vector addition is a monoid with the zero vector.\<close>

lemma vadd_vec0 [simp]: "vadd v vec0 = v" "vadd vec0 v = v"
  by (simp_all add: vadd_def vec0_def)

lemma vadd_assoc: "vadd (vadd a b) c = vadd a (vadd b c)"
  by (simp add: vadd_def)

text \<open>An angle of \<open>(-pi, pi]\<close> is determined by its sine and cosine.\<close>

lemma angle_eq_by_sin_cos:
  fixes a b :: real
  assumes "- pi < a" "a \<le> pi" "- pi < b" "b \<le> pi" "sin a = sin b" "cos a = cos b"
  shows "a = b"
proof -
  obtain n :: int where n: "a = b + 2 * pi * real_of_int n" using assms(5,6) sin_cos_eq_iff by metis
  have p: "0 < 2 * pi" using pi_gt_zero by simp
  have "2 * pi * real_of_int n < 2 * pi * 1" "2 * pi * (- 1) < 2 * pi * real_of_int n"
    using assms(1-4) n by linarith+
  then have "real_of_int n < 1" "- 1 < real_of_int n" using mult_less_cancel_left_pos [OF p] by blast+
  then have "n = 0" by linarith
  then show ?thesis using n by simp
qed

text \<open>
  Clamping a value that is read back in \<open>(a, b]\<close>: if the first clamp's result, when it
  lies in \<open>(a, b]\<close>, is read back as itself, clamping the read-back value gives the same
  result; outside \<open>(a, b]\<close> the clamp pins it to the bound it already has.
\<close>

lemma js_clamp_reread:
  fixes lo hi a b x y t :: "'a::linorder"
  assumes t: "js_clamp lo hi x = t" and x: "a < x" "x \<le> b" and y: "a < y" "y \<le> b"
    and same: "a < t \<Longrightarrow> t \<le> b \<Longrightarrow> y = t"
  shows "js_clamp lo hi y = t"
proof (cases "lo \<le> hi")
  case False
  then show ?thesis using t js_clamp_inverted [of hi lo] by simp
next
  case True
  consider "x < lo" "t = lo" | "hi < x" "t = hi" | "lo \<le> x" "x \<le> hi" "t = x"
    using js_clamp_cases [OF True, of x] t by auto
  then show ?thesis
  proof cases
    case 1
    show ?thesis
    proof (cases "t \<le> b")
      case True
      moreover have "a < t" using 1 x(1) by order
      ultimately have "y = t" using same by blast
      then show ?thesis using 1 \<open>lo \<le> hi\<close> by simp
    next
      case False
      then have "y < lo" using 1 y(2) by order
      then show ?thesis using 1 \<open>lo \<le> hi\<close> js_clamp_cases [OF \<open>lo \<le> hi\<close>, of y] by (elim disjE conjE) order+
    qed
  next
    case 2
    show ?thesis
    proof (cases "a < t")
      case True
      moreover have "t \<le> b" using 2 x(2) by order
      ultimately have "y = t" using same by blast
      then show ?thesis using 2 \<open>lo \<le> hi\<close> by simp
    next
      case False
      then have "hi < y" using 2 y(1) by order
      then show ?thesis using 2 \<open>lo \<le> hi\<close> by (simp add: js_clamp_def)
    qed
  next
    case 3
    then have "a < t" "t \<le> b" using x by order+
    then have "y = t" by (rule same)
    then show ?thesis using 3 by simp
  qed
qed

text \<open>A lower clamp absorbs a further decrease.\<close>

lemma max_shift: "0 \<le> b \<Longrightarrow> max lo (max lo y - b) = max lo (y - b)"
  for lo y b :: real
  unfolding max_def by auto

lemmas vec_defs [vec_simps] = vec0_def vadd_def vsub_def vscale_def

end
