(* ===== verification/Spherical.thy ===== *)
theory Spherical
  imports Prelude
begin

text \<open>
  The engine's \<open>Spherical\<close> value type (imported by \<open>src/src/ViewportControl.ts\<close>
  from \<open>./Spherical\<close>, whose source is not part of the repository; modelled from the
  contract of spec section 4.1). A value is a radius, an azimuth \<open>theta\<close> and a polar
  angle \<open>phi\<close> measured from the up axis, which the controller fixes to \<open>(0, 1, 0)\<close>
  with \<open>setYAxis\<close> in its constructor. \<open>setFromVec3\<close> reads a Cartesian offset,
  \<open>setToVec3\<close> writes it back and reports the hemisphere flag \<open>atBack\<close>,
  \<open>makeSafe\<close> keeps \<open>phi\<close> off the poles, \<open>set\<close> assigns all three fields.
\<close>

record spherical =
  radius :: real
  theta :: real
  phi :: real

text \<open>The pole margin: the engine's zero tolerance, a small fixed positive number.\<close>

definition spherical_eps :: real where
  "spherical_eps = 1 / 1000000"

definition set_sph :: "real \<Rightarrow> real \<Rightarrow> real \<Rightarrow> spherical \<Rightarrow> spherical" where
  "set_sph t p r s = s\<lparr>theta := t, phi := p, radius := r\<rparr>"

text \<open>
  \<open>setFromVec3(offset, atBack)\<close>: the radius is the length, the polar angle the angle
  between the offset and the up axis, the azimuth that of the projection on the
  horizontal plane. A zero offset has no azimuth (spec 4.1: undefined), a fault here.
  With \<open>atBack\<close> the same point is read in the other parameterisation of the previous
  frame's hemisphere: azimuth turned by a half turn and polar angle \<open>2\<pi> - angle\<close>, so
  that \<open>setToVec3\<close> gives the point and the flag back (spec 8, round trip).
\<close>

definition setFromVec3 :: "vec3 \<Rightarrow> bool \<Rightarrow> spherical result" where
  "setFromVec3 v atBack = (let r = vlen v in
     if r = 0 then Inl ZeroOffset
     else let a = arccos (js_clamp (-1) 1 (vy v / r)) in
       if atBack then Inr \<lparr>radius = r, theta = atan2 (- vx v) (- vz v), phi = 2 * pi - a\<rparr>
       else Inr \<lparr>radius = r, theta = atan2 (vx v) (vz v), phi = a\<rparr>)"

definition makeSafe :: "spherical \<Rightarrow> spherical" where
  "makeSafe s = s\<lparr>phi := js_clamp spherical_eps (pi - spherical_eps) (phi s)\<rparr>"

text \<open>
  The polar angle \<open>makeSafe\<close> computes from a JavaScript number: a clamp with infinite
  limits may have left \<open>phi\<close> at \<open>\<plusminus>Infinity\<close>, and
  \<open>Math.max(EPS, Math.min(Math.PI - EPS, phi))\<close> turns it into the nearer bound, so the
  result is always finite.
\<close>

fun makeSafe_js :: "jsnum \<Rightarrow> real" where
  "makeSafe_js NegInf = spherical_eps"
| "makeSafe_js (Fin p) = js_clamp spherical_eps (pi - spherical_eps) p"
| "makeSafe_js PosInf = pi - spherical_eps"

text \<open>
  \<open>setToVec3(out)\<close>: the Cartesian offset, and the flag that the horizontal projection
  \<open>sin phi * radius * (sin theta, cos theta)\<close> points away from the azimuth, i.e. the
  parameterisation has crossed a pole.
\<close>

definition setToVec3 :: "spherical \<Rightarrow> vec3 \<times> bool" where
  "setToVec3 s = (let sr = sin (phi s) * radius s in
     (\<lparr>vx = sr * sin (theta s), vy = radius s * cos (phi s), vz = sr * cos (theta s)\<rparr>,
      sin (phi s) < 0))"

section \<open>Lemmas on the offset geometry\<close>

lemma vy_div_vlen_bound:
  assumes "vlen v \<noteq> 0" shows "\<bar>vy v / vlen v\<bar> \<le> 1"
proof -
  have pos: "0 < vlen v" using assms by (rule vlen_pos)
  have "(vy v)\<^sup>2 \<le> (vlen v)\<^sup>2" by (simp add: vlen_sq)
  then have "\<bar>vy v\<bar> \<le> vlen v" using pos by (metis abs_le_square_iff abs_of_pos)
  then show ?thesis using pos by (simp add: abs_divide)
qed

lemma vlen_cos_arccos:
  assumes "vlen v \<noteq> 0" shows "vlen v * cos (arccos (vy v / vlen v)) = vy v"
  using assms vy_div_vlen_bound [OF assms] by (simp add: cos_arccos_abs)

lemma vlen_sin_arccos:
  assumes "vlen v \<noteq> 0" shows "vlen v * sin (arccos (vy v / vlen v)) = sqrt ((vz v)\<^sup>2 + (vx v)\<^sup>2)"
proof -
  have pos: "0 < vlen v" using assms by (rule vlen_pos)
  have ne: "(vx v)\<^sup>2 + (vy v)\<^sup>2 + (vz v)\<^sup>2 \<noteq> 0" using assms vlen_sq [of v] by auto
  have "1 - (vy v / vlen v)\<^sup>2 = 1 - (vy v)\<^sup>2 / ((vx v)\<^sup>2 + (vy v)\<^sup>2 + (vz v)\<^sup>2)"
    by (simp add: power_divide vlen_sq)
  also have "\<dots> = ((vz v)\<^sup>2 + (vx v)\<^sup>2) / (vlen v)\<^sup>2"
    using ne by (simp add: field_simps vlen_sq)
  finally have "sin (arccos (vy v / vlen v)) = sqrt ((vz v)\<^sup>2 + (vx v)\<^sup>2) / vlen v"
    using vy_div_vlen_bound [OF assms] pos by (simp add: sin_arccos_abs real_sqrt_divide)
  then show ?thesis using assms by simp
qed

lemma vy_div_vlen_range:
  assumes "vlen v \<noteq> 0" shows "-1 \<le> vy v / vlen v \<and> vy v / vlen v \<le> 1"
  using vy_div_vlen_bound [OF assms, unfolded abs_le_iff] by linarith

lemma vlen_arccos_clamped:
  assumes "vlen v \<noteq> 0" shows "js_clamp (-1) 1 (vy v / vlen v) = vy v / vlen v"
  using vy_div_vlen_range [OF assms] by simp

lemma sin_arccos_nonneg: "\<bar>y\<bar> \<le> 1 \<Longrightarrow> 0 \<le> sin (arccos y)"
  using arccos_bounded [of y] by (simp add: sin_ge_zero abs_le_iff)

lemma spherical_update_all [simp]:
  "s\<lparr>theta := t, phi := p, radius := r\<rparr> = \<lparr>radius = r, theta = t, phi = p\<rparr>"
  by (cases s) simp

section \<open>Reading an offset: faults and ranges\<close>

lemma setFromVec3_Inr:
  assumes "vlen v \<noteq> 0"
  shows "setFromVec3 v b = Inr (if b
           then \<lparr>radius = vlen v, theta = atan2 (- vx v) (- vz v), phi = 2 * pi - arccos (vy v / vlen v)\<rparr>
           else \<lparr>radius = vlen v, theta = atan2 (vx v) (vz v), phi = arccos (vy v / vlen v)\<rparr>)"
  using assms by (simp add: setFromVec3_def vlen_arccos_clamped Let_def)

lemma setFromVec3_Inl_iff: "setFromVec3 v b = Inl e \<longleftrightarrow> vlen v = 0 \<and> e = ZeroOffset"
  by (auto simp: setFromVec3_def Let_def)

lemma setFromVec3_nonzero: "setFromVec3 v b = Inr s \<Longrightarrow> vlen v \<noteq> 0"
  by (auto simp: setFromVec3_def Let_def split: if_splits)

lemma setFromVec3_radius:
  assumes "setFromVec3 v b = Inr s"
  shows "radius s = vlen v \<and> 0 < radius s"
  using setFromVec3_nonzero [OF assms] assms setFromVec3_Inr [of v b]
  by (cases b) (auto simp: vlen_pos)

lemma setFromVec3_phi_front:
  assumes "setFromVec3 v False = Inr s"
  shows "0 \<le> phi s \<and> phi s \<le> pi"
proof -
  have v0: "vlen v \<noteq> 0" using assms by (rule setFromVec3_nonzero)
  have "0 \<le> arccos (vy v / vlen v) \<and> arccos (vy v / vlen v) \<le> pi"
    using vy_div_vlen_range [OF v0] by (intro arccos_bounded) simp_all
  then show ?thesis using assms setFromVec3_Inr [OF v0, of False] by auto
qed

section \<open>Round trips\<close>

text \<open>Writing back an offset that was read gives the offset, in either hemisphere.\<close>

lemma setToVec3_setFromVec3_vec:
  assumes "setFromVec3 v b = Inr s"
  shows "fst (setToVec3 s) = v"
proof -
  have v0: "vlen v \<noteq> 0" using assms by (rule setFromVec3_nonzero)
  have h: "sqrt ((vz v)\<^sup>2 + (vx v)\<^sup>2) * cos (atan2 (vx v) (vz v)) = vz v \<and>
           sqrt ((vz v)\<^sup>2 + (vx v)\<^sup>2) * sin (atan2 (vx v) (vz v)) = vx v"
    by (rule atan2_polar)
  have h': "sqrt ((vz v)\<^sup>2 + (vx v)\<^sup>2) * cos (atan2 (- vx v) (- vz v)) = - vz v \<and>
            sqrt ((vz v)\<^sup>2 + (vx v)\<^sup>2) * sin (atan2 (- vx v) (- vz v)) = - vx v"
    using atan2_polar [of "- vz v" "- vx v"] by simp
  have sa: "sin (arccos (vy v / vlen v)) * vlen v = sqrt ((vz v)\<^sup>2 + (vx v)\<^sup>2)"
    using vlen_sin_arccos [OF v0] by (simp add: mult.commute)
  have ca: "vlen v * cos (arccos (vy v / vlen v)) = vy v" using v0 by (rule vlen_cos_arccos)
  show ?thesis
  proof (cases b)
    case True
    then have "s = \<lparr>radius = vlen v, theta = atan2 (- vx v) (- vz v), phi = 2 * pi - arccos (vy v / vlen v)\<rparr>"
      using assms setFromVec3_Inr [OF v0] by simp
    then show ?thesis using h' sa ca by (simp add: setToVec3_def Let_def)
  next
    case False
    then have "s = \<lparr>radius = vlen v, theta = atan2 (vx v) (vz v), phi = arccos (vy v / vlen v)\<rparr>"
      using assms setFromVec3_Inr [OF v0] by simp
    then show ?thesis using h sa ca by (simp add: setToVec3_def Let_def mult.commute)
  qed
qed

text \<open>Off the up axis, the hemisphere flag written back is the one the offset was read with.\<close>

lemma setToVec3_setFromVec3_flag:
  assumes "vx v \<noteq> 0 \<or> vz v \<noteq> 0" and "setFromVec3 v b = Inr s"
  shows "snd (setToVec3 s) = b"
proof -
  have v0: "vlen v \<noteq> 0" using assms(1) by (auto simp: vlen_eq_0_iff)
  have "0 < sqrt ((vz v)\<^sup>2 + (vx v)\<^sup>2)" using assms(1) by (auto simp: sum_power2_gt_zero_iff)
  then have pos: "0 < sin (arccos (vy v / vlen v))"
    using vlen_sin_arccos [OF v0] vlen_pos [OF v0] by (metis zero_less_mult_pos)
  show ?thesis
    using assms(2) setFromVec3_Inr [OF v0] pos by (cases b) (auto simp: setToVec3_def Let_def)
qed

text \<open>The length of a written offset is the absolute radius.\<close>

lemma setToVec3_vlen: "vlen (fst (setToVec3 s)) = \<bar>radius s\<bar>"
proof -
  have "(sin (phi s) * radius s * sin (theta s))\<^sup>2 + (radius s * cos (phi s))\<^sup>2
        + (sin (phi s) * radius s * cos (theta s))\<^sup>2
      = (radius s)\<^sup>2 * ((sin (phi s))\<^sup>2 * ((sin (theta s))\<^sup>2 + (cos (theta s))\<^sup>2) + (cos (phi s))\<^sup>2)"
    by algebra
  also have "\<dots> = (radius s)\<^sup>2" by simp
  finally show ?thesis by (simp add: vlen_def setToVec3_def Let_def)
qed

text \<open>
  Reading back a written offset strictly between the poles gives the same radius and polar
  angle, and an azimuth with the same sine and cosine (it is normalised into
  \<open>(-\<pi>, \<pi>]\<close>); the flag written is \<open>False\<close>.
\<close>

lemma setFromVec3_setToVec3_front:
  assumes "0 < radius s" "0 < phi s" "phi s < pi"
  shows "\<not> snd (setToVec3 s) \<and> (\<exists>s'. setFromVec3 (fst (setToVec3 s)) False = Inr s' \<and>
           radius s' = radius s \<and> phi s' = phi s \<and>
           sin (theta s') = sin (theta s) \<and> cos (theta s') = cos (theta s) \<and>
           - pi < theta s' \<and> theta s' \<le> pi)"
proof -
  let ?v = "fst (setToVec3 s)"
  let ?h = "sin (phi s) * radius s"
  have sp: "0 < sin (phi s)" using assms by (simp add: sin_gt_zero)
  then have hp: "0 < ?h" using assms by simp
  have len: "vlen ?v = radius s" using setToVec3_vlen [of s] assms by simp
  then have v0: "vlen ?v \<noteq> 0" using assms by simp
  have cy: "vy ?v / vlen ?v = cos (phi s)" using len assms by (simp add: setToVec3_def Let_def)
  have ph: "arccos (vy ?v / vlen ?v) = phi s" using cy assms by (simp add: arccos_cos)
  have "(vz ?v)\<^sup>2 + (vx ?v)\<^sup>2 = ?h\<^sup>2 * ((cos (theta s))\<^sup>2 + (sin (theta s))\<^sup>2)"
    by (simp only: setToVec3_def Let_def fst_conv vec3.select_convs) algebra
  then have hz: "(vz ?v)\<^sup>2 + (vx ?v)\<^sup>2 = ?h\<^sup>2" by simp
  have pol: "sqrt ((vz ?v)\<^sup>2 + (vx ?v)\<^sup>2) * cos (atan2 (vx ?v) (vz ?v)) = vz ?v \<and>
             sqrt ((vz ?v)\<^sup>2 + (vx ?v)\<^sup>2) * sin (atan2 (vx ?v) (vz ?v)) = vx ?v"
    by (rule atan2_polar)
  then have "?h * cos (atan2 (vx ?v) (vz ?v)) = ?h * cos (theta s) \<and>
             ?h * sin (atan2 (vx ?v) (vz ?v)) = ?h * sin (theta s)"
    using hz hp by (simp add: setToVec3_def Let_def)
  then have trig: "cos (atan2 (vx ?v) (vz ?v)) = cos (theta s) \<and> sin (atan2 (vx ?v) (vz ?v)) = sin (theta s)"
    using hp sp assms(1) by simp
  show ?thesis
    using setFromVec3_Inr [OF v0, of False] len ph trig sp atan2_bounds by (simp add: setToVec3_def Let_def)
qed

lemma setToVec3_trig_cong:
  "sin t = sin t' \<Longrightarrow> cos t = cos t' \<Longrightarrow>
   setToVec3 \<lparr>radius = r, theta = t, phi = p\<rparr> = setToVec3 \<lparr>radius = r, theta = t', phi = p\<rparr>"
  by (simp add: setToVec3_def Let_def)

text \<open>Adding to the azimuth rotates the written-back offset about the up axis.\<close>

lemma setToVec3_rotate_theta:
  "fst (setToVec3 (s\<lparr>theta := theta s + d\<rparr>)) = rot_y d (fst (setToVec3 s))"
  by (simp add: setToVec3_def rot_y_def Let_def sin_add cos_add algebra_simps)

section \<open>The pole margin\<close>

lemma spherical_eps_bounds: "0 < spherical_eps \<and> spherical_eps < pi - spherical_eps"
  using pi_ge_two by (simp add: spherical_eps_def)

lemma makeSafe_phi:
  "spherical_eps \<le> phi (makeSafe s) \<and> phi (makeSafe s) \<le> pi - spherical_eps"
proof -
  have "spherical_eps \<le> pi - spherical_eps" using spherical_eps_bounds by simp
  then show ?thesis by (simp add: makeSafe_def js_clamp_ge_lo js_clamp_le_hi)
qed

lemma makeSafe_js_clamp:
  "Fin (makeSafe_js y) = js_clamp (Fin spherical_eps) (Fin (pi - spherical_eps)) y"
  using spherical_eps_bounds by (cases y) (simp_all add: js_clamp_def)

lemma makeSafe_js_phi:
  "spherical_eps \<le> makeSafe_js y \<and> makeSafe_js y \<le> pi - spherical_eps"
  using makeSafe_phi [of "\<lparr>radius = 0, theta = 0, phi = p\<rparr>" for p] spherical_eps_bounds
  by (cases y) (auto simp: makeSafe_def)

lemma makeSafe_frame: "radius (makeSafe s) = radius s \<and> theta (makeSafe s) = theta s"
  by (simp add: makeSafe_def)

end
