(* ===== verification/Transform.thy ===== *)
theory Transform
  imports Prelude
begin

text \<open>
  The engine's transform at the interface the controller uses (spec section 6): a
  position, a rotation quaternion, \<open>translate\<close> (a local offset rotated into the
  parent frame) and \<open>lookAt\<close>. The entity is taken to be a root entity, so local and
  world position and rotation coincide. The orientation that \<open>lookAt\<close> computes is
  left to the engine: it is a parameter \<open>la eye target up\<close> of every operation that
  orients the camera, and the controller's lemmas hold for every such function.
\<close>

record quat =
  qx :: real
  qy :: real
  qz :: real
  qw :: real

definition quat_id :: quat where
  "quat_id = \<lparr>qx = 0, qy = 0, qz = 0, qw = 1\<rparr>"

text \<open>\<open>Vector3.transformByQuat(v, q, out)\<close>: \<open>q v q\<^sup>-\<^sup>1\<close> written out as the engine does.\<close>

definition transformByQuat :: "vec3 \<Rightarrow> quat \<Rightarrow> vec3" where
  "transformByQuat v q = (let x = vx v; y = vy v; z = vz v;
      ix = qw q * x + qy q * z - qz q * y;
      iy = qw q * y + qz q * x - qx q * z;
      iz = qw q * z + qx q * y - qy q * x;
      iw = - qx q * x - qy q * y - qz q * z
    in \<lparr>vx = ix * qw q - iw * qx q - iy * qz q + iz * qy q,
        vy = iy * qw q - iw * qy q - iz * qx q + ix * qz q,
        vz = iz * qw q - iw * qz q - ix * qy q + iy * qx q\<rparr>)"

record transform =
  position :: vec3
  rotationQuaternion :: quat

type_synonym look_at = "vec3 \<Rightarrow> vec3 \<Rightarrow> vec3 \<Rightarrow> quat"

definition translate :: "vec3 \<Rightarrow> transform \<Rightarrow> transform" where
  "translate v t = t\<lparr>position := vadd (position t) (transformByQuat v (rotationQuaternion t))\<rparr>"

definition lookAt :: "look_at \<Rightarrow> vec3 \<Rightarrow> vec3 \<Rightarrow> transform \<Rightarrow> transform" where
  "lookAt la tgt upv t = t\<lparr>rotationQuaternion := la (position t) tgt upv\<rparr>"

definition quat_norm2 :: "quat \<Rightarrow> real" where
  "quat_norm2 q = (qx q)\<^sup>2 + (qy q)\<^sup>2 + (qz q)\<^sup>2 + (qw q)\<^sup>2"

text \<open>
  The contract of the transform's \<open>lookAt(target, up)\<close> (spec section 6) on the
  orientation it computes: a rotation (a unit quaternion) that turns the local +Z axis
  into the direction from the target to the eye, so that the camera, which looks down its
  local -Z axis, faces the target. The roll about that axis, set by \<open>up\<close>, is left open.
\<close>

definition look_at_ok :: "look_at \<Rightarrow> bool" where
  "look_at_ok la = (\<forall>eye tgt upv. vlen (vsub eye tgt) \<noteq> 0 \<longrightarrow>
     quat_norm2 (la eye tgt upv) = 1 \<and>
     transformByQuat \<lparr>vx = 0, vy = 0, vz = 1\<rparr> (la eye tgt upv) = vscale (1 / vlen (vsub eye tgt)) (vsub eye tgt))"

text \<open>
  One orientation meeting the contract: the shortest-arc rotation from +Z to a unit
  vector, the half-turn about Y for the opposite direction. It serves as the instance
  that shows the contract satisfiable.
\<close>

definition face_quat :: "vec3 \<Rightarrow> quat" where
  "face_quat d = (if vz d = - 1 then \<lparr>qx = 0, qy = 1, qz = 0, qw = 0\<rparr>
     else let k = sqrt (2 * (1 + vz d)) in \<lparr>qx = - vy d / k, qy = vx d / k, qz = 0, qw = (1 + vz d) / k\<rparr>)"

definition std_look_at :: look_at where
  "std_look_at eye tgt upv = face_quat (vscale (1 / vlen (vsub eye tgt)) (vsub eye tgt))"

lemma transform_update_all [simp]:
  "t\<lparr>position := p, rotationQuaternion := q\<rparr> = \<lparr>position = p, rotationQuaternion = q\<rparr>"
  by (cases t) simp

lemma transformByQuat_id: "transformByQuat v quat_id = v"
  by (simp add: transformByQuat_def quat_id_def Let_def)

lemma transformByQuat_norm2:
  "(vlen (transformByQuat v q))\<^sup>2 = (quat_norm2 q)\<^sup>2 * (vlen v)\<^sup>2"
  unfolding vlen_def quat_norm2_def transformByQuat_def Let_def
  by (simp add: power2_eq_square) algebra

text \<open>Rotating by a quaternion is linear in the vector.\<close>

lemma transformByQuat_vadd: "transformByQuat (vadd a b) q = vadd (transformByQuat a q) (transformByQuat b q)"
  by (simp add: transformByQuat_def vadd_def Let_def algebra_simps)

lemma transformByQuat_vec0 [simp]: "transformByQuat vec0 q = vec0"
  by (simp add: transformByQuat_def vec0_def)

text \<open>A unit quaternion moves a vector without changing its length.\<close>

lemma transformByQuat_vlen:
  assumes "quat_norm2 q = 1"
  shows "vlen (transformByQuat v q) = vlen v"
  using transformByQuat_norm2 [of v q] assms vlen_nonneg by (simp add: power2_eq_iff_nonneg)

text \<open>Rotating by a quaternion commutes with scaling.\<close>

lemma transformByQuat_vscale: "transformByQuat (vscale k v) q = vscale k (transformByQuat v q)"
  by (simp add: transformByQuat_def vscale_def Let_def algebra_simps)

text \<open>The shortest-arc quaternion is a rotation taking +Z to the given unit vector.\<close>

lemma face_quat_ok:
  assumes u: "(vx d)\<^sup>2 + (vy d)\<^sup>2 + (vz d)\<^sup>2 = 1"
  shows "quat_norm2 (face_quat d) = 1 \<and> transformByQuat \<lparr>vx = 0, vy = 0, vz = 1\<rparr> (face_quat d) = d"
proof (cases "vz d = - 1")
  case True
  then have "vx d = 0" "vy d = 0" using u by (simp_all add: power2_eq_square)
  then show ?thesis using True by (simp add: face_quat_def quat_norm2_def transformByQuat_def)
next
  case False
  have "(vz d)\<^sup>2 \<le> 1" using u zero_le_power2 [of "vx d"] zero_le_power2 [of "vy d"] by linarith
  then have zb: "- 1 \<le> vz d" by (simp add: abs_square_le_1 abs_le_iff)
  then have p: "0 < 1 + vz d" using False by simp
  define k where "k = sqrt (2 * (1 + vz d))"
  have k2: "k\<^sup>2 = 2 * (1 + vz d)" "0 < k" using p by (simp_all add: k_def)
  have xy: "(vx d)\<^sup>2 + (vy d)\<^sup>2 = (1 - vz d) * (1 + vz d)" using u by (simp add: power2_eq_square algebra_simps)
  have q: "face_quat d = \<lparr>qx = - vy d / k, qy = vx d / k, qz = 0, qw = (1 + vz d) / k\<rparr>"
    using False by (simp add: face_quat_def k_def Let_def)
  have "quat_norm2 (face_quat d) = ((vx d)\<^sup>2 + (vy d)\<^sup>2 + (1 + vz d)\<^sup>2) / k\<^sup>2"
    using k2(2) by (simp add: q quat_norm2_def power2_eq_square field_simps)
  also have "\<dots> = 1" using xy k2 p by (simp add: field_simps power2_eq_square)
  finally have n: "quat_norm2 (face_quat d) = 1" .
  have "transformByQuat \<lparr>vx = 0, vy = 0, vz = 1\<rparr> (face_quat d)
      = \<lparr>vx = 2 * (1 + vz d) * vx d / k\<^sup>2, vy = 2 * (1 + vz d) * vy d / k\<^sup>2,
         vz = ((1 + vz d)\<^sup>2 - (vx d)\<^sup>2 - (vy d)\<^sup>2) / k\<^sup>2\<rparr>"
    using k2(2) by (simp add: q transformByQuat_def Let_def power2_eq_square field_simps)
  also have "\<dots> = d" using k2 xy p by (simp add: power2_eq_square field_simps)
  finally show ?thesis using n by simp
qed

lemma look_at_okD:
  "look_at_ok la \<Longrightarrow> vlen (vsub eye tgt) \<noteq> 0 \<Longrightarrow> quat_norm2 (la eye tgt upv) = 1
    \<and> transformByQuat \<lparr>vx = 0, vy = 0, vz = 1\<rparr> (la eye tgt upv) = vscale (1 / vlen (vsub eye tgt)) (vsub eye tgt)"
  by (simp add: look_at_ok_def)

lemma std_look_at_ok: "look_at_ok std_look_at"
  unfolding look_at_ok_def
proof (intro allI impI)
  fix eye tgt upv
  let ?v = "vsub eye tgt"
  assume v0: "vlen ?v \<noteq> 0"
  have "(vx ?v / vlen ?v)\<^sup>2 + (vy ?v / vlen ?v)\<^sup>2 + (vz ?v / vlen ?v)\<^sup>2
      = ((vx ?v)\<^sup>2 + (vy ?v)\<^sup>2 + (vz ?v)\<^sup>2) / (vlen ?v)\<^sup>2"
    by (simp add: power_divide add_divide_distrib)
  also have "\<dots> = 1" using v0 by (simp add: vlen_sq [symmetric])
  finally have "(vx ?v / vlen ?v)\<^sup>2 + (vy ?v / vlen ?v)\<^sup>2 + (vz ?v / vlen ?v)\<^sup>2 = 1" .
  then have "(vx (vscale (1 / vlen ?v) ?v))\<^sup>2 + (vy (vscale (1 / vlen ?v) ?v))\<^sup>2 + (vz (vscale (1 / vlen ?v) ?v))\<^sup>2 = 1"
    by (simp add: vscale_def)
  then show "quat_norm2 (std_look_at eye tgt upv) = 1 \<and>
      transformByQuat \<lparr>vx = 0, vy = 0, vz = 1\<rparr> (std_look_at eye tgt upv) = vscale (1 / vlen ?v) ?v"
    unfolding std_look_at_def by (rule face_quat_ok)
qed

end
