(* ===== verification/ViewportControl.thy ===== *)
theory ViewportControl
  imports Spherical Transform
begin

text \<open>
  The controller of \<open>src/src/ViewportControl.ts\<close>: its configuration and state
  (class \<open>ViewportControl\<close>, lines 13-37), the per-frame input it polls, the
  constructor, \<open>onUpdate\<close> split into its keyboard-pan, wheel-zoom and drag-rotate
  parts, \<open>_move\<close> and \<open>_updateTransform\<close>. A frame is \<open>onUpdate la input c\<close>,
  returning the next state, or a fault paired with the state of the controller when it
  arose: the \<open>TypeError\<close> of a drag without a pointer, after which the pan and zoom of
  the frame persist, or a pose the update cannot make finite.
\<close>

section \<open>Data\<close>

datatype key = AltLeft | KeyW | KeyS | KeyA | KeyD | KeyQ | KeyE

datatype pointer_button = Primary | Secondary | Auxiliary

record pointer =
  deltaPosition :: "real \<times> real"

text \<open>What \<open>onUpdate\<close> reads from the engine's input manager in one frame.\<close>

record frame_input =
  keysHeld :: "key set"
  buttonsHeld :: "pointer_button set"
  pointers :: "pointer list"
  wheelDelta :: "vec3 option"

record canvas =
  width :: real
  height :: real

record ctl =
  minPolarAngle :: jsnum
  maxPolarAngle :: jsnum
  minDistance :: jsnum
  maxDistance :: jsnum
  minAzimuthAngle :: jsnum
  maxAzimuthAngle :: jsnum
  rotateSpeed :: real
  zoomSpeed :: real
  atTheBack :: bool
  spherical :: spherical
  sphericalDelta :: spherical
  zoomFrag :: real
  target :: vec3
  up :: vec3
  scale :: real
  canvas :: canvas
  transform :: transform

section \<open>Constants and constructor\<close>

definition forwardVec3 :: vec3 where "forwardVec3 = \<lparr>vx = 0, vy = 0, vz = - 1 / 10\<rparr>"
definition backwardVec3 :: vec3 where "backwardVec3 = \<lparr>vx = 0, vy = 0, vz = 1 / 10\<rparr>"
definition leftVec3 :: vec3 where "leftVec3 = \<lparr>vx = - 1 / 10, vy = 0, vz = 0\<rparr>"
definition rightVec3 :: vec3 where "rightVec3 = \<lparr>vx = 1 / 10, vy = 0, vz = 0\<rparr>"
definition upVec3 :: vec3 where "upVec3 = \<lparr>vx = 0, vy = - 1 / 10, vz = 0\<rparr>"
definition downVec3 :: vec3 where "downVec3 = \<lparr>vx = 0, vy = 1 / 10, vz = 0\<rparr>"

text \<open>A fresh \<open>new Spherical()\<close>; its fields are overwritten before they are read.\<close>

definition spherical0 :: spherical where
  "spherical0 = \<lparr>radius = 0, theta = 0, phi = 0\<rparr>"

text \<open>Field initialisers and constructor: the defaults of lines 15-36.\<close>

definition ViewportControl_init :: "transform \<Rightarrow> canvas \<Rightarrow> ctl" where
  "ViewportControl_init tf cv = \<lparr>
     minPolarAngle = Fin 1,
     maxPolarAngle = Fin (179 / 180 * pi),
     minDistance = Fin (1 / 10),
     maxDistance = PosInf,
     minAzimuthAngle = NegInf,
     maxAzimuthAngle = PosInf,
     rotateSpeed = 1,
     zoomSpeed = 1,
     atTheBack = False,
     spherical = spherical0,
     sphericalDelta = spherical0,
     zoomFrag = 0,
     target = vec0,
     up = \<lparr>vx = 0, vy = 1, vz = 0\<rparr>,
     scale = 1,
     canvas = cv,
     transform = tf\<rparr>"

section \<open>Operations\<close>

text \<open>\<open>_move(vec)\<close>: translate the camera, move the target by the same rotated offset.\<close>

definition move :: "vec3 \<Rightarrow> ctl \<Rightarrow> ctl" where
  "move vec c = (let tf = translate vec (transform c);
                     m = transformByQuat vec (rotationQuaternion tf)
                 in c\<lparr>transform := tf, target := vadd (target c) m\<rparr>)"

definition held :: "frame_input \<Rightarrow> key \<Rightarrow> bool" where
  "held inp k = (k \<in> keysHeld inp)"

text \<open>Lines 48-82: three independent \<open>if/else if\<close> pairs, each guarded by AltLeft.\<close>

definition keyPan :: "frame_input \<Rightarrow> ctl \<Rightarrow> ctl" where
  "keyPan inp c = (let
     c1 = (if held inp AltLeft \<and> held inp KeyS then move backwardVec3 c
           else if held inp AltLeft \<and> held inp KeyW then move forwardVec3 c else c);
     c2 = (if held inp AltLeft \<and> held inp KeyA then move leftVec3 c1
           else if held inp AltLeft \<and> held inp KeyD then move rightVec3 c1 else c1)
   in if held inp AltLeft \<and> held inp KeyQ then move upVec3 c2
      else if held inp AltLeft \<and> held inp KeyE then move downVec3 c2 else c2)"

text \<open>
  The specification of a pan: the local displacement the held keys ask for, one step
  per axis, S before W, A before D and Q before E, nothing without AltLeft.
\<close>

definition pan_vec :: "frame_input \<Rightarrow> vec3" where
  "pan_vec inp = (if held inp AltLeft then
     vadd (vadd (if held inp KeyS then backwardVec3 else if held inp KeyW then forwardVec3 else vec0)
                (if held inp KeyA then leftVec3 else if held inp KeyD then rightVec3 else vec0))
          (if held inp KeyQ then upVec3 else if held inp KeyE then downVec3 else vec0)
   else vec0)"

text \<open>Lines 84-92: \<open>Math.pow(0.95, zoomSpeed)\<close> divides or multiplies the scale.\<close>

definition wheelZoom :: "frame_input \<Rightarrow> ctl \<Rightarrow> ctl" where
  "wheelZoom inp c = (case wheelDelta inp of
      None \<Rightarrow> c
    | Some w \<Rightarrow>
        if vy w \<noteq> 0 then
          (if 0 < vy w then c\<lparr>scale := scale c / (19 / 20) powr zoomSpeed c\<rparr>
           else if vy w < 0 then c\<lparr>scale := scale c * (19 / 20) powr zoomSpeed c\<rparr>
           else c)
        else c)"

text \<open>
  Lines 94-108: with AltLeft and the primary button held, the first pointer's pixel
  delta becomes radians subtracted from the pending azimuth and polar deltas. With no
  pointer, \<open>pointers[0]\<close> is \<open>undefined\<close> and the destructuring throws.
\<close>

definition dragRotate :: "frame_input \<Rightarrow> ctl \<Rightarrow> ctl result" where
  "dragRotate inp c = (if held inp AltLeft \<and> Primary \<in> buttonsHeld inp then
     (case pointers inp of
        [] \<Rightarrow> Inl NoPointer
      | p # _ \<Rightarrow>
          (let (dx, dy) = deltaPosition p;
               radianLeft = 2 * pi * dx / width (canvas c) * rotateSpeed c;
               d1 = (sphericalDelta c)\<lparr>theta := theta (sphericalDelta c) - radianLeft\<rparr>;
               radianUp = 2 * pi * dy / height (canvas c) * rotateSpeed c
           in Inr (c\<lparr>sphericalDelta := d1\<lparr>phi := phi d1 - radianUp\<rparr>\<rparr>)))
     else Inr c)"

text \<open>
  A limit clamp whose result must be finite for the pose to be finite: the azimuth and
  the distance are written back as they are clamped.
\<close>

definition clampFin :: "jsnum \<Rightarrow> jsnum \<Rightarrow> real \<Rightarrow> real result" where
  "clampFin lo hi x = (case js_clamp lo hi (Fin x) of Fin r \<Rightarrow> Inr r | _ \<Rightarrow> Inl NonFinite)"

text \<open>The camera's offset from the target, \<open>_tempVec3\<close> of line 125.\<close>

definition offset :: "ctl \<Rightarrow> vec3" where
  "offset c = vsub (position (transform c)) (target c)"

text \<open>
  \<open>_updateTransform\<close>, lines 122-156. Lines 125-145 compute the new spherical
  coordinates of the camera: read the offset, add the pending rotation, clamp both
  angles, keep off the poles, apply the zoom and clamp the distance. The polar clamp
  (lines 133-136) is a clamp of JavaScript numbers that yields \<open>\<plusminus>Infinity\<close> when
  a polar limit is infinite; \<open>makeSafe\<close> (line 137) then clamps that number into the
  pole margin, so the polar limits never make the pose non-finite.
\<close>

definition frame_sph :: "ctl \<Rightarrow> spherical result" where
  "frame_sph c =
     res_bind (setFromVec3 (offset c) (atTheBack c)) (\<lambda>s0.
     let s1 = s0\<lparr>theta := theta s0 + theta (sphericalDelta c),
                 phi := phi s0 + phi (sphericalDelta c)\<rparr> in
     res_bind (clampFin (minAzimuthAngle c) (maxAzimuthAngle c) (theta s1)) (\<lambda>th.
     let ph = js_clamp (minPolarAngle c) (maxPolarAngle c) (Fin (phi s1));
         s2 = s1\<lparr>theta := th, phi := makeSafe_js ph\<rparr>;
         zf = (if scale c \<noteq> 1 then radius s2 * (scale c - 1) else zoomFrag c);
         s3 = s2\<lparr>radius := radius s2 + zf\<rparr> in
     res_bind (clampFin (minDistance c) (maxDistance c) (radius s3)) (\<lambda>r.
     Inr (s3\<lparr>radius := r\<rparr>))))"

text \<open>Lines 146-155: write the pose back, orient the camera, reset the pending input.\<close>

definition updateTransform :: "look_at \<Rightarrow> ctl \<Rightarrow> ctl result" where
  "updateTransform la c =
     res_bind (frame_sph c) (\<lambda>s4.
     let (off, back) = setToVec3 s4;
         tf1 = (transform c)\<lparr>position := vadd (target c) off\<rparr>;
         tf2 = lookAt la (target c) (vscale (if back then -1 else 1) (up c)) tf1
     in Inr (c\<lparr>atTheBack := back, spherical := s4, transform := tf2,
               zoomFrag := 0, scale := 1,
               sphericalDelta := set_sph 0 0 0 (sphericalDelta c)\<rparr>))"

text \<open>
  The outcome of a frame: the new state, or a fault paired with the state of the
  controller when it arose. For \<open>NoPointer\<close>, the \<open>TypeError\<close> of line 99, that is the
  state the object keeps after the exception: the pan and zoom of lines 48-92 have been
  applied. For the faults of \<open>_updateTransform\<close> it is the state whose update has no
  finite pose.
\<close>

type_synonym frame_result = "(fault \<times> ctl) + ctl"

text \<open>\<open>onUpdate\<close>, lines 45-111: pan, zoom, rotate input in source order, then the update.\<close>

definition onUpdate :: "look_at \<Rightarrow> frame_input \<Rightarrow> ctl \<Rightarrow> frame_result" where
  "onUpdate la inp c = (let c2 = wheelZoom inp (keyPan inp c) in
     case dragRotate inp c2 of
       Inl e \<Rightarrow> Inl (e, c2)
     | Inr c3 \<Rightarrow> map_sum (\<lambda>e. (e, c3)) id (updateTransform la c3))"

text \<open>
  A limit pair whose clamp of a finite number is finite: the lower limit is not
  \<open>Infinity\<close>, and the two are not both \<open>-Infinity\<close>. The limits of a state keep a frame
  finite when its azimuth and distance pairs are such pairs; the polar pair need not be.
\<close>

definition limit_ok :: "jsnum \<Rightarrow> jsnum \<Rightarrow> bool" where
  "limit_ok lo hi = (lo \<noteq> PosInf \<and> (lo \<noteq> NegInf \<or> hi \<noteq> NegInf))"

definition limits_ok :: "ctl \<Rightarrow> bool" where
  "limits_ok c = (limit_ok (minAzimuthAngle c) (maxAzimuthAngle c)
                  \<and> limit_ok (minDistance c) (maxDistance c))"

text \<open>The configured limits of a state, in the order the fields are declared.\<close>

definition limits :: "ctl \<Rightarrow> jsnum \<times> jsnum \<times> jsnum \<times> jsnum \<times> jsnum \<times> jsnum" where
  "limits c = (minPolarAngle c, maxPolarAngle c, minDistance c, maxDistance c, minAzimuthAngle c, maxAzimuthAngle c)"

text \<open>A frame in which no key, no button and no wheel is used.\<close>

definition no_input :: frame_input where
  "no_input = \<lparr>keysHeld = {}, buttonsHeld = {}, pointers = [], wheelDelta = None\<rparr>"

text \<open>A state that differs from another only in the camera pose and the target.\<close>

definition pose_variant :: "ctl \<Rightarrow> ctl \<Rightarrow> bool" where
  "pose_variant c c' = (c' = c\<lparr>transform := transform c', target := target c'\<rparr>)"

section \<open>An example: the default controller five units in front of its target\<close>

definition demo_tf :: transform where
  "demo_tf = \<lparr>position = \<lparr>vx = 0, vy = 0, vz = 5\<rparr>, rotationQuaternion = quat_id\<rparr>"

definition demo_ctl :: ctl where
  "demo_ctl = ViewportControl_init demo_tf \<lparr>width = 800, height = 600\<rparr>"

definition demo_la :: look_at where
  "demo_la eye tgt upv = quat_id"

definition demo_wheel :: frame_input where
  "demo_wheel = \<lparr>keysHeld = {}, buttonsHeld = {}, pointers = [], wheelDelta = Some \<lparr>vx = 0, vy = 1, vz = 0\<rparr>\<rparr>"

definition demo_drag :: frame_input where
  "demo_drag = \<lparr>keysHeld = {AltLeft}, buttonsHeld = {Primary},
     pointers = [\<lparr>deltaPosition = (100, 0)\<rparr>], wheelDelta = None\<rparr>"

definition demo_ctl1 :: ctl where
  "demo_ctl1 = demo_ctl\<lparr>spherical := \<lparr>radius = 5, theta = 0, phi = pi / 2\<rparr>,
      transform := demo_tf\<lparr>rotationQuaternion := quat_id\<rparr>\<rparr>"

section \<open>Unfolding a frame\<close>

lemma clampFin_Inr_iff: "clampFin lo hi x = Inr r \<longleftrightarrow> js_clamp lo hi (Fin x) = Fin r"
  by (auto simp: clampFin_def split: jsnum.splits)

lemma vscale_one [simp]: "vscale 1 v = v"
  by (simp add: vscale_def)

text \<open>What a successful \<open>_updateTransform\<close> has computed, stage by stage.\<close>

lemma frame_sph_InrE:
  assumes "frame_sph c = Inr s4"
  obtains s0 th r where
    "setFromVec3 (offset c) (atTheBack c) = Inr s0"
    "js_clamp (minAzimuthAngle c) (maxAzimuthAngle c) (Fin (theta s0 + theta (sphericalDelta c))) = Fin th"
    "js_clamp (minDistance c) (maxDistance c)
       (Fin (radius s0 + (if scale c \<noteq> 1 then radius s0 * (scale c - 1) else zoomFrag c))) = Fin r"
    "s4 = \<lparr>radius = r, theta = th,
       phi = makeSafe_js (js_clamp (minPolarAngle c) (maxPolarAngle c) (Fin (phi s0 + phi (sphericalDelta c))))\<rparr>"
proof -
  obtain s0 where s0: "setFromVec3 (offset c) (atTheBack c) = Inr s0" and
    rest: "res_bind (clampFin (minAzimuthAngle c) (maxAzimuthAngle c) (theta s0 + theta (sphericalDelta c))) (\<lambda>th.
       res_bind (clampFin (minDistance c) (maxDistance c)
         (radius s0 + (if scale c \<noteq> 1 then radius s0 * (scale c - 1) else zoomFrag c))) (\<lambda>r.
       Inr \<lparr>radius = r, theta = th,
         phi = makeSafe_js (js_clamp (minPolarAngle c) (maxPolarAngle c) (Fin (phi s0 + phi (sphericalDelta c))))\<rparr>)) = Inr s4"
    using assms unfolding frame_sph_def Let_def by (auto simp: res_bind_Inr_iff cong: if_cong)
  from rest obtain th r where
    "clampFin (minAzimuthAngle c) (maxAzimuthAngle c) (theta s0 + theta (sphericalDelta c)) = Inr th"
    "clampFin (minDistance c) (maxDistance c)
       (radius s0 + (if scale c \<noteq> 1 then radius s0 * (scale c - 1) else zoomFrag c)) = Inr r"
    "s4 = \<lparr>radius = r, theta = th,
       phi = makeSafe_js (js_clamp (minPolarAngle c) (maxPolarAngle c) (Fin (phi s0 + phi (sphericalDelta c))))\<rparr>"
    by (auto simp: res_bind_Inr_iff)
  then show ?thesis using s0 that by (simp add: clampFin_Inr_iff)
qed

lemma updateTransform_Inr_raw:
  assumes "updateTransform la c = Inr c'"
  obtains s0 th ph r where
    "setFromVec3 (offset c) (atTheBack c) = Inr s0"
    "js_clamp (minAzimuthAngle c) (maxAzimuthAngle c) (Fin (theta s0 + theta (sphericalDelta c))) = Fin th"
    "js_clamp (minPolarAngle c) (maxPolarAngle c) (Fin (phi s0 + phi (sphericalDelta c))) = ph"
    "js_clamp (minDistance c) (maxDistance c)
       (Fin (radius s0 + (if scale c \<noteq> 1 then radius s0 * (scale c - 1) else zoomFrag c))) = Fin r"
    "c' = c\<lparr>atTheBack := snd (setToVec3 \<lparr>radius = r, theta = th, phi = makeSafe_js ph\<rparr>),
             spherical := \<lparr>radius = r, theta = th, phi = makeSafe_js ph\<rparr>,
             transform := lookAt la (target c)
               (vscale (if snd (setToVec3 \<lparr>radius = r, theta = th, phi = makeSafe_js ph\<rparr>) then -1 else 1) (up c))
               ((transform c)\<lparr>position := vadd (target c) (fst (setToVec3 \<lparr>radius = r, theta = th, phi = makeSafe_js ph\<rparr>))\<rparr>),
             zoomFrag := 0, scale := 1, sphericalDelta := set_sph 0 0 0 (sphericalDelta c)\<rparr>"
proof -
  obtain s4 where f: "frame_sph c = Inr s4" and c': "c' = c\<lparr>atTheBack := snd (setToVec3 s4), spherical := s4,
             transform := lookAt la (target c) (vscale (if snd (setToVec3 s4) then -1 else 1) (up c))
               ((transform c)\<lparr>position := vadd (target c) (fst (setToVec3 s4))\<rparr>),
             zoomFrag := 0, scale := 1, sphericalDelta := set_sph 0 0 0 (sphericalDelta c)\<rparr>"
    using assms by (auto simp: updateTransform_def res_bind_Inr_iff split_def Let_def)
  obtain s0 th r where
    "setFromVec3 (offset c) (atTheBack c) = Inr s0"
    "js_clamp (minAzimuthAngle c) (maxAzimuthAngle c) (Fin (theta s0 + theta (sphericalDelta c))) = Fin th"
    "js_clamp (minDistance c) (maxDistance c)
       (Fin (radius s0 + (if scale c \<noteq> 1 then radius s0 * (scale c - 1) else zoomFrag c))) = Fin r"
    "s4 = \<lparr>radius = r, theta = th,
       phi = makeSafe_js (js_clamp (minPolarAngle c) (maxPolarAngle c) (Fin (phi s0 + phi (sphericalDelta c))))\<rparr>"
    using f by (rule frame_sph_InrE)
  then show ?thesis using c' by (intro that) simp_all
qed

lemma updateTransform_InrE:
  assumes "updateTransform la c = Inr c'"
  obtains s0 th ph r s' where
    "setFromVec3 (offset c) (atTheBack c) = Inr s0"
    "js_clamp (minAzimuthAngle c) (maxAzimuthAngle c) (Fin (theta s0 + theta (sphericalDelta c))) = Fin th"
    "js_clamp (minPolarAngle c) (maxPolarAngle c) (Fin (phi s0 + phi (sphericalDelta c))) = ph"
    "js_clamp (minDistance c) (maxDistance c)
       (Fin (radius s0 + (if scale c \<noteq> 1 then radius s0 * (scale c - 1) else zoomFrag c))) = Fin r"
    "s' = \<lparr>radius = r, theta = th, phi = makeSafe_js ph\<rparr>"
    "c' = c\<lparr>atTheBack := snd (setToVec3 s'), spherical := s',
             transform := lookAt la (target c) (vscale (if snd (setToVec3 s') then -1 else 1) (up c))
               ((transform c)\<lparr>position := vadd (target c) (fst (setToVec3 s'))\<rparr>),
             zoomFrag := 0, scale := 1, sphericalDelta := set_sph 0 0 0 (sphericalDelta c)\<rparr>"
proof -
  obtain s0 th ph r where
    a: "setFromVec3 (offset c) (atTheBack c) = Inr s0"
    "js_clamp (minAzimuthAngle c) (maxAzimuthAngle c) (Fin (theta s0 + theta (sphericalDelta c))) = Fin th"
    "js_clamp (minPolarAngle c) (maxPolarAngle c) (Fin (phi s0 + phi (sphericalDelta c))) = ph"
    "js_clamp (minDistance c) (maxDistance c)
       (Fin (radius s0 + (if scale c \<noteq> 1 then radius s0 * (scale c - 1) else zoomFrag c))) = Fin r"
    and c': "c' = c\<lparr>atTheBack := snd (setToVec3 \<lparr>radius = r, theta = th, phi = makeSafe_js ph\<rparr>),
             spherical := \<lparr>radius = r, theta = th, phi = makeSafe_js ph\<rparr>,
             transform := lookAt la (target c)
               (vscale (if snd (setToVec3 \<lparr>radius = r, theta = th, phi = makeSafe_js ph\<rparr>) then -1 else 1) (up c))
               ((transform c)\<lparr>position := vadd (target c) (fst (setToVec3 \<lparr>radius = r, theta = th, phi = makeSafe_js ph\<rparr>))\<rparr>),
             zoomFrag := 0, scale := 1, sphericalDelta := set_sph 0 0 0 (sphericalDelta c)\<rparr>"
    using assms by (rule updateTransform_Inr_raw)
  show ?thesis by (rule that [OF a refl]) (rule c')
qed

lemma updateTransform_clamps:
  assumes "updateTransform la c = Inr c'"
  obtains s0 th ph r where
    "js_clamp (minAzimuthAngle c) (maxAzimuthAngle c) (Fin (theta (s0 :: spherical) + theta (sphericalDelta c))) = Fin th"
    "js_clamp (minPolarAngle c) (maxPolarAngle c) (Fin (phi s0 + phi (sphericalDelta c))) = ph"
    "js_clamp (minDistance c) (maxDistance c)
       (Fin (radius s0 + (if scale c \<noteq> 1 then radius s0 * (scale c - 1) else zoomFrag c))) = Fin r"
proof -
  obtain s0 th ph r s' where
    "setFromVec3 (offset c) (atTheBack c) = Inr s0" and a:
    "js_clamp (minAzimuthAngle c) (maxAzimuthAngle c) (Fin (theta s0 + theta (sphericalDelta c))) = Fin th"
    "js_clamp (minPolarAngle c) (maxPolarAngle c) (Fin (phi s0 + phi (sphericalDelta c))) = ph"
    "js_clamp (minDistance c) (maxDistance c)
       (Fin (radius s0 + (if scale c \<noteq> 1 then radius s0 * (scale c - 1) else zoomFrag c))) = Fin r" and
    "s' = \<lparr>radius = r, theta = th, phi = makeSafe_js ph\<rparr>" and
    "c' = c\<lparr>atTheBack := snd (setToVec3 s'), spherical := s',
             transform := lookAt la (target c) (vscale (if snd (setToVec3 s') then -1 else 1) (up c))
               ((transform c)\<lparr>position := vadd (target c) (fst (setToVec3 s'))\<rparr>),
             zoomFrag := 0, scale := 1, sphericalDelta := set_sph 0 0 0 (sphericalDelta c)\<rparr>"
    using assms by (rule updateTransform_InrE)
  show ?thesis by (rule that [OF a])
qed

lemma clampFin_ok: "(\<exists>r. clampFin lo hi x = Inr r) \<longleftrightarrow> limit_ok lo hi"
  using js_clamp_finite_iff [of lo hi x] by (auto simp: clampFin_Inr_iff limit_ok_def)

lemma vsub_vadd_cancel [simp]: "vsub (vadd t w) t = w"
  by (simp add: vsub_def vadd_def)

lemma js_clamp_idem: "js_clamp lo hi (js_clamp lo hi x) = js_clamp lo hi x"
proof (cases "lo \<le> hi")
  case True
  then show ?thesis using js_clamp_ge_lo [of lo hi x] js_clamp_le_hi [OF True, of x] by simp
next
  case False
  then show ?thesis by (simp add: js_clamp_inverted)
qed

lemma makeSafe_js_sin_pos: "0 < sin (makeSafe_js y)"
  using makeSafe_js_phi [of y] spherical_eps_bounds by (intro sin_gt_zero) simp_all

lemma map_sum_res_bind: "map_sum f g (res_bind m h) = (case m of Inl e \<Rightarrow> Inl (f e) | Inr a \<Rightarrow> map_sum f g (h a))"
  by (cases m) simp_all

lemma move_eq:
  "move v c = c\<lparr>transform := (transform c)\<lparr>position := vadd (position (transform c)) (transformByQuat v (rotationQuaternion (transform c)))\<rparr>,
                 target := vadd (target c) (transformByQuat v (rotationQuaternion (transform c)))\<rparr>"
  by (simp add: move_def translate_def Let_def)

lemma vsub_vadd_both [simp]: "vsub (vadd p m) (vadd t m) = vsub p t"
  by (simp add: vsub_def vadd_def)

lemma pose_variant_refl [simp]: "pose_variant c c"
  by (simp add: pose_variant_def)

lemma pose_variant_trans: "pose_variant a b \<Longrightarrow> pose_variant b d \<Longrightarrow> pose_variant a d"
proof -
  assume ab: "pose_variant a b" and bd: "pose_variant b d"
  from bd have "d = b\<lparr>transform := transform d, target := target d\<rparr>" by (simp add: pose_variant_def)
  also have "\<dots> = a\<lparr>transform := transform b, target := target b\<rparr>\<lparr>transform := transform d, target := target d\<rparr>"
    using ab by (simp add: pose_variant_def)
  finally show ?thesis by (simp add: pose_variant_def)
qed

lemma move_pose_variant: "pose_variant c (move v c) \<and> offset (move v c) = offset c"
  by (simp add: move_eq pose_variant_def offset_def)

lemma pose_variant_move:
  assumes "pose_variant c c1 \<and> offset c1 = offset c"
  shows "pose_variant c (move v c1) \<and> offset (move v c1) = offset c"
  using assms move_pose_variant [of c1 v] pose_variant_trans by metis

lemma pose_variant_if_move:
  assumes "pose_variant c c1 \<and> offset c1 = offset c"
  shows "pose_variant c (if b1 then move v1 c1 else if b2 then move v2 c1 else c1)
         \<and> offset (if b1 then move v1 c1 else if b2 then move v2 c1 else c1) = offset c"
  using assms pose_variant_move [OF assms] by simp

lemma keyPan_pose_variant: "pose_variant c (keyPan inp c) \<and> offset (keyPan inp c) = offset c"
  unfolding keyPan_def Let_def
  by (intro pose_variant_if_move) simp

text \<open>
  A frame's spherical result reads the state only through the offset and fields that a
  pose variant keeps.
\<close>

lemma frame_sph_pose_variant:
  assumes "pose_variant c c'" and "offset c' = offset c"
  shows "frame_sph c' = frame_sph c"
proof -
  have c': "c' = c\<lparr>transform := transform c', target := target c'\<rparr>" using assms(1) by (simp add: pose_variant_def)
  have fields: "atTheBack c' = atTheBack c" "sphericalDelta c' = sphericalDelta c" "scale c' = scale c"
    "zoomFrag c' = zoomFrag c" "minAzimuthAngle c' = minAzimuthAngle c" "maxAzimuthAngle c' = maxAzimuthAngle c"
    "minPolarAngle c' = minPolarAngle c" "maxPolarAngle c' = maxPolarAngle c"
    "minDistance c' = minDistance c" "maxDistance c' = maxDistance c"
    by (subst c', simp)+
  show ?thesis unfolding frame_sph_def fields assms(2) ..
qed

lemma spherical_updateTransform: "map_sum id spherical (updateTransform la c) = frame_sph c"
  by (cases "frame_sph c") (simp_all add: updateTransform_def split_def Let_def)

lemma updateTransform_limits_ok:
  assumes "updateTransform la c = Inr c'"
  shows "limits_ok c"
proof -
  obtain s0 th ph r where
    "js_clamp (minAzimuthAngle c) (maxAzimuthAngle c) (Fin (theta (s0 :: spherical) + theta (sphericalDelta c))) = Fin th"
    "js_clamp (minPolarAngle c) (maxPolarAngle c) (Fin (phi s0 + phi (sphericalDelta c))) = ph"
    "js_clamp (minDistance c) (maxDistance c)
       (Fin (radius s0 + (if scale c \<noteq> 1 then radius s0 * (scale c - 1) else zoomFrag c))) = Fin r"
    using assms by (rule updateTransform_clamps)
  then show ?thesis
    using js_clamp_finite_iff unfolding limits_ok_def limit_ok_def by metis
qed

text \<open>The state a successful frame leaves behind, in the terms the next frame reads.\<close>

lemma updateTransform_post:
  assumes "updateTransform la c = Inr c1"
  shows "offset c1 = fst (setToVec3 (spherical c1)) \<and> \<not> atTheBack c1 \<and> \<not> snd (setToVec3 (spherical c1))
    \<and> theta (sphericalDelta c1) = 0 \<and> phi (sphericalDelta c1) = 0 \<and> scale c1 = 1 \<and> zoomFrag c1 = 0
    \<and> spherical_eps \<le> phi (spherical c1) \<and> phi (spherical c1) \<le> pi - spherical_eps
    \<and> minDistance c \<le> Fin (radius (spherical c1))
    \<and> transform c1 = (transform c)\<lparr>position := vadd (target c) (fst (setToVec3 (spherical c1))),
          rotationQuaternion := la (vadd (target c) (fst (setToVec3 (spherical c1)))) (target c) (up c)\<rparr>"
proof -
  obtain s0 th ph r s' where
    "setFromVec3 (offset c) (atTheBack c) = Inr s0" and
    "js_clamp (minAzimuthAngle c) (maxAzimuthAngle c) (Fin (theta s0 + theta (sphericalDelta c))) = Fin th" and
    "js_clamp (minPolarAngle c) (maxPolarAngle c) (Fin (phi s0 + phi (sphericalDelta c))) = ph" and
    r: "js_clamp (minDistance c) (maxDistance c)
       (Fin (radius s0 + (if scale c \<noteq> 1 then radius s0 * (scale c - 1) else zoomFrag c))) = Fin r" and
    s': "s' = \<lparr>radius = r, theta = th, phi = makeSafe_js ph\<rparr>" and
    c1: "c1 = c\<lparr>atTheBack := snd (setToVec3 s'), spherical := s',
             transform := lookAt la (target c) (vscale (if snd (setToVec3 s') then -1 else 1) (up c))
               ((transform c)\<lparr>position := vadd (target c) (fst (setToVec3 s'))\<rparr>),
             zoomFrag := 0, scale := 1, sphericalDelta := set_sph 0 0 0 (sphericalDelta c)\<rparr>"
    using assms by (rule updateTransform_InrE)
  have nb: "\<not> snd (setToVec3 s')"
    using makeSafe_js_sin_pos [of ph] s' by (simp add: setToVec3_def Let_def)
  have margin: "spherical_eps \<le> phi s' \<and> phi s' \<le> pi - spherical_eps"
    using makeSafe_js_phi [of ph] s' by simp
  have "minDistance c \<le> Fin r" using js_clamp_ge_lo r by metis
  then show ?thesis
    using nb margin s' c1 by (simp add: offset_def lookAt_def set_sph_def)
qed

lemma updateTransform_Inr_exists:
  assumes "vlen (offset c) \<noteq> 0" and ok: "limits_ok c"
  shows "\<exists>c'. updateTransform la c = Inr c'"
proof -
  obtain s0 where s0: "setFromVec3 (offset c) (atTheBack c) = Inr s0"
    using setFromVec3_Inr [OF assms(1)] by blast
  obtain th where th: "clampFin (minAzimuthAngle c) (maxAzimuthAngle c) (theta s0 + theta (sphericalDelta c)) = Inr th"
    using ok clampFin_ok unfolding limits_ok_def by blast
  obtain r where r: "clampFin (minDistance c) (maxDistance c)
      (radius s0 + (if scale c \<noteq> 1 then radius s0 * (scale c - 1) else zoomFrag c)) = Inr r"
    using ok clampFin_ok unfolding limits_ok_def by blast
  show ?thesis
    using s0 th r by (cases "scale c = 1") (simp_all add: updateTransform_def frame_sph_def Let_def split_def)
qed

lemma wheel_factor_lt_1: "0 < z \<Longrightarrow> (19 / 20 :: real) powr z < 1"
  using powr_less_mono2 [of z "19 / 20" 1] by simp

lemma updateTransform_config:
  assumes "updateTransform la c = Inr c'"
  shows "minPolarAngle c' = minPolarAngle c \<and> maxPolarAngle c' = maxPolarAngle c
    \<and> minDistance c' = minDistance c \<and> maxDistance c' = maxDistance c
    \<and> minAzimuthAngle c' = minAzimuthAngle c \<and> maxAzimuthAngle c' = maxAzimuthAngle c
    \<and> rotateSpeed c' = rotateSpeed c \<and> zoomSpeed c' = zoomSpeed c
    \<and> target c' = target c \<and> up c' = up c \<and> canvas c' = canvas c"
  using assms by (rule updateTransform_InrE) simp

lemma demo_ctl_simps:
  "minDistance demo_ctl = Fin (1 / 10)" "maxDistance demo_ctl = PosInf"
  "minAzimuthAngle demo_ctl = NegInf" "maxAzimuthAngle demo_ctl = PosInf"
  "minPolarAngle demo_ctl = Fin 1" "maxPolarAngle demo_ctl = Fin (179 / 180 * pi)"
  "scale demo_ctl = 1" "zoomFrag demo_ctl = 0" "atTheBack demo_ctl = False"
  "target demo_ctl = vec0" "up demo_ctl = \<lparr>vx = 0, vy = 1, vz = 0\<rparr>"
  "sphericalDelta demo_ctl = spherical0" "transform demo_ctl = demo_tf"
  "rotateSpeed demo_ctl = 1" "zoomSpeed demo_ctl = 1" "canvas demo_ctl = \<lparr>width = 800, height = 600\<rparr>"
  by (simp_all add: demo_ctl_def ViewportControl_init_def)

lemma offset_demo: "offset demo_ctl = \<lparr>vx = 0, vy = 0, vz = 5\<rparr>"
  by (simp add: offset_def demo_ctl_def ViewportControl_init_def demo_tf_def vsub_def vec0_def)

lemma vlen_demo: "vlen \<lparr>vx = 0, vy = 0, vz = 5\<rparr> = 5"
  by (simp add: vlen_def real_sqrt_unique)

lemma demo_phi_window:
  "1 \<le> pi / 2 \<and> pi / 2 \<le> 179 / 180 * pi \<and> spherical_eps \<le> pi / 2 \<and> pi / 2 \<le> pi - spherical_eps"
  using pi_ge_two by (simp add: spherical_eps_def)

text \<open>One frame of the example with no input, computed.\<close>

lemma updateTransform_demo:
  "updateTransform la demo_ctl = Inr (demo_ctl\<lparr>spherical := \<lparr>radius = 5, theta = 0, phi = pi / 2\<rparr>,
      transform := demo_tf\<lparr>rotationQuaternion := la \<lparr>vx = 0, vy = 0, vz = 5\<rparr> vec0 \<lparr>vx = 0, vy = 1, vz = 0\<rparr>\<rparr>\<rparr>)"
  using demo_phi_window
  by (simp add: updateTransform_def frame_sph_def offset_def demo_ctl_def ViewportControl_init_def demo_tf_def
      setFromVec3_def vlen_demo vsub_def vec0_def atan2_def clampFin_def js_clamp_def makeSafe_def
      setToVec3_def vadd_def vscale_def lookAt_def set_sph_def spherical0_def Let_def)

lemma updateTransform_demo1: "updateTransform demo_la demo_ctl = Inr demo_ctl1"
  by (simp add: updateTransform_demo demo_ctl1_def demo_la_def)

section \<open>Helpers on whole frames\<close>

lemma limits_ok_limits: "limits c' = limits c \<Longrightarrow> limits_ok c' = limits_ok c"
  by (simp add: limits_def limits_ok_def)

lemma limits_minDistance: "limits c' = limits c \<Longrightarrow> minDistance c' = minDistance c"
  by (simp add: limits_def)

lemma keyPan_limits: "limits (keyPan inp c) = limits c"
proof -
  have "keyPan inp c = c\<lparr>transform := transform (keyPan inp c), target := target (keyPan inp c)\<rparr>"
    using keyPan_pose_variant [of c inp] by (simp add: pose_variant_def)
  then have "limits (keyPan inp c) = limits (c\<lparr>transform := transform (keyPan inp c), target := target (keyPan inp c)\<rparr>)"
    by (rule arg_cong)
  then show ?thesis by (simp add: limits_def)
qed

lemma wheelZoom_limits_offset: "limits (wheelZoom inp c) = limits c \<and> offset (wheelZoom inp c) = offset c"
  by (simp add: wheelZoom_def limits_def offset_def split: option.split)

lemma dragRotate_limits_offset:
  "dragRotate inp c = Inr c' \<Longrightarrow> limits c' = limits c \<and> offset c' = offset c"
  by (auto simp: dragRotate_def limits_def offset_def split_def Let_def split: if_splits list.splits)

lemma dragRotate_scale: "dragRotate inp c = Inr c' \<Longrightarrow> scale c' = scale c"
  by (auto simp: dragRotate_def split_def Let_def split: if_splits list.splits)

lemma wheelZoom_scale_pos: "0 < scale c \<Longrightarrow> 0 < scale (wheelZoom inp c)"
  by (simp add: wheelZoom_def split: option.split)

lemma keyPan_scale: "scale (keyPan inp c) = scale c"
proof -
  have "keyPan inp c = c\<lparr>transform := transform (keyPan inp c), target := target (keyPan inp c)\<rparr>"
    using keyPan_pose_variant [of c inp] by (simp add: pose_variant_def)
  then have "scale (keyPan inp c) = scale (c\<lparr>transform := transform (keyPan inp c), target := target (keyPan inp c)\<rparr>)"
    by (rule arg_cong)
  then show ?thesis by simp
qed

lemma updateTransform_limits_eq: "updateTransform la c = Inr c' \<Longrightarrow> limits c' = limits c"
  using updateTransform_config [of la c c'] by (simp add: limits_def)

lemma onUpdate_InrE:
  assumes "onUpdate la inp c = Inr c'"
  obtains cd where "dragRotate inp (wheelZoom inp (keyPan inp c)) = Inr cd" "updateTransform la cd = Inr c'"
  using assms by (auto simp: onUpdate_def Let_def split: sum.splits intro: that)

lemma onUpdate_input_limits:
  "dragRotate inp (wheelZoom inp (keyPan inp c)) = Inr cd \<Longrightarrow> limits cd = limits c \<and> offset cd = offset c"
  using dragRotate_limits_offset [of inp "wheelZoom inp (keyPan inp c)" cd]
    wheelZoom_limits_offset [of inp "keyPan inp c"] keyPan_limits [of inp c] keyPan_pose_variant [of c inp]
  by simp

lemma onUpdate_limits:
  assumes "onUpdate la inp c = Inr c'"
  shows "limits c' = limits c"
proof -
  obtain cd where d: "dragRotate inp (wheelZoom inp (keyPan inp c)) = Inr cd" and u: "updateTransform la cd = Inr c'"
    using assms by (rule onUpdate_InrE)
  show ?thesis using onUpdate_input_limits [OF d] updateTransform_limits_eq [OF u] by simp
qed

lemma updateTransform_offset_nonzero:
  assumes "updateTransform la c = Inr c'" and "Fin 0 < minDistance c"
  shows "vlen (offset c') \<noteq> 0"
proof -
  have p: "offset c' = fst (setToVec3 (spherical c'))" "minDistance c \<le> Fin (radius (spherical c'))"
    using updateTransform_post [OF assms(1)] by simp_all
  then have "Fin 0 < Fin (radius (spherical c'))" using assms(2) by order
  then show ?thesis using p(1) setToVec3_vlen [of "spherical c'"] by simp
qed

lemma onUpdate_offset_nonzero:
  assumes "onUpdate la inp c = Inr c'" and "Fin 0 < minDistance c"
  shows "vlen (offset c') \<noteq> 0"
proof -
  obtain cd where d: "dragRotate inp (wheelZoom inp (keyPan inp c)) = Inr cd" and u: "updateTransform la cd = Inr c'"
    using assms(1) by (rule onUpdate_InrE)
  have "minDistance cd = minDistance c" using onUpdate_input_limits [OF d] by (simp add: limits_def)
  then show ?thesis using updateTransform_offset_nonzero [OF u] assms(2) by simp
qed

lemma dragRotate_Inr_exists:
  assumes "held inp AltLeft \<and> Primary \<in> buttonsHeld inp \<longrightarrow> pointers inp \<noteq> []"
  shows "\<exists>c'. dragRotate inp c = Inr c'"
proof (cases "held inp AltLeft \<and> Primary \<in> buttonsHeld inp")
  case True
  then obtain p ps where "pointers inp = p # ps" using assms by (cases "pointers inp") auto
  then show ?thesis using True by (simp add: dragRotate_def split_def Let_def)
next
  case False
  then have "dragRotate inp c = Inr c" unfolding dragRotate_def by (simp only: if_False)
  then show ?thesis by blast
qed

lemma onUpdate_Inr_exists:
  assumes "limits_ok c" "vlen (offset c) \<noteq> 0"
    and "held inp AltLeft \<and> Primary \<in> buttonsHeld inp \<longrightarrow> pointers inp \<noteq> []"
  shows "\<exists>c'. onUpdate la inp c = Inr c'"
proof -
  let ?cw = "wheelZoom inp (keyPan inp c)"
  obtain cd where cd: "dragRotate inp ?cw = Inr cd"
    using dragRotate_Inr_exists [OF assms(3)] by blast
  have lo: "limits cd = limits c \<and> offset cd = offset c" using onUpdate_input_limits [OF cd] .
  then have "limits_ok cd" "vlen (offset cd) \<noteq> 0" using assms(1,2) limits_ok_limits [of cd c] by simp_all
  then obtain c' where "updateTransform la cd = Inr c'"
    using updateTransform_Inr_exists [of cd la] by blast
  then show ?thesis using cd by (simp add: onUpdate_def)
qed


text \<open>Moves compose by adding their local vectors.\<close>

lemma move_vec0: "move vec0 c = c"
  by (simp add: move_eq)

lemma move_move: "move v (move w c) = move (vadd w v) c"
  by (simp add: move_eq transformByQuat_vadd vadd_assoc)

lemma keyPan_eq_move: "keyPan inp c = move (pan_vec inp) c"
  by (simp add: keyPan_def pan_vec_def Let_def move_move move_vec0 vadd_assoc)

text \<open>The distance a frame writes back, from a nonzero offset.\<close>

lemma frame_radius:
  assumes "updateTransform la c = Inr c'"
  shows "vlen (offset c) \<noteq> 0 \<and> Fin (radius (spherical c')) = js_clamp (minDistance c) (maxDistance c)
           (Fin (if scale c \<noteq> 1 then vlen (offset c) * scale c else vlen (offset c) + zoomFrag c))"
proof -
  obtain s0 th ph r s' where
    s0: "setFromVec3 (offset c) (atTheBack c) = Inr s0" and
    r: "js_clamp (minDistance c) (maxDistance c)
       (Fin (radius s0 + (if scale c \<noteq> 1 then radius s0 * (scale c - 1) else zoomFrag c))) = Fin r" and
    s': "s' = \<lparr>radius = r, theta = th, phi = makeSafe_js ph\<rparr>" and
    c': "c' = c\<lparr>atTheBack := snd (setToVec3 s'), spherical := s',
             transform := lookAt la (target c) (vscale (if snd (setToVec3 s') then -1 else 1) (up c))
               ((transform c)\<lparr>position := vadd (target c) (fst (setToVec3 s'))\<rparr>),
             zoomFrag := 0, scale := 1, sphericalDelta := set_sph 0 0 0 (sphericalDelta c)\<rparr>"
    using assms by (rule updateTransform_InrE)
  have r0: "radius s0 = vlen (offset c)" "vlen (offset c) \<noteq> 0" using setFromVec3_radius [OF s0] by simp_all
  have "vlen (offset c) + vlen (offset c) * (scale c - 1) = vlen (offset c) * scale c"
    by (simp add: algebra_simps)
  then have "radius s0 + (if scale c \<noteq> 1 then radius s0 * (scale c - 1) else zoomFrag c)
      = (if scale c \<noteq> 1 then vlen (offset c) * scale c else vlen (offset c) + zoomFrag c)"
    using r0 by simp
  then show ?thesis using r s' c' r0(2) by simp
qed

text \<open>The polar angle a frame writes back, and the window it lies in when the configured
  window sits inside the band \<open>makeSafe\<close> keeps.\<close>

lemma updateTransform_phi:
  assumes "updateTransform la c = Inr c'"
  obtains x where "Fin (phi (spherical c'))
    = js_clamp (Fin spherical_eps) (Fin (pi - spherical_eps)) (js_clamp (minPolarAngle c) (maxPolarAngle c) x)"
proof (rule updateTransform_InrE [OF assms])
  fix s0 th ph r s'
  assume "js_clamp (minPolarAngle c) (maxPolarAngle c) (Fin (phi s0 + phi (sphericalDelta c))) = ph"
    and "s' = \<lparr>radius = r, theta = th, phi = makeSafe_js ph\<rparr>" and "c' = c\<lparr>atTheBack := snd (setToVec3 s'), spherical := s',
             transform := lookAt la (target c) (vscale (if snd (setToVec3 s') then -1 else 1) (up c))
               ((transform c)\<lparr>position := vadd (target c) (fst (setToVec3 s'))\<rparr>),
             zoomFrag := 0, scale := 1, sphericalDelta := set_sph 0 0 0 (sphericalDelta c)\<rparr>"
  then show thesis using that [of "Fin (phi s0 + phi (sphericalDelta c))"] by (simp add: makeSafe_js_clamp)
qed

lemma updateTransform_polar_window:
  assumes "updateTransform la c = Inr c'" and "minPolarAngle c \<le> maxPolarAngle c"
    and "Fin spherical_eps \<le> minPolarAngle c" and "maxPolarAngle c \<le> Fin (pi - spherical_eps)"
  shows "minPolarAngle c \<le> Fin (phi (spherical c')) \<and> Fin (phi (spherical c')) \<le> maxPolarAngle c"
proof -
  obtain x where s: "Fin (phi (spherical c'))
      = js_clamp (Fin spherical_eps) (Fin (pi - spherical_eps)) (js_clamp (minPolarAngle c) (maxPolarAngle c) x)"
    using assms(1) by (rule updateTransform_phi)
  define y where "y = js_clamp (minPolarAngle c) (maxPolarAngle c) x"
  have w: "minPolarAngle c \<le> y" "y \<le> maxPolarAngle c"
    using js_clamp_ge_lo [of "minPolarAngle c" "maxPolarAngle c" x]
      js_clamp_le_hi [OF assms(2), of x] unfolding y_def by simp_all
  have "Fin spherical_eps \<le> y" "y \<le> Fin (pi - spherical_eps)"
    using w assms(3,4) by order+
  then have "Fin (phi (spherical c')) = y" using s unfolding y_def by simp
  then show ?thesis using w by simp
qed

section \<open>Properties of a frame\<close>

text \<open>
  C1. After a successful frame the azimuth is at least \<open>minAzimuthAngle\<close> and the
  distance at least \<open>minDistance\<close>, and at most the maxima when the pairs are ordered;
  the polar angle keeps the pole margin, and lies in the polar limits when these lie
  inside the margin.
\<close>

theorem updateTransform_limits:
  assumes "updateTransform la c = Inr c'"
  shows "minAzimuthAngle c \<le> Fin (theta (spherical c')) \<and> minDistance c \<le> Fin (radius (spherical c'))
       \<and> spherical_eps \<le> phi (spherical c') \<and> phi (spherical c') \<le> pi - spherical_eps
       \<and> (minAzimuthAngle c \<le> maxAzimuthAngle c \<longrightarrow> Fin (theta (spherical c')) \<le> maxAzimuthAngle c)
       \<and> (minDistance c \<le> maxDistance c \<longrightarrow> Fin (radius (spherical c')) \<le> maxDistance c)
       \<and> (Fin spherical_eps \<le> minPolarAngle c \<and> minPolarAngle c \<le> maxPolarAngle c
            \<and> maxPolarAngle c \<le> Fin (pi - spherical_eps)
          \<longrightarrow> minPolarAngle c \<le> Fin (phi (spherical c')) \<and> Fin (phi (spherical c')) \<le> maxPolarAngle c)"
proof -
  obtain s0 th ph r where
    "setFromVec3 (offset c) (atTheBack c) = Inr s0" and
    th: "js_clamp (minAzimuthAngle c) (maxAzimuthAngle c) (Fin (theta s0 + theta (sphericalDelta c))) = Fin th" and
    ph: "js_clamp (minPolarAngle c) (maxPolarAngle c) (Fin (phi s0 + phi (sphericalDelta c))) = ph" and
    r: "js_clamp (minDistance c) (maxDistance c)
          (Fin (radius s0 + (if scale c \<noteq> 1 then radius s0 * (scale c - 1) else zoomFrag c))) = Fin r" and
    sph: "spherical c' = \<lparr>radius = r, theta = th, phi = makeSafe_js ph\<rparr>"
    using assms by (rule updateTransform_InrE) simp
  have margin: "spherical_eps \<le> makeSafe_js ph \<and> makeSafe_js ph \<le> pi - spherical_eps"
    by (rule makeSafe_js_phi)
  have pol: "Fin spherical_eps \<le> minPolarAngle c \<and> minPolarAngle c \<le> maxPolarAngle c
            \<and> maxPolarAngle c \<le> Fin (pi - spherical_eps)
          \<longrightarrow> minPolarAngle c \<le> Fin (phi (spherical c')) \<and> Fin (phi (spherical c')) \<le> maxPolarAngle c"
    using updateTransform_polar_window [OF assms] by blast
  have tlo: "minAzimuthAngle c \<le> Fin th"
    using js_clamp_ge_lo [of "minAzimuthAngle c" "maxAzimuthAngle c" "Fin (theta s0 + theta (sphericalDelta c))"] th
    by simp
  have thi: "minAzimuthAngle c \<le> maxAzimuthAngle c \<Longrightarrow> Fin th \<le> maxAzimuthAngle c"
    using js_clamp_le_hi [of "minAzimuthAngle c" "maxAzimuthAngle c" "Fin (theta s0 + theta (sphericalDelta c))"] th
    by simp
  have rlo: "minDistance c \<le> Fin r" using js_clamp_ge_lo r by metis
  have rhi: "minDistance c \<le> maxDistance c \<Longrightarrow> Fin r \<le> maxDistance c" using js_clamp_le_hi r by metis
  show ?thesis using sph margin tlo thi rlo rhi pol by simp
qed

theorem updateTransform_limits_witness:
  "updateTransform demo_la demo_ctl = Inr demo_ctl1 \<and> spherical_eps \<le> phi (spherical demo_ctl1)
   \<and> minDistance demo_ctl \<le> Fin (radius (spherical demo_ctl1))"
  using updateTransform_limits [OF updateTransform_demo1] updateTransform_demo1 by simp

text \<open>
  C2. From a non-zero offset, a frame ends with a pose exactly when the azimuth pair and
  the distance pair each let the clamp of a finite number stay finite; otherwise it ends
  in the fault \<open>NonFinite\<close> (a JavaScript run would place the camera at an infinite or
  NaN position). The polar pair plays no part: an infinite polar clamp is pulled back into
  the pole margin by \<open>makeSafe\<close>.
\<close>

theorem updateTransform_succeeds_iff:
  assumes "vlen (offset c) \<noteq> 0"
  shows "(\<exists>c'. updateTransform la c = Inr c') \<longleftrightarrow> limits_ok c"
proof
  assume "\<exists>c'. updateTransform la c = Inr c'"
  then obtain c' where "updateTransform la c = Inr c'" ..
  then obtain s0 th ph r where
    "js_clamp (minAzimuthAngle c) (maxAzimuthAngle c) (Fin (theta (s0 :: spherical) + theta (sphericalDelta c))) = Fin th"
    "js_clamp (minPolarAngle c) (maxPolarAngle c) (Fin (phi s0 + phi (sphericalDelta c))) = ph"
    "js_clamp (minDistance c) (maxDistance c)
       (Fin (radius s0 + (if scale c \<noteq> 1 then radius s0 * (scale c - 1) else zoomFrag c))) = Fin r"
    by (rule updateTransform_clamps)
  then show "limits_ok c"
    using js_clamp_finite_iff unfolding limits_ok_def limit_ok_def by metis
next
  assume "limits_ok c"
  with assms show "\<exists>c'. updateTransform la c = Inr c'" by (rule updateTransform_Inr_exists)
qed

theorem updateTransform_succeeds_iff_witness:
  "vlen (offset demo_ctl) = 5
   \<and> (\<exists>c'. updateTransform demo_la (demo_ctl\<lparr>minPolarAngle := PosInf, maxPolarAngle := PosInf\<rparr>) = Inr c')
   \<and> \<not> (\<exists>c'. updateTransform demo_la (demo_ctl\<lparr>minDistance := PosInf\<rparr>) = Inr c')"
proof -
  have v: "vlen (offset demo_ctl) = 5" by (simp add: offset_demo vlen_demo)
  have v': "vlen (offset (demo_ctl\<lparr>minDistance := PosInf\<rparr>)) \<noteq> 0" using v by (simp add: offset_def)
  have v'': "vlen (offset (demo_ctl\<lparr>minPolarAngle := PosInf, maxPolarAngle := PosInf\<rparr>)) \<noteq> 0"
    using v by (simp add: offset_def)
  have ok: "limits_ok (demo_ctl\<lparr>minPolarAngle := PosInf, maxPolarAngle := PosInf\<rparr>)"
    by (simp add: limits_ok_def limit_ok_def demo_ctl_def ViewportControl_init_def)
  have bad: "\<not> limits_ok (demo_ctl\<lparr>minDistance := PosInf\<rparr>)"
    by (simp add: limits_ok_def limit_ok_def)
  show ?thesis
    using v ok bad updateTransform_succeeds_iff [OF v'', of demo_la]
      updateTransform_succeeds_iff [OF v', of demo_la] by simp
qed


text \<open>
  C3. After a successful frame the target is unchanged, the camera sits at the target
  plus the offset written back from the new spherical coordinates, the hemisphere flag is
  the one \<open>setToVec3\<close> returned, and the orientation is the engine's look-at from the
  new position towards the target with the up vector flipped exactly when the flag is set.
\<close>

theorem updateTransform_pose:
  assumes "updateTransform la c = Inr c'"
  shows "target c' = target c
    \<and> position (transform c') = vadd (target c) (fst (setToVec3 (spherical c')))
    \<and> atTheBack c' = snd (setToVec3 (spherical c'))
    \<and> rotationQuaternion (transform c')
        = la (position (transform c')) (target c) (vscale (if atTheBack c' then -1 else 1) (up c))"
  using assms by (rule updateTransform_InrE) (simp add: lookAt_def)

theorem updateTransform_pose_witness:
  "updateTransform demo_la demo_ctl = Inr demo_ctl1
   \<and> position (transform demo_ctl1) = vadd (target demo_ctl) (fst (setToVec3 (spherical demo_ctl1)))"
  using updateTransform_pose [OF updateTransform_demo1] updateTransform_demo1 by simp

text \<open>
  C4. A successful frame consumes the pending input: the zoom scale is back to 1, the
  zoom fragment to 0 and the pending rotation to zero.
\<close>

theorem updateTransform_resets:
  assumes "updateTransform la c = Inr c'"
  shows "scale c' = 1 \<and> zoomFrag c' = 0 \<and> theta (sphericalDelta c') = 0
    \<and> phi (sphericalDelta c') = 0 \<and> radius (sphericalDelta c') = 0"
  using assms by (rule updateTransform_InrE) (simp add: set_sph_def)

theorem updateTransform_resets_witness:
  "updateTransform demo_la demo_ctl = Inr demo_ctl1 \<and> scale demo_ctl1 = 1 \<and> zoomFrag demo_ctl1 = 0"
  using updateTransform_resets [OF updateTransform_demo1] updateTransform_demo1 by simp

text \<open>
  C5. The distance after a frame is the clamp of the current distance times the pending
  zoom scale when a zoom is pending, and of the distance plus the cached zoom fragment
  otherwise.
\<close>

theorem updateTransform_radius:
  assumes "updateTransform la c = Inr c'"
  shows "Fin (radius (spherical c')) = js_clamp (minDistance c) (maxDistance c)
           (Fin (if scale c \<noteq> 1 then vlen (offset c) * scale c else vlen (offset c) + zoomFrag c))"
  using frame_radius [OF assms] by simp

theorem updateTransform_radius_witness:
  "updateTransform demo_la demo_ctl = Inr demo_ctl1 \<and> radius (spherical demo_ctl1) = 5"
  using updateTransform_radius [OF updateTransform_demo1] updateTransform_demo1
  by (simp add: offset_demo vlen_demo demo_ctl_simps js_clamp_def)

text \<open>
  C6. After every successful frame the polar angle lies strictly between the poles, so
  the hemisphere flag \<open>_atTheBack\<close> is false and the camera is oriented with the
  unflipped up vector: the flag and the flip of line 150 never take effect.
\<close>

theorem updateTransform_front:
  assumes "updateTransform la c = Inr c'"
  shows "\<not> atTheBack c' \<and> rotationQuaternion (transform c') = la (position (transform c')) (target c) (up c)"
proof -
  obtain s0 th ph r s' where
    s': "s' = \<lparr>radius = r, theta = th, phi = makeSafe_js ph\<rparr>" and
    c': "c' = c\<lparr>atTheBack := snd (setToVec3 s'), spherical := s',
             transform := lookAt la (target c) (vscale (if snd (setToVec3 s') then -1 else 1) (up c))
               ((transform c)\<lparr>position := vadd (target c) (fst (setToVec3 s'))\<rparr>),
             zoomFrag := 0, scale := 1, sphericalDelta := set_sph 0 0 0 (sphericalDelta c)\<rparr>"
    using assms by (rule updateTransform_InrE)
  have "\<not> snd (setToVec3 s')"
    using makeSafe_js_sin_pos [of ph] s' by (simp add: setToVec3_def Let_def)
  then show ?thesis using c' by (simp add: lookAt_def)
qed

theorem updateTransform_front_witness:
  "updateTransform demo_la demo_ctl = Inr demo_ctl1 \<and> \<not> atTheBack demo_ctl1"
  using updateTransform_front [OF updateTransform_demo1] updateTransform_demo1 by simp

section \<open>Properties of the input handling\<close>

text \<open>
  C7. \<open>_move\<close> displaces the camera and the target by the same vector, the local offset
  rotated by the camera's rotation; the camera-to-target offset and the rotation are
  unchanged.
\<close>

theorem move_displacement:
  "vsub (position (transform (move v c))) (position (transform c)) = transformByQuat v (rotationQuaternion (transform c))
   \<and> vsub (target (move v c)) (target c) = transformByQuat v (rotationQuaternion (transform c))
   \<and> offset (move v c) = offset c
   \<and> rotationQuaternion (transform (move v c)) = rotationQuaternion (transform c)"
  by (simp add: move_eq offset_def)

text \<open>
  C8. Keyboard panning does not change the spherical coordinates that the frame computes:
  a frame after any pan input yields the same radius, azimuth and polar angle (or the same
  fault) as the frame without it.
\<close>

theorem keyPan_frame_spherical:
  "map_sum id spherical (updateTransform la (keyPan inp c)) = map_sum id spherical (updateTransform la c)"
  using keyPan_pose_variant [of c inp] frame_sph_pose_variant spherical_updateTransform by metis

text \<open>
  C9. The wheel multiplies the pending zoom scale by \<open>1 / 0.95^zoomSpeed\<close> for a positive
  delta, by \<open>0.95^zoomSpeed\<close> for a negative one, and leaves the state alone otherwise.
\<close>

theorem wheelZoom_scale:
  "wheelZoom inp c = c\<lparr>scale := scale c * (case wheelDelta inp of None \<Rightarrow> 1
       | Some w \<Rightarrow> if 0 < vy w then 1 / (19 / 20) powr zoomSpeed c
                   else if vy w < 0 then (19 / 20) powr zoomSpeed c else 1)\<rparr>"
  by (auto simp: wheelZoom_def split: option.split)

text \<open>
  C10. A positive wheel delta moves the camera away from its target: from a state with
  no pending zoom and no maximum distance, the frame after it ends farther away than the
  camera was (spec 4.2 calls this direction "zoom in").
\<close>

theorem wheel_up_moves_away:
  assumes "wheelDelta inp = Some w" "0 < vy w" "0 < zoomSpeed c" "scale c = 1" "maxDistance c = PosInf"
    and "updateTransform la (wheelZoom inp c) = Inr c'"
  shows "vlen (offset c) < radius (spherical c')"
proof -
  let ?k = "(19 / 20 :: real) powr zoomSpeed c"
  let ?cw = "wheelZoom inp c"
  have k: "0 < ?k" "?k < 1" using assms(3) wheel_factor_lt_1 by simp_all
  have "scale ?cw = 1 / ?k" using assms(1,2,4) by (simp add: wheelZoom_def)
  then have gt: "1 < scale ?cw" using k by simp
  have w: "limits ?cw = limits c" "offset ?cw = offset c" using wheelZoom_limits_offset by simp_all
  have "maxDistance ?cw = PosInf" "minDistance ?cw = minDistance c" using w(1) assms(5) by (simp_all add: limits_def)
  then have r: "vlen (offset c) \<noteq> 0"
      "Fin (radius (spherical c')) = js_clamp (minDistance c) PosInf (Fin (vlen (offset c) * scale ?cw))"
    using frame_radius [OF assms(6)] gt w(2) by simp_all
  have "Fin (vlen (offset c) * scale ?cw) \<le> Fin (radius (spherical c'))" unfolding r(2) by (simp add: js_clamp_def)
  moreover have "vlen (offset c) < vlen (offset c) * scale ?cw" using r(1) vlen_pos gt by simp
  ultimately show ?thesis by simp
qed

text \<open>
  C11. With AltLeft and the primary button held and a pointer present, the drag turns the
  pointer's pixel delta into radians, \<open>2\<pi> * delta / canvas size * rotateSpeed\<close>, subtracted
  from the pending azimuth (horizontal) and polar angle (vertical); nothing else changes.
\<close>

theorem dragRotate_radians:
  assumes "held inp AltLeft" "Primary \<in> buttonsHeld inp" "pointers inp = p # ps"
  shows "\<exists>d. dragRotate inp c = Inr (c\<lparr>sphericalDelta := d\<rparr>)
    \<and> theta d = theta (sphericalDelta c) - 2 * pi * fst (deltaPosition p) / width (canvas c) * rotateSpeed c
    \<and> phi d = phi (sphericalDelta c) - 2 * pi * snd (deltaPosition p) / height (canvas c) * rotateSpeed c
    \<and> radius d = radius (sphericalDelta c)"
  using assms
  by (intro exI [of _ "(sphericalDelta c)\<lparr>theta := theta (sphericalDelta c) - 2 * pi * fst (deltaPosition p) / width (canvas c) * rotateSpeed c,
        phi := phi (sphericalDelta c) - 2 * pi * snd (deltaPosition p) / height (canvas c) * rotateSpeed c\<rparr>"])
     (simp add: dragRotate_def split_def Let_def)

text \<open>
  C12. The drag step fails exactly when AltLeft and the primary button are held and the
  pointer list is empty (reading \<open>pointers[0].deltaPosition\<close> throws), and then with
  \<open>NoPointer\<close>; without the gesture it leaves the state unchanged.
\<close>

theorem dragRotate_faults:
  "(dragRotate inp c = Inl e \<longleftrightarrow> e = NoPointer \<and> held inp AltLeft \<and> Primary \<in> buttonsHeld inp \<and> pointers inp = [])
   \<and> (\<not> (held inp AltLeft \<and> Primary \<in> buttonsHeld inp) \<longrightarrow> dragRotate inp c = Inr c)"
  by (auto simp: dragRotate_def split_def Let_def split: list.split)

theorem dragRotate_faults_witness:
  "dragRotate (demo_drag\<lparr>pointers := []\<rparr>) demo_ctl = Inl NoPointer
   \<and> dragRotate demo_wheel demo_ctl = Inr demo_ctl"
proof -
  have "held (demo_drag\<lparr>pointers := []\<rparr>) AltLeft \<and> Primary \<in> buttonsHeld (demo_drag\<lparr>pointers := []\<rparr>)
        \<and> pointers (demo_drag\<lparr>pointers := []\<rparr>) = []"
    by (simp add: held_def demo_drag_def)
  moreover have "\<not> (held demo_wheel AltLeft \<and> Primary \<in> buttonsHeld demo_wheel)"
    by (simp add: held_def demo_wheel_def)
  ultimately show ?thesis
    using dragRotate_faults [of "demo_drag\<lparr>pointers := []\<rparr>" demo_ctl NoPointer]
      dragRotate_faults [of demo_wheel demo_ctl] by blast
qed

theorem dragRotate_radians_witness:
  "\<exists>d. dragRotate demo_drag demo_ctl = Inr (demo_ctl\<lparr>sphericalDelta := d\<rparr>) \<and> theta d = - (pi / 4)"
proof -
  have "held demo_drag AltLeft" "Primary \<in> buttonsHeld demo_drag"
    "pointers demo_drag = \<lparr>deltaPosition = (100, 0)\<rparr> # []"
    by (simp_all add: held_def demo_drag_def)
  from dragRotate_radians [OF this, of demo_ctl] show ?thesis
    by (simp add: demo_ctl_simps spherical0_def) blast
qed

theorem wheel_up_moves_away_witness:
  "\<exists>c'. updateTransform demo_la (wheelZoom demo_wheel demo_ctl) = Inr c' \<and> 5 < radius (spherical c')"
proof -
  have off: "offset (wheelZoom demo_wheel demo_ctl) = offset demo_ctl"
    by (simp add: wheelZoom_def offset_def split: option.split)
  have ok: "limits_ok (wheelZoom demo_wheel demo_ctl)"
    by (simp add: limits_ok_def limit_ok_def wheelZoom_def demo_wheel_def demo_ctl_simps)
  obtain c' where c': "updateTransform demo_la (wheelZoom demo_wheel demo_ctl) = Inr c'"
    using updateTransform_Inr_exists [OF _ ok] off by (auto simp: offset_demo vlen_demo)
  have "vlen (offset demo_ctl) < radius (spherical c')"
    by (rule wheel_up_moves_away [of demo_wheel "\<lparr>vx = 0, vy = 1, vz = 0\<rparr>", OF _ _ _ _ _ c'])
       (simp_all add: demo_wheel_def demo_ctl_simps)
  then show ?thesis using c' by (auto simp: offset_demo vlen_demo)
qed

end
