(* ===== verification/Frames.thy ===== *)
theory Frames
  imports ViewportControl
begin

text \<open>
  Properties of whole frames that the rest of the development builds on: the
  well-formed controller states (azimuth and distance limits that keep their clamps
  finite, a positive minimum distance, a camera off its target, a positive pending zoom)
  as the type \<open>wf_state\<close>, with \<open>onUpdate\<close> lifted to it as \<open>wf_frame\<close>, whose fault
  carries the well-formed state the frame left; and what a frame reads back from the
  state the previous frame wrote.
\<close>

section \<open>Well-formed states\<close>

definition wf_ctl :: "ctl \<Rightarrow> bool" where
  "wf_ctl c = (limits_ok c \<and> Fin 0 < minDistance c \<and> vlen (offset c) \<noteq> 0 \<and> 0 < scale c)"

typedef wf_state = "{c. wf_ctl c}"
  morphisms ctl_of Abs_wf_state
proof
  show "demo_ctl \<in> {c. wf_ctl c}"
    by (simp add: wf_ctl_def limits_ok_def limit_ok_def demo_ctl_simps offset_demo vlen_demo)
qed

setup_lifting type_definition_wf_state

text \<open>A frame maps a well-formed state to a fault or to a well-formed state.\<close>

lift_definition wf_frame :: "look_at \<Rightarrow> frame_input \<Rightarrow> wf_state \<Rightarrow> (fault \<times> wf_state) + wf_state"
  is onUpdate
proof -
  fix la inp c
  assume wf: "wf_ctl c"
  let ?c2 = "wheelZoom inp (keyPan inp c)"
  have l2: "limits ?c2 = limits c" "offset ?c2 = offset c"
    using wheelZoom_limits_offset [of inp "keyPan inp c"] keyPan_limits [of inp c] keyPan_pose_variant [of c inp]
    by simp_all
  have w2: "wf_ctl ?c2"
    using wf l2 limits_ok_limits [OF l2(1)] limits_minDistance [OF l2(1)] wheelZoom_scale_pos [of "keyPan inp c" inp]
    by (simp add: wf_ctl_def keyPan_scale)
  show "pred_sum (pred_prod top wf_ctl) wf_ctl (onUpdate la inp c)"
  proof (cases "dragRotate inp ?c2")
    case (Inl e)
    then show ?thesis using w2 by (simp add: onUpdate_def)
  next
    case (Inr c3)
    have l3: "limits c3 = limits c" "offset c3 = offset c" "scale c3 = scale ?c2"
      using dragRotate_limits_offset [OF Inr] dragRotate_scale [OF Inr] l2 by simp_all
    have w3: "wf_ctl c3"
      using w2 l3 limits_ok_limits [of c3 ?c2] limits_minDistance [of c3 ?c2] by (simp add: wf_ctl_def l2)
    show ?thesis
    proof (cases "updateTransform la c3")
      case (Inl e)
      then show ?thesis using Inr w3 by (simp add: onUpdate_def)
    next
      case (Inr c')
      then have o: "onUpdate la inp c = Inr c'" using \<open>dragRotate inp ?c2 = Inr c3\<close> by (simp add: onUpdate_def)
      have l: "limits c' = limits c" using onUpdate_limits [OF o] .
      then have "limits_ok c'" "Fin 0 < minDistance c'"
        using wf limits_ok_limits [OF l] limits_minDistance [OF l] by (simp_all add: wf_ctl_def)
      moreover have "vlen (offset c') \<noteq> 0" using onUpdate_offset_nonzero [OF o] wf by (simp add: wf_ctl_def)
      moreover have "scale c' = 1" using updateTransform_post [OF Inr] by simp
      ultimately show ?thesis using o by (simp add: wf_ctl_def)
    qed
  qed
qed

text \<open>Alt+W with the primary button held and no pointer: a pan, then the missing pointer.\<close>

definition demo_pan_drag :: frame_input where
  "demo_pan_drag = \<lparr>keysHeld = {AltLeft, KeyW}, buttonsHeld = {Primary}, pointers = [], wheelDelta = None\<rparr>"

text \<open>The example camera configured with inverted distance and azimuth limits.\<close>

definition demo_inv :: ctl where
  "demo_inv = demo_ctl\<lparr>minDistance := Fin 6, maxDistance := Fin 2,
     minAzimuthAngle := Fin 1, maxAzimuthAngle := Fin 0\<rparr>"

section \<open>Lemmas on well-formed states\<close>

lemma wf_frame_rep:
  "map_sum (map_prod id ctl_of) ctl_of (wf_frame la inp s) = onUpdate la inp (ctl_of s)"
  by transfer (simp add: id_def [symmetric] prod.map_id0 sum.map_id0)

lemma onUpdate_wf_fault:
  assumes "wf_ctl c"
  shows "onUpdate la inp c = Inl (e, c') \<longleftrightarrow> e = NoPointer \<and> held inp AltLeft \<and> Primary \<in> buttonsHeld inp
    \<and> pointers inp = [] \<and> c' = wheelZoom inp (keyPan inp c)"
proof (cases "held inp AltLeft \<and> Primary \<in> buttonsHeld inp \<and> pointers inp = []")
  case True
  then have "dragRotate inp (wheelZoom inp (keyPan inp c)) = Inl NoPointer" by (simp add: dragRotate_def)
  then show ?thesis using True by (auto simp: onUpdate_def)
next
  case False
  then obtain c'' where "onUpdate la inp c = Inr c''"
    using onUpdate_Inr_exists [of c inp la] assms by (auto simp: wf_ctl_def)
  then show ?thesis using False by auto
qed

lemma wf_frame_Inl_iff:
  "wf_frame la inp s = Inl (e, s') \<longleftrightarrow> onUpdate la inp (ctl_of s) = Inl (e, ctl_of s')"
proof -
  have "wf_frame la inp s = Inl (e, s') \<longleftrightarrow>
      map_sum (map_prod id ctl_of) ctl_of (wf_frame la inp s) = Inl (e, ctl_of s')"
    by (cases "wf_frame la inp s") (auto simp: ctl_of_inject)
  then show ?thesis by (simp add: wf_frame_rep)
qed

text \<open>
  C21. On a well-formed state the only fault a frame can end in is the missing pointer:
  it faults exactly when AltLeft and the primary button are held and the pointer list is
  empty, the fault is \<open>NoPointer\<close> (the \<open>TypeError\<close> of line 99), and the controller is
  left with the pan and the zoom of lines 48-92 already applied.
\<close>

theorem wf_frame_fault_iff:
  "wf_frame la inp s = Inl (e, s') \<longleftrightarrow> e = NoPointer \<and> held inp AltLeft \<and> Primary \<in> buttonsHeld inp
     \<and> pointers inp = [] \<and> ctl_of s' = wheelZoom inp (keyPan inp (ctl_of s))"
  using ctl_of [of s] by (simp add: wf_frame_Inl_iff onUpdate_wf_fault)

theorem wf_frame_fault_iff_witness:
  "\<exists>s'. wf_frame demo_la demo_pan_drag (Abs_wf_state demo_ctl) = Inl (NoPointer, s')
     \<and> ctl_of s' = move forwardVec3 demo_ctl"
proof -
  have wf: "wf_ctl demo_ctl"
    by (simp add: wf_ctl_def limits_ok_def limit_ok_def demo_ctl_simps offset_demo vlen_demo)
  have in2: "wheelZoom demo_pan_drag (keyPan demo_pan_drag demo_ctl) = move forwardVec3 demo_ctl"
    by (simp add: keyPan_def wheelZoom_def held_def demo_pan_drag_def)
  have "onUpdate demo_la demo_pan_drag demo_ctl = Inl (NoPointer, move forwardVec3 demo_ctl)"
    using in2 by (simp add: onUpdate_def dragRotate_def held_def demo_pan_drag_def)
  then have "map_sum (map_prod id ctl_of) ctl_of (wf_frame demo_la demo_pan_drag (Abs_wf_state demo_ctl))
      = Inl (NoPointer, move forwardVec3 demo_ctl)"
    using wf_frame_rep [of demo_la demo_pan_drag "Abs_wf_state demo_ctl"] wf
    by (simp add: Abs_wf_state_inverse)
  then obtain e s' where r: "wf_frame demo_la demo_pan_drag (Abs_wf_state demo_ctl) = Inl (e, s')"
    by (cases "wf_frame demo_la demo_pan_drag (Abs_wf_state demo_ctl)") auto
  then have "e = NoPointer \<and> ctl_of s' = move forwardVec3 demo_ctl"
    using wf_frame_fault_iff [of demo_la demo_pan_drag "Abs_wf_state demo_ctl" e s'] wf in2
    by (simp add: Abs_wf_state_inverse)
  then show ?thesis using r by blast
qed

text \<open>
  What the next frame reads back from the offset a frame wrote, and the spherical
  coordinates it computes from them when only the pending rotation is new.
\<close>

lemma frame_readback:
  assumes first: "updateTransform la c = Inr c1" and dist: "Fin 0 < minDistance c"
  shows "\<exists>v. setFromVec3 (offset c1) (atTheBack c1)
      = Inr \<lparr>radius = radius (spherical c1), theta = v, phi = phi (spherical c1)\<rparr>
    \<and> - pi < v \<and> v \<le> pi \<and> sin v = sin (theta (spherical c1)) \<and> cos v = cos (theta (spherical c1))"
proof -
  have post: "offset c1 = fst (setToVec3 (spherical c1))" "\<not> atTheBack c1"
    "spherical_eps \<le> phi (spherical c1)" "phi (spherical c1) \<le> pi - spherical_eps"
    "minDistance c \<le> Fin (radius (spherical c1))"
    using updateTransform_post [OF first] by simp_all
  have "Fin 0 < Fin (radius (spherical c1))" using post(5) dist by order
  moreover have "0 < phi (spherical c1)" "phi (spherical c1) < pi" using post(3,4) spherical_eps_bounds by auto
  ultimately obtain s' where s': "setFromVec3 (fst (setToVec3 (spherical c1))) False = Inr s'"
    "radius s' = radius (spherical c1)" "phi s' = phi (spherical c1)"
    "sin (theta s') = sin (theta (spherical c1))" "cos (theta s') = cos (theta (spherical c1))"
    "- pi < theta s'" "theta s' \<le> pi"
    using setFromVec3_setToVec3_front [of "spherical c1"] by auto
  then show ?thesis using post(1,2) by (cases s') auto
qed

lemma frame_sph_delta:
  assumes first: "updateTransform la c = Inr c1" and dist: "Fin 0 < minDistance c"
  shows "\<exists>v. - pi < v \<and> v \<le> pi \<and> sin v = sin (theta (spherical c1)) \<and> cos v = cos (theta (spherical c1))
    \<and> frame_sph (c1\<lparr>sphericalDelta := d\<rparr>)
      = res_bind (clampFin (minAzimuthAngle c) (maxAzimuthAngle c) (v + theta d)) (\<lambda>th.
        Inr \<lparr>radius = radius (spherical c1), theta = th,
             phi = makeSafe_js (js_clamp (minPolarAngle c) (maxPolarAngle c) (Fin (phi (spherical c1) + phi d)))\<rparr>)"
proof -
  obtain v where v: "setFromVec3 (offset c1) (atTheBack c1)
      = Inr \<lparr>radius = radius (spherical c1), theta = v, phi = phi (spherical c1)\<rparr>"
      "- pi < v" "v \<le> pi" "sin v = sin (theta (spherical c1))" "cos v = cos (theta (spherical c1))"
    using frame_readback [OF first dist] by blast
  have post: "scale c1 = 1" "zoomFrag c1 = 0" using updateTransform_post [OF first] by simp_all
  have cfg: "minAzimuthAngle c1 = minAzimuthAngle c" "maxAzimuthAngle c1 = maxAzimuthAngle c"
    "minPolarAngle c1 = minPolarAngle c" "maxPolarAngle c1 = maxPolarAngle c"
    "minDistance c1 = minDistance c" "maxDistance c1 = maxDistance c"
    using updateTransform_config [OF first] by simp_all
  have "Fin (radius (spherical c1)) = js_clamp (minDistance c) (maxDistance c)
      (Fin (if scale c \<noteq> 1 then vlen (offset c) * scale c else vlen (offset c) + zoomFrag c))"
    using frame_radius [OF first] by simp
  then have r: "clampFin (minDistance c) (maxDistance c) (radius (spherical c1)) = Inr (radius (spherical c1))"
    using js_clamp_idem by (metis clampFin_Inr_iff)
  have "frame_sph (c1\<lparr>sphericalDelta := d\<rparr>)
      = res_bind (clampFin (minAzimuthAngle c) (maxAzimuthAngle c) (v + theta d)) (\<lambda>th.
        Inr \<lparr>radius = radius (spherical c1), theta = th,
             phi = makeSafe_js (js_clamp (minPolarAngle c) (maxPolarAngle c) (Fin (phi (spherical c1) + phi d)))\<rparr>)"
    using v(1) r post cfg by (simp add: frame_sph_def offset_def Let_def)
  then show ?thesis using v(2-5) by blast
qed

section \<open>Inverted limits\<close>

text \<open>
  C25. Limits are not validated (spec section 7): when a pair is inverted, the clamp
  \<open>Math.max(min, Math.min(max, x))\<close> collapses to the lower limit whatever the input,
  so the frame pins the azimuth to \<open>minAzimuthAngle\<close>, the distance to \<open>minDistance\<close>,
  and the polar angle to \<open>minPolarAngle\<close> pulled into the pole margin. The frame does not
  fault: it is the degenerate but safe clamp the spec describes.
\<close>

theorem inverted_limits_collapse:
  assumes "updateTransform la c = Inr c'"
  shows "(maxAzimuthAngle c < minAzimuthAngle c \<longrightarrow> Fin (theta (spherical c')) = minAzimuthAngle c)
    \<and> (maxPolarAngle c < minPolarAngle c \<longrightarrow>
         Fin (phi (spherical c')) = js_clamp (Fin spherical_eps) (Fin (pi - spherical_eps)) (minPolarAngle c))
    \<and> (maxDistance c < minDistance c \<longrightarrow> Fin (radius (spherical c')) = minDistance c)"
  using assms
proof (rule updateTransform_InrE)
  fix s0 th ph r s'
  assume th: "js_clamp (minAzimuthAngle c) (maxAzimuthAngle c) (Fin (theta s0 + theta (sphericalDelta c))) = Fin th"
    and ph: "js_clamp (minPolarAngle c) (maxPolarAngle c) (Fin (phi s0 + phi (sphericalDelta c))) = ph"
    and r: "js_clamp (minDistance c) (maxDistance c)
       (Fin (radius s0 + (if scale c \<noteq> 1 then radius s0 * (scale c - 1) else zoomFrag c))) = Fin r"
    and s': "s' = \<lparr>radius = r, theta = th, phi = makeSafe_js ph\<rparr>"
    and c': "c' = c\<lparr>atTheBack := snd (setToVec3 s'), spherical := s',
             transform := lookAt la (target c) (vscale (if snd (setToVec3 s') then -1 else 1) (up c))
               ((transform c)\<lparr>position := vadd (target c) (fst (setToVec3 s'))\<rparr>),
             zoomFrag := 0, scale := 1, sphericalDelta := set_sph 0 0 0 (sphericalDelta c)\<rparr>"
  have sph: "spherical c' = s'" using c' by simp
  show ?thesis
  proof (intro conjI impI)
    assume "maxAzimuthAngle c < minAzimuthAngle c"
    then have "Fin th = minAzimuthAngle c" using th js_clamp_inverted by metis
    then show "Fin (theta (spherical c')) = minAzimuthAngle c" by (simp add: sph s')
  next
    assume "maxPolarAngle c < minPolarAngle c"
    then have "ph = minPolarAngle c" using ph js_clamp_inverted by metis
    then show "Fin (phi (spherical c')) = js_clamp (Fin spherical_eps) (Fin (pi - spherical_eps)) (minPolarAngle c)"
      by (simp add: sph s' makeSafe_js_clamp)
  next
    assume "maxDistance c < minDistance c"
    then have "Fin r = minDistance c" using r js_clamp_inverted by metis
    then show "Fin (radius (spherical c')) = minDistance c" by (simp add: sph s')
  qed
qed

theorem inverted_limits_collapse_witness:
  "\<exists>c'. updateTransform demo_la demo_inv = Inr c'
     \<and> theta (spherical c') = 1 \<and> radius (spherical c') = 6"
proof -
  have ok: "limits_ok demo_inv" "vlen (offset demo_inv) \<noteq> 0"
    using offset_demo vlen_demo by (simp_all add: demo_inv_def limits_ok_def limit_ok_def demo_ctl_simps offset_def)
  obtain c' where c': "updateTransform demo_la demo_inv = Inr c'"
    using updateTransform_Inr_exists [OF ok(2,1)] by blast
  have "(maxAzimuthAngle demo_inv < minAzimuthAngle demo_inv \<longrightarrow> Fin (theta (spherical c')) = minAzimuthAngle demo_inv)
    \<and> (maxPolarAngle demo_inv < minPolarAngle demo_inv \<longrightarrow>
         Fin (phi (spherical c')) = js_clamp (Fin spherical_eps) (Fin (pi - spherical_eps)) (minPolarAngle demo_inv))
    \<and> (maxDistance demo_inv < minDistance demo_inv \<longrightarrow> Fin (radius (spherical c')) = minDistance demo_inv)"
    using c' by (rule inverted_limits_collapse)
  then have "theta (spherical c') = 1 \<and> radius (spherical c') = 6" by (simp add: demo_inv_def)
  then show ?thesis using c' by blast
qed

section \<open>What a frame reads back\<close>

text \<open>
  After a frame from a state with a positive minimum distance, the next frame reads back
  the same radius and polar angle, and an azimuth \<open>v\<close> in \<open>(-pi, pi]\<close> with the same
  sine and cosine as the one written, which it clamps to the azimuth limits.
\<close>

lemma frame_sph_reread:
  assumes first: "updateTransform la c = Inr c1"
    and dist: "Fin 0 < minDistance c"
  shows "\<exists>t v. frame_sph c1 = Inr \<lparr>radius = radius (spherical c1), theta = t, phi = phi (spherical c1)\<rparr>
             \<and> js_clamp (minAzimuthAngle c) (maxAzimuthAngle c) (Fin v) = Fin t \<and> - pi < v \<and> v \<le> pi
             \<and> sin v = sin (theta (spherical c1)) \<and> cos v = cos (theta (spherical c1))"
proof -
  obtain s0 th ph r s1 where
    "setFromVec3 (offset c) (atTheBack c) = Inr s0" and
    th: "js_clamp (minAzimuthAngle c) (maxAzimuthAngle c) (Fin (theta s0 + theta (sphericalDelta c))) = Fin th" and
    ph: "js_clamp (minPolarAngle c) (maxPolarAngle c) (Fin (phi s0 + phi (sphericalDelta c))) = ph" and
    r: "js_clamp (minDistance c) (maxDistance c)
       (Fin (radius s0 + (if scale c \<noteq> 1 then radius s0 * (scale c - 1) else zoomFrag c))) = Fin r" and
    s1: "s1 = \<lparr>radius = r, theta = th, phi = makeSafe_js ph\<rparr>" and
    c1: "c1 = c\<lparr>atTheBack := snd (setToVec3 s1), spherical := s1,
             transform := lookAt la (target c) (vscale (if snd (setToVec3 s1) then -1 else 1) (up c))
               ((transform c)\<lparr>position := vadd (target c) (fst (setToVec3 s1))\<rparr>),
             zoomFrag := 0, scale := 1, sphericalDelta := set_sph 0 0 0 (sphericalDelta c)\<rparr>"
    using first by (rule updateTransform_InrE)
  have post: "offset c1 = fst (setToVec3 (spherical c1)) \<and> \<not> atTheBack c1
    \<and> theta (sphericalDelta c1) = 0 \<and> phi (sphericalDelta c1) = 0 \<and> scale c1 = 1 \<and> zoomFrag c1 = 0
    \<and> spherical_eps \<le> phi (spherical c1) \<and> phi (spherical c1) \<le> pi - spherical_eps
    \<and> minDistance c \<le> Fin (radius (spherical c1))"
    using updateTransform_post [OF first] by simp
  have cfg: "minAzimuthAngle c1 = minAzimuthAngle c" "maxAzimuthAngle c1 = maxAzimuthAngle c"
    "minPolarAngle c1 = minPolarAngle c" "maxPolarAngle c1 = maxPolarAngle c"
    "minDistance c1 = minDistance c" "maxDistance c1 = maxDistance c"
    using updateTransform_config [OF first] by simp_all
  have sph1: "spherical c1 = s1" using c1 by simp
  have rpos: "0 < r" using post dist sph1 s1 by (metis jsnum_Fin_less order.strict_trans2 spherical.select_convs(1))
  have pbounds: "0 < phi s1" "phi s1 < pi"
    using post sph1 spherical_eps_bounds by auto
  obtain s' where s': "setFromVec3 (fst (setToVec3 s1)) False = Inr s'"
    "radius s' = r" "phi s' = phi s1" "sin (theta s') = sin th" "cos (theta s') = cos th"
    "- pi < theta s'" "theta s' \<le> pi"
    using setFromVec3_setToVec3_front [of s1] rpos pbounds s1 by auto
  obtain t where th2: "js_clamp (minAzimuthAngle c) (maxAzimuthAngle c) (Fin (theta s')) = Fin t"
    using th js_clamp_finite_iff by metis
  have "Fin (makeSafe_js (js_clamp (minPolarAngle c) (maxPolarAngle c) (Fin (phi s1)))) = Fin (phi s1)"
    using js_clamp_twice_idem [of "Fin spherical_eps" "Fin (pi - spherical_eps)" "minPolarAngle c" "maxPolarAngle c"
        "Fin (phi s0 + phi (sphericalDelta c))"] ph s1 by (simp add: makeSafe_js_clamp)
  then have phi2: "makeSafe_js (js_clamp (minPolarAngle c) (maxPolarAngle c) (Fin (phi s1))) = phi s1" by simp
  have r2: "js_clamp (minDistance c) (maxDistance c) (Fin r) = Fin r"
    using js_clamp_idem [of "minDistance c" "maxDistance c"] r by metis
  have "frame_sph c1 = Inr \<lparr>radius = r, theta = t, phi = phi s1\<rparr>"
    using post sph1 s' th2 phi2 r2 cfg
    by (simp add: frame_sph_def clampFin_def Let_def)
  then show ?thesis using sph1 s1 s' th2 by auto
qed

text \<open>Where a frame leaves the camera, and the orientation it asks \<open>lookAt\<close> for.\<close>

lemma updateTransform_view:
  assumes u: "updateTransform la c = Inr c'" and dist: "Fin 0 < minDistance c"
  shows "vlen (vsub (position (transform c')) (target c')) \<noteq> 0 \<and> rotationQuaternion (transform c')
           = la (position (transform c')) (target c') (up c) \<and> offset c' = vsub (position (transform c')) (target c')"
proof -
  have "target c' = target c" using updateTransform_config [OF u] by simp
  then show ?thesis
    using updateTransform_offset_nonzero [OF u dist] updateTransform_post [OF u] by (simp add: offset_def [symmetric])
qed

text \<open>
  The pending zoom changes only the distance a frame computes; from a state a frame has
  written, with azimuth limits containing \<open>(-pi, pi]\<close>, a frame with pending zoom
  \<open>x\<close> multiplies the distance by \<open>x\<close> when the result lies within the distance limits.
\<close>

lemma frame_sph_rezoom:
  assumes "frame_sph c = Inr s0"
  shows "\<exists>r. frame_sph (c\<lparr>scale := x\<rparr>) = Inr (s0\<lparr>radius := r\<rparr>)"
proof -
  obtain a th r where
    a: "setFromVec3 (offset c) (atTheBack c) = Inr a" and
    th: "js_clamp (minAzimuthAngle c) (maxAzimuthAngle c) (Fin (theta a + theta (sphericalDelta c))) = Fin th" and
    r: "js_clamp (minDistance c) (maxDistance c)
          (Fin (radius a + (if scale c \<noteq> 1 then radius a * (scale c - 1) else zoomFrag c))) = Fin r" and
    s0: "s0 = \<lparr>radius = r, theta = th,
       phi = makeSafe_js (js_clamp (minPolarAngle c) (maxPolarAngle c) (Fin (phi a + phi (sphericalDelta c))))\<rparr>"
    using assms by (rule frame_sph_InrE)
  obtain r' where r': "clampFin (minDistance c) (maxDistance c)
          (radius a + (if x \<noteq> 1 then radius a * (x - 1) else zoomFrag c)) = Inr r'"
    using r clampFin_ok clampFin_Inr_iff by metis
  have th': "clampFin (minAzimuthAngle c) (maxAzimuthAngle c) (theta a + theta (sphericalDelta c)) = Inr th"
    using th by (simp add: clampFin_Inr_iff)
  have "frame_sph (c\<lparr>scale := x\<rparr>) = Inr (s0\<lparr>radius := r'\<rparr>)"
    using a th' r' s0 by (cases "x = 1") (simp_all add: frame_sph_def offset_def Let_def)
  then show ?thesis by blast
qed

lemma zoom_frame:
  assumes first: "updateTransform la c = Inr c1" and dist: "Fin 0 < minDistance c"
    and az: "minAzimuthAngle c \<le> Fin (- pi)" "Fin pi \<le> maxAzimuthAngle c"
    and bnd: "minDistance c \<le> Fin (radius (spherical c1) * x)" "Fin (radius (spherical c1) * x) \<le> maxDistance c"
  shows "\<exists>c2 v. updateTransform la (c1\<lparr>scale := x\<rparr>) = Inr c2
    \<and> spherical c2 = \<lparr>radius = radius (spherical c1) * x, theta = v, phi = phi (spherical c1)\<rparr>
    \<and> sin v = sin (theta (spherical c1)) \<and> cos v = cos (theta (spherical c1)) \<and> - pi < v \<and> v \<le> pi"
proof -
  let ?r1 = "radius (spherical c1)" and ?p1 = "phi (spherical c1)"
  obtain t v where f: "frame_sph c1 = Inr \<lparr>radius = ?r1, theta = t, phi = ?p1\<rparr>"
      and v: "js_clamp (minAzimuthAngle c) (maxAzimuthAngle c) (Fin v) = Fin t" "- pi < v" "v \<le> pi"
        "sin v = sin (theta (spherical c1))" "cos v = cos (theta (spherical c1))"
    using frame_sph_reread [OF first dist] by blast
  have "minAzimuthAngle c \<le> Fin v" "Fin v \<le> maxAzimuthAngle c"
    using az v(2,3) by (simp_all add: order.trans [OF az(1)] order.trans [OF _ az(2)])
  then have "t = v" using v(1) by simp
  then obtain r' where f': "frame_sph (c1\<lparr>scale := x\<rparr>) = Inr \<lparr>radius = r', theta = v, phi = ?p1\<rparr>"
    using frame_sph_rezoom [OF f, of x] by auto
  then obtain c2 where c2: "updateTransform la (c1\<lparr>scale := x\<rparr>) = Inr c2"
      and s2: "spherical c2 = \<lparr>radius = r', theta = v, phi = ?p1\<rparr>"
    using spherical_updateTransform [of la "c1\<lparr>scale := x\<rparr>"] by (cases "updateTransform la (c1\<lparr>scale := x\<rparr>)") auto
  have post: "offset c1 = fst (setToVec3 (spherical c1))" "zoomFrag c1 = 0" "minDistance c \<le> Fin ?r1"
    using updateTransform_post [OF first] by simp_all
  have "Fin 0 < Fin ?r1" using post(3) dist by order
  then have "0 < ?r1" by simp
  then have len: "vlen (offset c1) = ?r1" using post(1) setToVec3_vlen by simp
  have cfg: "minDistance c1 = minDistance c" "maxDistance c1 = maxDistance c"
    using updateTransform_config [OF first] by simp_all
  have "Fin r' = js_clamp (minDistance c) (maxDistance c) (Fin (?r1 * x))"
    using frame_radius [OF c2] s2 len post(2) cfg by (simp add: offset_def)
  then have "r' = ?r1 * x" using bnd by simp
  then show ?thesis using c2 s2 v(2-5) by blast
qed

end
