(* ===== verification/Runs.thy ===== *)
theory Runs
  imports Frames
begin

text \<open>
  Sequences of frames. The engine calls \<open>onUpdate\<close> once per frame; \<open>reach\<close> is the
  inductive relation of the states successive successful frames reach, and \<open>run\<close> the
  executable counterpart that applies a list of frame inputs. The theorems follow the
  controller over many frames: limits and the nonzero offset persist, frames keep
  succeeding, repeated wheel and drag input act as the code computes, and zooming out
  and back in returns the camera.
\<close>

section \<open>Runs and their inputs\<close>

text \<open>Alt and the primary button held, the pointer dragged vertically by \<open>dy\<close> pixels.\<close>

definition drag_v :: "real \<Rightarrow> frame_input" where
  "drag_v dy = \<lparr>keysHeld = {AltLeft}, buttonsHeld = {Primary}, pointers = [\<lparr>deltaPosition = (0, dy)\<rparr>],
     wheelDelta = None\<rparr>"

text \<open>The states a run of frames reaches from a start state; each step is one call of
  \<open>onUpdate\<close> that returns normally.\<close>

inductive reach :: "look_at \<Rightarrow> ctl \<Rightarrow> ctl \<Rightarrow> bool" for la :: look_at and c0 :: ctl where
  reach_start: "reach la c0 c0"
| reach_step: "reach la c0 c \<Longrightarrow> onUpdate la inp c = Inr c' \<Longrightarrow> reach la c0 c'"

text \<open>A run of frames: the inputs of successive frames, each applied by \<open>onUpdate\<close>;
  the first fault ends the run.\<close>

fun run :: "look_at \<Rightarrow> frame_input list \<Rightarrow> ctl \<Rightarrow> frame_result" where
  "run la [] c = Inr c"
| "run la (inp # inps) c = res_bind (onUpdate la inp c) (run la inps)"

text \<open>One wheel step up, one wheel step down.\<close>

definition wheel_up :: frame_input where
  "wheel_up = \<lparr>keysHeld = {}, buttonsHeld = {}, pointers = [], wheelDelta = Some \<lparr>vx = 0, vy = 1, vz = 0\<rparr>\<rparr>"

definition wheel_down :: frame_input where
  "wheel_down = \<lparr>keysHeld = {}, buttonsHeld = {}, pointers = [], wheelDelta = Some \<lparr>vx = 0, vy = - 1, vz = 0\<rparr>\<rparr>"

section \<open>Runs of the controller\<close>

text \<open>The configured limits never change on a run, and neither does a nonzero offset vanish.\<close>

lemma reach_limits: "reach la c0 c \<Longrightarrow> limits c = limits c0"
  by (induction rule: reach.induct) (simp_all add: onUpdate_limits)

lemma reach_offset_nonzero:
  assumes "reach la c0 c" "vlen (offset c0) \<noteq> 0" "Fin 0 < minDistance c0"
  shows "vlen (offset c) \<noteq> 0"
  using assms(1)
proof (induction rule: reach.induct)
  case reach_start
  then show ?case using assms(2) .
next
  case (reach_step c inp c')
  have "minDistance c = minDistance c0" using reach_limits [OF reach_step.hyps(1)] by (rule limits_minDistance)
  then show ?case using onUpdate_offset_nonzero [OF reach_step.hyps(2)] assms(3) by simp
qed

lemma init_polar_window:
  "Fin 1 \<le> Fin (179 / 180 * pi) \<and> Fin spherical_eps \<le> Fin 1 \<and> Fin (179 / 180 * pi) \<le> Fin (pi - spherical_eps)"
  using pi_ge_two by (simp add: spherical_eps_def)

text \<open>C15: from a start state whose offset is nonzero, with finite limits and a positive minimum
  distance, every reachable state completes the next frame: \<open>onUpdate\<close> fails only on a drag
  without a pointer.\<close>

theorem reach_frames_succeed:
  assumes "reach la c0 c" and "limits_ok c0" and "vlen (offset c0) \<noteq> 0" and "Fin 0 < minDistance c0"
    and "held inp AltLeft \<and> Primary \<in> buttonsHeld inp \<longrightarrow> pointers inp \<noteq> []"
  shows "\<exists>c'. onUpdate la inp c = Inr c'"
proof -
  have "limits_ok c" using limits_ok_limits [OF reach_limits [OF assms(1)]] assms(2) by simp
  then show ?thesis
    using onUpdate_Inr_exists reach_offset_nonzero [OF assms(1,3,4)] assms(5) by blast
qed

theorem reach_frames_succeed_witness: "\<exists>c'. onUpdate demo_la demo_drag demo_ctl = Inr c'"
proof -
  have "reach demo_la demo_ctl demo_ctl" by (rule reach_start)
  moreover have "limits_ok demo_ctl" by (simp add: limits_ok_def limit_ok_def demo_ctl_simps)
  moreover have "vlen (offset demo_ctl) \<noteq> 0" by (simp add: offset_demo vlen_demo)
  moreover have "Fin 0 < minDistance demo_ctl" by (simp add: demo_ctl_simps)
  moreover have "held demo_drag AltLeft \<and> Primary \<in> buttonsHeld demo_drag \<longrightarrow> pointers demo_drag \<noteq> []"
    by (simp add: demo_drag_def)
  ultimately show ?thesis by (rule reach_frames_succeed)
qed

text \<open>C16: with the default limits, every frame leaves the polar angle between 1 radian and
  179/180 of pi, so the camera never comes within 1 radian of the upper pole.\<close>

theorem default_polar_window:
  assumes "reach la (ViewportControl_init tf cv) c" and "onUpdate la inp c = Inr c'"
  shows "1 \<le> phi (spherical c') \<and> phi (spherical c') \<le> 179 / 180 * pi"
proof -
  obtain cd where d: "dragRotate inp (wheelZoom inp (keyPan inp c)) = Inr cd" and u: "updateTransform la cd = Inr c'"
    using assms(2) by (rule onUpdate_InrE)
  have "limits cd = limits (ViewportControl_init tf cv)"
    using onUpdate_input_limits [OF d] reach_limits [OF assms(1)] by simp
  then have m: "minPolarAngle cd = Fin 1" "maxPolarAngle cd = Fin (179 / 180 * pi)"
    by (simp_all add: limits_def ViewportControl_init_def)
  show ?thesis
    using updateTransform_polar_window [OF u] init_polar_window unfolding m by simp
qed

theorem default_polar_window_witness:
  "\<exists>c'. onUpdate demo_la demo_drag demo_ctl = Inr c' \<and> 1 \<le> phi (spherical c') \<and> phi (spherical c') \<le> 179 / 180 * pi"
proof -
  obtain c' where c': "onUpdate demo_la demo_drag demo_ctl = Inr c'"
    using onUpdate_Inr_exists [of demo_ctl demo_drag demo_la]
    by (auto simp: limits_ok_def limit_ok_def demo_ctl_simps offset_demo vlen_demo demo_drag_def)
  have "reach demo_la (ViewportControl_init demo_tf \<lparr>width = 800, height = 600\<rparr>) demo_ctl"
    unfolding demo_ctl_def by (rule reach_start)
  then have "1 \<le> phi (spherical c') \<and> phi (spherical c') \<le> 179 / 180 * pi"
    using c' by (rule default_polar_window)
  then show ?thesis using c' by blast
qed


section \<open>Runs as lists of frames\<close>

lemma onUpdate_wheel_up: "onUpdate la wheel_up c = map_sum (\<lambda>e. (e, c\<lparr>scale := scale c / (19 / 20) powr zoomSpeed c\<rparr>)) id
    (updateTransform la (c\<lparr>scale := scale c / (19 / 20) powr zoomSpeed c\<rparr>))"
  by (simp add: onUpdate_def keyPan_def wheelZoom_def dragRotate_def held_def wheel_up_def Let_def)

lemma onUpdate_wheel_down: "onUpdate la wheel_down c = map_sum (\<lambda>e. (e, c\<lparr>scale := scale c * (19 / 20) powr zoomSpeed c\<rparr>)) id
    (updateTransform la (c\<lparr>scale := scale c * (19 / 20) powr zoomSpeed c\<rparr>))"
  by (simp add: onUpdate_def keyPan_def wheelZoom_def dragRotate_def held_def wheel_down_def Let_def)

lemma wheel_up_frame:
  assumes "limits_ok c" "vlen (offset c) \<noteq> 0" "scale c = 1" "0 < zoomSpeed c"
    and "maxDistance c = PosInf" "minDistance c \<le> Fin (vlen (offset c))"
  shows "\<exists>c1. onUpdate la wheel_up c = Inr c1 \<and> vlen (offset c1) = vlen (offset c) / (19 / 20) powr zoomSpeed c
    \<and> limits c1 = limits c \<and> scale c1 = 1 \<and> zoomSpeed c1 = zoomSpeed c"
proof -
  let ?k = "(19 / 20 :: real) powr zoomSpeed c"
  let ?cw = "c\<lparr>scale := scale c / ?k\<rparr>"
  have k: "0 < ?k" "?k < 1" using assms(4) wheel_factor_lt_1 by simp_all
  have cw: "limits ?cw = limits c" "offset ?cw = offset c" "scale ?cw = 1 / ?k"
    using assms(3) by (simp_all add: limits_def offset_def)
  have "scale ?cw \<noteq> 1" using cw(3) k assms(4) by simp
  have "limits_ok ?cw" using limits_ok_limits [OF cw(1)] assms(1) by simp
  then obtain c1 where c1: "updateTransform la ?cw = Inr c1"
    using updateTransform_Inr_exists [of ?cw la] assms(2) cw(2) by auto
  have pos: "0 < vlen (offset c)" using assms(2) vlen_pos by blast
  have grow: "vlen (offset c) \<le> vlen (offset c) * (1 / ?k)" using pos k by (simp add: field_simps)
  have "Fin (radius (spherical c1)) = js_clamp (minDistance c) PosInf (Fin (vlen (offset c) * (1 / ?k)))"
    using frame_radius [OF c1] cw \<open>scale ?cw \<noteq> 1\<close> assms(5) by (simp add: limits_def)
  also have "\<dots> = Fin (vlen (offset c) * (1 / ?k))"
    using assms(6) grow by (cases "minDistance c") (simp_all add: js_clamp_def max_def)
  finally have r: "radius (spherical c1) = vlen (offset c) / ?k" by simp
  have p: "offset c1 = fst (setToVec3 (spherical c1))" "scale c1 = 1"
    using updateTransform_post [OF c1] by simp_all
  have "vlen (offset c1) = vlen (offset c) / ?k" using p(1) setToVec3_vlen r pos k by simp
  moreover have "limits c1 = limits c" using updateTransform_limits_eq [OF c1] cw(1) by simp
  moreover have "zoomSpeed c1 = zoomSpeed c" using updateTransform_config [OF c1] by simp
  ultimately show ?thesis using c1 p(2) by (simp add: onUpdate_wheel_up)
qed

text \<open>C19: with no maximum distance and the minimum distance below the current one, n
  frames with the wheel rolled up each divide the pending scale by \<open>0.95 ^ zoomSpeed\<close>:
  all n frames succeed and the camera ends \<open>1 / 0.95 ^ (n * zoomSpeed)\<close> times as far
  from the target, i.e. it moves away.\<close>

theorem wheel_up_run:
  assumes "limits_ok c" "vlen (offset c) \<noteq> 0" "scale c = 1" "0 < zoomSpeed c"
    and "maxDistance c = PosInf" "minDistance c \<le> Fin (vlen (offset c))"
  shows "\<exists>c'. run la (replicate n wheel_up) c = Inr c'
    \<and> vlen (offset c') = vlen (offset c) / ((19 / 20) powr zoomSpeed c) ^ n"
  using assms
proof (induction n arbitrary: c)
  case 0
  then show ?case by simp
next
  case (Suc n)
  obtain c1 where c1: "onUpdate la wheel_up c = Inr c1"
      and v: "vlen (offset c1) = vlen (offset c) / (19 / 20) powr zoomSpeed c"
      and l: "limits c1 = limits c" "scale c1 = 1" "zoomSpeed c1 = zoomSpeed c"
    using wheel_up_frame [OF Suc.prems] by blast
  have k: "0 < (19 / 20 :: real) powr zoomSpeed c" "(19 / 20 :: real) powr zoomSpeed c < 1"
    using Suc.prems(4) wheel_factor_lt_1 by simp_all
  have pos: "0 < vlen (offset c)" using Suc.prems(2) vlen_pos by blast
  have "vlen (offset c) = vlen (offset c1) * (19 / 20) powr zoomSpeed c" using v k by simp
  then have "vlen (offset c) \<le> vlen (offset c1)"
    using mult_left_le [of "(19 / 20) powr zoomSpeed c" "vlen (offset c1)"] k vlen_nonneg by simp
  then have "minDistance c1 \<le> Fin (vlen (offset c1))"
    using Suc.prems(6) l(1) limits_minDistance [OF l(1)] by (cases "minDistance c") auto
  moreover have "limits_ok c1" "maxDistance c1 = PosInf"
    using l(1) Suc.prems(1,5) limits_ok_limits [OF l(1)] by (simp_all add: limits_def)
  moreover have "vlen (offset c1) \<noteq> 0" using v pos k by simp
  ultimately obtain c' where "run la (replicate n wheel_up) c1 = Inr c'"
      "vlen (offset c') = vlen (offset c1) / ((19 / 20) powr zoomSpeed c1) ^ n"
    using Suc.IH [of c1] l(2,3) Suc.prems(4) by auto
  then show ?case using c1 v l(3) by (simp add: field_simps)
qed

theorem wheel_up_run_witness:
  "\<exists>c'. run demo_la (replicate 2 wheel_up) demo_ctl = Inr c'
     \<and> vlen (offset c') = 5 / ((19 / 20) powr 1) ^ 2"
proof -
  have "limits_ok demo_ctl" by (simp add: limits_ok_def limit_ok_def demo_ctl_simps)
  moreover have "vlen (offset demo_ctl) \<noteq> 0" by (simp add: offset_demo vlen_demo)
  moreover have "scale demo_ctl = 1" "0 < zoomSpeed demo_ctl" "maxDistance demo_ctl = PosInf"
    by (simp_all add: demo_ctl_simps demo_ctl_def ViewportControl_init_def)
  moreover have "minDistance demo_ctl \<le> Fin (vlen (offset demo_ctl))"
    by (simp add: demo_ctl_simps offset_demo vlen_demo)
  ultimately have "\<exists>c'. run demo_la (replicate 2 wheel_up) demo_ctl = Inr c'
     \<and> vlen (offset c') = vlen (offset demo_ctl) / ((19 / 20) powr zoomSpeed demo_ctl) ^ 2"
    by (rule wheel_up_run)
  moreover have "zoomSpeed demo_ctl = 1" by (simp add: demo_ctl_def ViewportControl_init_def)
  ultimately show ?thesis by (simp only: offset_demo vlen_demo)
qed

section \<open>Zooming in and out\<close>

text \<open>
  C26. Zoom is reversible: after a frame, with azimuth limits containing \<open>(-pi, pi]\<close>,
  a positive zoom speed and room under \<open>maxDistance\<close> for the zoomed-out distance, a
  frame with the wheel rolled up followed by one with the wheel rolled down returns the
  camera to exactly the position and orientation it had: the two scale factors
  \<open>1 / 0.95 ^ zoomSpeed\<close> and \<open>0.95 ^ zoomSpeed\<close> cancel, and the direction of the
  offset survives both read-backs.
\<close>

theorem zoom_roundtrip:
  assumes first: "updateTransform la c = Inr c1" and dist: "Fin 0 < minDistance c"
    and az: "minAzimuthAngle c \<le> Fin (- pi)" "Fin pi \<le> maxAzimuthAngle c"
    and zs: "0 < zoomSpeed c"
    and room: "Fin (radius (spherical c1) / (19 / 20) powr zoomSpeed c) \<le> maxDistance c"
  shows "\<exists>c3. run la [wheel_up, wheel_down] c1 = Inr c3 \<and> transform c3 = transform c1"
proof -
  let ?k = "(19 / 20 :: real) powr zoomSpeed c" and ?r1 = "radius (spherical c1)"
  have k: "0 < ?k" "?k < 1" using zs wheel_factor_lt_1 by simp_all
  have post1: "scale c1 = 1" "minDistance c \<le> Fin ?r1"
    "transform c1 = \<lparr>position = vadd (target c) (fst (setToVec3 (spherical c1))),
       rotationQuaternion = la (vadd (target c) (fst (setToVec3 (spherical c1)))) (target c) (up c)\<rparr>"
    using updateTransform_post [OF first] by simp_all
  have cfg1: "zoomSpeed c1 = zoomSpeed c" "target c1 = target c" "up c1 = up c"
    "minDistance c1 = minDistance c" "maxDistance c1 = maxDistance c"
    "minAzimuthAngle c1 = minAzimuthAngle c" "maxAzimuthAngle c1 = maxAzimuthAngle c"
    using updateTransform_config [OF first] by simp_all
  have "Fin 0 < Fin ?r1" using post1(2) dist by order
  then have r1: "0 < ?r1" by simp
  have grow: "?r1 \<le> ?r1 * (1 / ?k)" using r1 k by (simp add: field_simps)
  have "minDistance c \<le> Fin (?r1 * (1 / ?k))" using post1(2) grow by (simp add: order.trans)
  moreover have "Fin (?r1 * (1 / ?k)) \<le> maxDistance c" using room by simp
  ultimately obtain c2 v where c2: "updateTransform la (c1\<lparr>scale := 1 / ?k\<rparr>) = Inr c2"
      and s2: "spherical c2 = \<lparr>radius = ?r1 * (1 / ?k), theta = v, phi = phi (spherical c1)\<rparr>"
      and v: "sin v = sin (theta (spherical c1))" "cos v = cos (theta (spherical c1))"
    using zoom_frame [OF first dist az] by blast
  let ?c1' = "c1\<lparr>scale := 1 / ?k\<rparr>"
  have up1: "onUpdate la wheel_up c1 = Inr c2" using c2 post1(1) cfg1(1) by (simp add: onUpdate_wheel_up)
  have post2: "scale c2 = 1" using updateTransform_post [OF c2] by simp
  have cfg2: "zoomSpeed c2 = zoomSpeed c" "target c2 = target c" "up c2 = up c"
    using updateTransform_config [OF c2] cfg1 by simp_all
  have "minDistance c \<le> Fin (?r1 * (1 / ?k) * ?k)" using post1(2) k by simp
  moreover have "Fin (?r1 * (1 / ?k) * ?k) \<le> maxDistance c"
  proof -
    have a: "Fin ?r1 \<le> Fin (?r1 / ?k)" using grow by simp
    have b: "?r1 * (1 / ?k) * ?k = ?r1" using k by simp
    show ?thesis unfolding b using a room by order
  qed
  moreover have "Fin 0 < minDistance ?c1'" "minAzimuthAngle ?c1' \<le> Fin (- pi)" "Fin pi \<le> maxAzimuthAngle ?c1'"
    using dist az cfg1 by simp_all
  ultimately obtain c3 w where c3: "updateTransform la (c2\<lparr>scale := ?k\<rparr>) = Inr c3"
      and s3: "spherical c3 = \<lparr>radius = ?r1 * (1 / ?k) * ?k, theta = w, phi = phi (spherical c1)\<rparr>"
      and w: "sin w = sin v" "cos w = cos v"
    using zoom_frame [OF c2, of ?k] cfg1 s2 by auto
  have down: "onUpdate la wheel_down c2 = Inr c3" using c3 post2 cfg2(1) by (simp add: onUpdate_wheel_down)
  have "setToVec3 (spherical c3) = setToVec3 (spherical c1)"
    using setToVec3_trig_cong [of w "theta (spherical c1)"] w v s3 k by (cases "spherical c1") simp
  moreover have "transform c3 = \<lparr>position = vadd (target c) (fst (setToVec3 (spherical c3))),
       rotationQuaternion = la (vadd (target c) (fst (setToVec3 (spherical c3)))) (target c) (up c)\<rparr>"
    using updateTransform_post [OF c3] cfg2 by simp
  ultimately have "transform c3 = transform c1" using post1(3) by simp
  then show ?thesis using up1 down by simp
qed

theorem zoom_roundtrip_witness:
  "\<exists>c3. run demo_la [wheel_up, wheel_down] demo_ctl1 = Inr c3 \<and> transform c3 = transform demo_ctl1"
proof -
  have "Fin 0 < minDistance demo_ctl" "minAzimuthAngle demo_ctl \<le> Fin (- pi)" "Fin pi \<le> maxAzimuthAngle demo_ctl"
    "0 < zoomSpeed demo_ctl" "Fin (radius (spherical demo_ctl1) / (19 / 20) powr zoomSpeed demo_ctl) \<le> maxDistance demo_ctl"
    by (simp_all add: demo_ctl_simps demo_ctl_def ViewportControl_init_def)
  then show ?thesis using zoom_roundtrip [OF updateTransform_demo1] by blast
qed

section \<open>Dragging to the polar limit\<close>

text \<open>One frame of a vertical drag after a frame, with a polar window inside the pole margin.\<close>

lemma onUpdate_drag_v:
  "onUpdate la (drag_v dy) c = map_sum (\<lambda>e. (e, c\<lparr>sphericalDelta := (sphericalDelta c)\<lparr>phi :=
      phi (sphericalDelta c) - 2 * pi * dy / height (canvas c) * rotateSpeed c\<rparr>\<rparr>)) id
    (updateTransform la (c\<lparr>sphericalDelta := (sphericalDelta c)\<lparr>phi :=
      phi (sphericalDelta c) - 2 * pi * dy / height (canvas c) * rotateSpeed c\<rparr>\<rparr>))"
  by (simp add: onUpdate_def keyPan_def wheelZoom_def dragRotate_def held_def drag_v_def Let_def)

lemma drag_frame:
  assumes first: "updateTransform la c = Inr c1" and dist: "Fin 0 < minDistance c"
    and pol: "minPolarAngle c = Fin lo" "maxPolarAngle c = Fin hi"
      "spherical_eps \<le> lo" "lo \<le> hi" "hi \<le> pi - spherical_eps"
    and a: "0 \<le> 2 * pi * dy / height (canvas c) * rotateSpeed c"
  shows "\<exists>c2. onUpdate la (drag_v dy) c1 = Inr c2
    \<and> updateTransform la (c1\<lparr>sphericalDelta := (sphericalDelta c1)\<lparr>phi :=
         phi (sphericalDelta c1) - 2 * pi * dy / height (canvas c) * rotateSpeed c\<rparr>\<rparr>) = Inr c2
    \<and> phi (spherical c2) = max lo (phi (spherical c1) - 2 * pi * dy / height (canvas c) * rotateSpeed c)
    \<and> radius (spherical c2) = radius (spherical c1)"
proof -
  let ?a = "2 * pi * dy / height (canvas c) * rotateSpeed c" and ?p1 = "phi (spherical c1)"
  let ?d = "(sphericalDelta c1)\<lparr>phi := phi (sphericalDelta c1) - ?a\<rparr>"
  have post: "theta (sphericalDelta c1) = 0" "phi (sphericalDelta c1) = 0"
    using updateTransform_post [OF first] by simp_all
  have cfg: "canvas c1 = canvas c" "rotateSpeed c1 = rotateSpeed c"
    using updateTransform_config [OF first] by simp_all
  obtain v where f: "frame_sph (c1\<lparr>sphericalDelta := ?d\<rparr>)
      = res_bind (clampFin (minAzimuthAngle c) (maxAzimuthAngle c) (v + theta ?d)) (\<lambda>th.
        Inr \<lparr>radius = radius (spherical c1), theta = th,
             phi = makeSafe_js (js_clamp (minPolarAngle c) (maxPolarAngle c) (Fin (?p1 + phi ?d)))\<rparr>)"
    using frame_sph_delta [OF first dist] by blast
  obtain th where th: "clampFin (minAzimuthAngle c) (maxAzimuthAngle c) (v + theta ?d) = Inr th"
    using updateTransform_limits_ok [OF first] clampFin_ok unfolding limits_ok_def by metis
  have "minPolarAngle c \<le> Fin ?p1 \<and> Fin ?p1 \<le> maxPolarAngle c"
    using updateTransform_polar_window [OF first] pol by simp
  then have p1: "lo \<le> ?p1" "?p1 \<le> hi" using pol(1,2) by simp_all
  have "js_clamp (minPolarAngle c) (maxPolarAngle c) (Fin (?p1 + phi ?d)) = Fin (max lo (?p1 - ?a))"
    using p1 a post pol(1,2) by (simp add: js_clamp_def)
  moreover have "js_clamp spherical_eps (pi - spherical_eps) (max lo (?p1 - ?a)) = max lo (?p1 - ?a)"
    using p1 a pol(3-5) by simp
  ultimately have "frame_sph (c1\<lparr>sphericalDelta := ?d\<rparr>)
      = Inr \<lparr>radius = radius (spherical c1), theta = th, phi = max lo (?p1 - ?a)\<rparr>"
    using f th by simp
  then obtain c2 where c2: "updateTransform la (c1\<lparr>sphericalDelta := ?d\<rparr>) = Inr c2"
      and s2: "spherical c2 = \<lparr>radius = radius (spherical c1), theta = th, phi = max lo (?p1 - ?a)\<rparr>"
    using spherical_updateTransform [of la "c1\<lparr>sphericalDelta := ?d\<rparr>"]
    by (cases "updateTransform la (c1\<lparr>sphericalDelta := ?d\<rparr>)") auto
  have "onUpdate la (drag_v dy) c1 = Inr c2" using c2 cfg by (simp add: onUpdate_drag_v)
  then show ?thesis using c2 s2 by simp
qed

text \<open>
  C27. A steady vertical drag moves the camera towards the pole and stops at the limit:
  after a frame, with polar limits \<open>[lo, hi]\<close> inside the pole margin, n frames that
  each drag the pointer \<open>dy \<ge> 0\<close> pixels lower the polar angle by
  \<open>2 pi dy / height * rotateSpeed\<close> per frame until it reaches \<open>lo\<close>, where it stays; the
  distance does not change. Every one of the n frames succeeds.
\<close>

theorem drag_up_run:
  assumes first: "updateTransform la c = Inr c1" and dist: "Fin 0 < minDistance c"
    and pol: "minPolarAngle c = Fin lo" "maxPolarAngle c = Fin hi"
      "spherical_eps \<le> lo" "lo \<le> hi" "hi \<le> pi - spherical_eps"
    and drag: "0 \<le> dy" "0 < height (canvas c)" "0 \<le> rotateSpeed c"
  shows "\<exists>cn. run la (replicate n (drag_v dy)) c1 = Inr cn
    \<and> phi (spherical cn) = max lo (phi (spherical c1) - real n * (2 * pi * dy / height (canvas c) * rotateSpeed c))
    \<and> radius (spherical cn) = radius (spherical c1)"
  using first dist pol drag
proof (induction n arbitrary: c c1)
  case 0
  have "lo \<le> phi (spherical c1)"
    using updateTransform_polar_window [OF "0.prems"(1)] "0.prems"(3-7) by simp
  then show ?case by simp
next
  case (Suc n)
  let ?a = "2 * pi * dy / height (canvas c) * rotateSpeed c"
  have a: "0 \<le> ?a" using Suc.prems(8-10) by simp
  obtain c2 where c2: "onUpdate la (drag_v dy) c1 = Inr c2"
      and u: "updateTransform la (c1\<lparr>sphericalDelta := (sphericalDelta c1)\<lparr>phi :=
         phi (sphericalDelta c1) - ?a\<rparr>\<rparr>) = Inr c2"
      and s2: "phi (spherical c2) = max lo (phi (spherical c1) - ?a)" "radius (spherical c2) = radius (spherical c1)"
    using drag_frame [OF Suc.prems(1-7) a] by blast
  have cfg: "minDistance c1 = minDistance c" "minPolarAngle c1 = minPolarAngle c" "maxPolarAngle c1 = maxPolarAngle c"
    "canvas c1 = canvas c" "rotateSpeed c1 = rotateSpeed c"
    using updateTransform_config [OF Suc.prems(1)] by simp_all
  obtain cn where "run la (replicate n (drag_v dy)) c2 = Inr cn"
      and cn: "phi (spherical cn) = max lo (phi (spherical c2) - real n * ?a)" "radius (spherical cn) = radius (spherical c2)"
    using Suc.IH [OF u] Suc.prems(2-10) cfg by auto
  moreover have "max lo (max lo (phi (spherical c1) - ?a) - real n * ?a) = max lo (phi (spherical c1) - ?a - real n * ?a)"
    by (rule max_shift) (use a in \<open>simp only: mult_nonneg_nonneg of_nat_0_le_iff\<close>)
  moreover have "phi (spherical c1) - ?a - real n * ?a = phi (spherical c1) - real (Suc n) * ?a"
    by (simp only: of_nat_Suc distrib_right mult_1 diff_diff_eq)
  ultimately show ?case using c2 s2 by simp
qed

theorem drag_up_run_witness:
  "\<exists>cn. run demo_la (replicate 3 (drag_v 60)) demo_ctl1 = Inr cn \<and> phi (spherical cn) = 1"
proof -
  have h: "Fin 0 < minDistance demo_ctl" "minPolarAngle demo_ctl = Fin 1"
    "maxPolarAngle demo_ctl = Fin (179 / 180 * pi)" "height (canvas demo_ctl) = 600" "rotateSpeed demo_ctl = 1"
    by (simp_all add: demo_ctl_simps demo_ctl_def ViewportControl_init_def)
  have w: "spherical_eps \<le> 1" "1 \<le> 179 / 180 * pi" "179 / 180 * pi \<le> pi - spherical_eps"
    using init_polar_window by simp_all
  have "0 \<le> (60 :: real)" "0 < height (canvas demo_ctl)" "0 \<le> rotateSpeed demo_ctl" using h(4,5) by simp_all
  then obtain cn where cn: "run demo_la (replicate 3 (drag_v 60)) demo_ctl1 = Inr cn"
      "phi (spherical cn) = max 1 (phi (spherical demo_ctl1) - real 3 * (2 * pi * 60 / height (canvas demo_ctl) * rotateSpeed demo_ctl))"
    using drag_up_run [OF updateTransform_demo1 h(1-3) w, where dy = 60 and n = 3] by blast
  have "phi (spherical demo_ctl1) - real 3 * (2 * pi * 60 / height (canvas demo_ctl) * rotateSpeed demo_ctl) < 1"
    using h(4,5) pi_gt_zero by (simp add: demo_ctl1_def del: pi_gt_zero)
  then show ?thesis using cn by auto
qed

end
