(* ===== verification/Imperative.thy ===== *)
theory Imperative
  imports ViewportControl
begin

text \<open>
  A statement-level transcription of the two methods of \<open>src/src/ViewportControl.ts\<close>
  that use the module-level temporaries \<open>_tempVec3\<close> and \<open>_targetMoveVector3\<close>
  (lines 10-11): \<open>_updateTransform\<close> (lines 122-156) as the list \<open>ut_body\<close> of its
  statements, and \<open>_move\<close> (lines 113-120) as \<open>move_body\<close>. A statement is a fallible
  transformer of \<open>imp_state\<close>, the controller record extended with the two temporaries,
  and \<open>exec\<close> runs a statement list in order, stopping at the first fault. The lemmas
  show that the transcriptions compute the composed definitions \<open>updateTransform\<close> and
  \<open>move\<close> of the code model, and that the temporaries, although one store is shared by
  every instance of the script, never carry a value from one call into another: any
  interleaving of the calls of two instances over one store leaves each instance as if
  it had run alone.
\<close>

section \<open>Statements over the controller and the module temporaries\<close>

record imp_state = ctl +
  tempVec3 :: vec3
  targetMoveVector3 :: vec3

type_synonym stmt = "imp_state \<Rightarrow> imp_state result"

fun exec :: "stmt list \<Rightarrow> stmt" where
  "exec [] s = Inr s"
| "exec (f # fs) s = res_bind (f s) (exec fs)"

definition ut_offset :: stmt where
  "ut_offset s = Inr (s\<lparr>tempVec3 := vsub (position (transform s)) (target s)\<rparr>)"

definition ut_read :: stmt where
  "ut_read s = res_bind (setFromVec3 (tempVec3 s) (atTheBack s)) (\<lambda>sp. Inr (s\<lparr>spherical := sp\<rparr>))"

definition ut_add_theta :: stmt where
  "ut_add_theta s = Inr (s\<lparr>spherical := (spherical s)\<lparr>theta := theta (spherical s) + theta (sphericalDelta s)\<rparr>\<rparr>)"

definition ut_add_phi :: stmt where
  "ut_add_phi s = Inr (s\<lparr>spherical := (spherical s)\<lparr>phi := phi (spherical s) + phi (sphericalDelta s)\<rparr>\<rparr>)"

definition ut_clamp_theta :: stmt where
  "ut_clamp_theta s = res_bind (clampFin (minAzimuthAngle s) (maxAzimuthAngle s) (theta (spherical s)))
     (\<lambda>t. Inr (s\<lparr>spherical := (spherical s)\<lparr>theta := t\<rparr>\<rparr>))"

text \<open>
  Lines 133-137: the polar clamp, whose result is \<open>\<plusminus>Infinity\<close> when a polar limit is
  infinite, and \<open>makeSafe\<close>, which clamps that number into the pole margin. The record
  holds only the finite angle \<open>makeSafe\<close> leaves, so the two statements are one step.
\<close>

definition ut_clamp_phi_safe :: stmt where
  "ut_clamp_phi_safe s = Inr (s\<lparr>spherical := (spherical s)\<lparr>phi :=
     makeSafe_js (js_clamp (minPolarAngle s) (maxPolarAngle s) (Fin (phi (spherical s))))\<rparr>\<rparr>)"

definition ut_zoom_frag :: stmt where
  "ut_zoom_frag s = Inr (if scale s \<noteq> 1 then s\<lparr>zoomFrag := radius (spherical s) * (scale s - 1)\<rparr> else s)"

definition ut_add_frag :: stmt where
  "ut_add_frag s = Inr (s\<lparr>spherical := (spherical s)\<lparr>radius := radius (spherical s) + zoomFrag s\<rparr>\<rparr>)"

definition ut_clamp_radius :: stmt where
  "ut_clamp_radius s = res_bind (clampFin (minDistance s) (maxDistance s) (radius (spherical s)))
     (\<lambda>r. Inr (s\<lparr>spherical := (spherical s)\<lparr>radius := r\<rparr>\<rparr>))"

definition ut_write :: stmt where
  "ut_write s = (let (v, b) = setToVec3 (spherical s) in Inr (s\<lparr>atTheBack := b, tempVec3 := v\<rparr>))"

definition ut_position :: stmt where
  "ut_position s = Inr (s\<lparr>transform := (transform s)\<lparr>position := vadd (target s) (tempVec3 s)\<rparr>\<rparr>)"

definition ut_look_at :: "look_at \<Rightarrow> stmt" where
  "ut_look_at la s = (let s1 = s\<lparr>tempVec3 := vscale (if atTheBack s then - 1 else 1) (up s)\<rparr>
     in Inr (s1\<lparr>transform := lookAt la (target s1) (tempVec3 s1) (transform s1)\<rparr>))"

definition ut_reset :: stmt where
  "ut_reset s = Inr (s\<lparr>zoomFrag := 0, scale := 1, sphericalDelta := set_sph 0 0 0 (sphericalDelta s)\<rparr>)"

definition ut_body :: "look_at \<Rightarrow> stmt list" where
  "ut_body la = [ut_offset, ut_read, ut_add_theta, ut_add_phi, ut_clamp_theta, ut_clamp_phi_safe,
     ut_zoom_frag, ut_add_frag, ut_clamp_radius, ut_write, ut_position, ut_look_at la, ut_reset]"

definition mv_translate :: "vec3 \<Rightarrow> stmt" where
  "mv_translate v s = Inr (s\<lparr>transform := translate v (transform s)\<rparr>)"

definition mv_transform :: "vec3 \<Rightarrow> stmt" where
  "mv_transform v s = Inr (s\<lparr>targetMoveVector3 := transformByQuat v (rotationQuaternion (transform s))\<rparr>)"

definition mv_add :: stmt where
  "mv_add s = Inr (s\<lparr>target := vadd (target s) (targetMoveVector3 s)\<rparr>)"

definition move_body :: "vec3 \<Rightarrow> stmt list" where
  "move_body v = [mv_translate v, mv_transform v, mv_add]"

section \<open>Two instances over one store of temporaries\<close>

text \<open>
  \<open>store\<close> holds two controllers and the single pair of module temporaries;
  \<open>shared_call\<close> runs one call of one instance against it, \<open>run_shared\<close> a sequence
  of calls as the engine interleaves them; \<open>run_own\<close> is the reference that runs only
  one instance's calls on its own controller.
\<close>

datatype inst = InstA | InstB

datatype call = Update inst | Move inst vec3

record store =
  ctlA :: ctl
  ctlB :: ctl
  tmp :: vec3
  tmove :: vec3

fun get_inst :: "inst \<Rightarrow> store \<Rightarrow> ctl" where
  "get_inst InstA st = ctlA st"
| "get_inst InstB st = ctlB st"

fun put_inst :: "inst \<Rightarrow> ctl \<Rightarrow> store \<Rightarrow> store" where
  "put_inst InstA c st = st\<lparr>ctlA := c\<rparr>"
| "put_inst InstB c st = st\<lparr>ctlB := c\<rparr>"

fun call_inst :: "call \<Rightarrow> inst" where
  "call_inst (Update i) = i"
| "call_inst (Move i v) = i"

fun call_body :: "look_at \<Rightarrow> call \<Rightarrow> stmt list" where
  "call_body la (Update i) = ut_body la"
| "call_body la (Move i v) = move_body v"

definition shared_call :: "look_at \<Rightarrow> call \<Rightarrow> store \<Rightarrow> store result" where
  "shared_call la e st = res_bind
     (exec (call_body la e) (ctl.extend (get_inst (call_inst e) st) (imp_state.fields (tmp st) (tmove st))))
     (\<lambda>r. Inr ((put_inst (call_inst e) (ctl.truncate r) st)\<lparr>tmp := tempVec3 r, tmove := targetMoveVector3 r\<rparr>))"

fun run_shared :: "look_at \<Rightarrow> call list \<Rightarrow> store \<Rightarrow> store result" where
  "run_shared la [] st = Inr st"
| "run_shared la (e # es) st = res_bind (shared_call la e st) (run_shared la es)"

fun own_call :: "look_at \<Rightarrow> call \<Rightarrow> ctl \<Rightarrow> ctl result" where
  "own_call la (Update i) c = updateTransform la c"
| "own_call la (Move i v) c = Inr (move v c)"

fun run_own :: "look_at \<Rightarrow> inst \<Rightarrow> call list \<Rightarrow> ctl \<Rightarrow> ctl result" where
  "run_own la i [] c = Inr c"
| "run_own la i (e # es) c = (if call_inst e = i then res_bind (own_call la e c) (run_own la i es) else run_own la i es c)"

section \<open>The transcriptions compute the code model\<close>

lemma res_bind_assoc: "res_bind (res_bind m f) g = res_bind m (\<lambda>x. res_bind (f x) g)"
  by (cases m) simp_all

lemma map_sum_res_bind': "map_sum id h (res_bind m f) = res_bind m (\<lambda>x. map_sum id h (f x))"
  by (cases m) simp_all

lemma exec_ut_body:
  "exec (ut_body la) s = map_sum id (\<lambda>c'. ctl.extend c'
      (imp_state.fields (vscale (if atTheBack c' then - 1 else 1) (up c')) (targetMoveVector3 s)))
     (updateTransform la (ctl.truncate s))"
  apply (cases s)
  apply (rename_tac mp xp mn xn ma xa rs zs bk sp sd zf tg u sc cv tf tv tm)
  apply (case_tac "sc = 1")
  apply (simp_all add: ctl.truncate_def ctl.extend_def imp_state.fields_def ut_body_def ut_offset_def ut_read_def ut_add_theta_def ut_add_phi_def ut_clamp_theta_def
     ut_clamp_phi_safe_def ut_zoom_frag_def ut_add_frag_def ut_clamp_radius_def ut_write_def
     ut_position_def ut_look_at_def ut_reset_def updateTransform_def frame_sph_def offset_def Let_def split_def
     res_bind_assoc map_sum_res_bind')
  done

lemma exec_move_body:
  "exec (move_body v) s = Inr (ctl.extend (move v (ctl.truncate s))
     (imp_state.fields (tempVec3 s) (transformByQuat v (rotationQuaternion (transform s)))))"
  apply (cases s)
  apply (simp add: ctl.truncate_def ctl.extend_def imp_state.fields_def move_body_def mv_translate_def
     mv_transform_def mv_add_def move_def translate_def Let_def)
  done

lemma get_put_inst: "get_inst i (put_inst j c st) = (if i = j then c else get_inst i st)"
  by (cases i; cases j) simp_all

lemma get_inst_tmp [simp]: "get_inst i (st\<lparr>tmp := a, tmove := b\<rparr>) = get_inst i st"
  by (cases i) simp_all

lemma truncate_extend [simp]: "ctl.truncate (ctl.extend c x) = c"
  by (cases c) (simp add: ctl.truncate_def ctl.extend_def)

lemma temps_extend [simp]:
  "tempVec3 (ctl.extend c (imp_state.fields a b)) = a"
  "targetMoveVector3 (ctl.extend c (imp_state.fields a b)) = b"
  by (simp_all add: ctl.extend_def imp_state.fields_def)

lemma exec_call: "map_sum id ctl.truncate (exec (call_body la e) s) = own_call la e (ctl.truncate s)"
  by (cases e) (simp_all add: exec_ut_body exec_move_body sum.map_comp comp_def sum.map_ident)

lemma shared_call_InrD:
  assumes "shared_call la e st = Inr st1"
  shows "own_call la e (get_inst (call_inst e) st) = Inr (get_inst (call_inst e) st1)
    \<and> (\<forall>i. i \<noteq> call_inst e \<longrightarrow> get_inst i st1 = get_inst i st)"
proof -
  let ?s = "ctl.extend (get_inst (call_inst e) st) (imp_state.fields (tmp st) (tmove st))"
  obtain r where r: "exec (call_body la e) ?s = Inr r"
      and st1: "st1 = (put_inst (call_inst e) (ctl.truncate r) st)\<lparr>tmp := tempVec3 r, tmove := targetMoveVector3 r\<rparr>"
    using assms by (auto simp: shared_call_def res_bind_Inr_iff)
  have "own_call la e (get_inst (call_inst e) st) = Inr (ctl.truncate r)"
    using exec_call [of la e ?s] r by simp
  then show ?thesis using st1 by (simp add: get_put_inst)
qed

lemma shared_call_exists:
  assumes "own_call la e (get_inst (call_inst e) st) = Inr c'"
  shows "\<exists>st1. shared_call la e st = Inr st1"
proof -
  let ?s = "ctl.extend (get_inst (call_inst e) st) (imp_state.fields (tmp st) (tmove st))"
  have "map_sum id ctl.truncate (exec (call_body la e) ?s) = Inr c'"
    using exec_call [of la e ?s] assms by simp
  then obtain r where "exec (call_body la e) ?s = Inr r" by (cases "exec (call_body la e) ?s") auto
  then show ?thesis by (simp add: shared_call_def)
qed

text \<open>
  C28. The statement-by-statement reading of \<open>_updateTransform\<close> (lines 122-156) agrees
  with the composed definition \<open>updateTransform\<close>: the same fault or the same controller
  state, and the module temporary \<open>_tempVec3\<close> is left holding the up vector, negated
  when the flag is set, whatever it held before.
\<close>

theorem ut_body_equiv:
  "map_sum id (\<lambda>s'. (ctl.truncate s', tempVec3 s')) (exec (ut_body la) s)
   = map_sum id (\<lambda>c'. (c', vscale (if atTheBack c' then - 1 else 1) (up c'))) (updateTransform la (ctl.truncate s))"
  by (simp add: exec_ut_body sum.map_comp comp_def id_def)

text \<open>
  C29. The statement-by-statement reading of \<open>_move\<close> (lines 113-120) agrees with
  \<open>move\<close>, and leaves \<open>_targetMoveVector3\<close> holding the rotated displacement.
\<close>

theorem move_body_equiv:
  "exec (move_body v) s = Inr s' \<longleftrightarrow> ctl.truncate s' = move v (ctl.truncate s)
     \<and> tempVec3 s' = tempVec3 s \<and> targetMoveVector3 s' = transformByQuat v (rotationQuaternion (transform s))"
proof -
  have "ctl.truncate s' = move v (ctl.truncate s) \<and> tempVec3 s' = tempVec3 s
      \<and> targetMoveVector3 s' = transformByQuat v (rotationQuaternion (transform s))
    \<longleftrightarrow> s' = ctl.extend (move v (ctl.truncate s))
       (imp_state.fields (tempVec3 s) (transformByQuat v (rotationQuaternion (transform s))))"
    by (cases s', cases "move v (ctl.truncate s)") (simp add: ctl.truncate_def ctl.extend_def imp_state.fields_def)
  then show ?thesis by (auto simp: exec_move_body)
qed

text \<open>
  C30. The module-level temporaries are shared by every instance of the script, which
  spec section 5 rules out; the sharing is harmless: for any interleaving of
  \<open>_updateTransform\<close> and \<open>_move\<close> calls of two instances over one shared store, each
  instance ends exactly as if its own calls had run alone, and the interleaving
  succeeds whenever each instance's own calls do. Every method writes the temporaries
  before it reads them.
\<close>

theorem shared_temporaries_harmless:
  "(run_shared la es st = Inr st' \<longrightarrow> (\<forall>i. run_own la i es (get_inst i st) = Inr (get_inst i st')))
   \<and> ((\<forall>i. \<exists>c. run_own la i es (get_inst i st) = Inr c) \<longrightarrow> (\<exists>st''. run_shared la es st = Inr st''))"
proof (induction es arbitrary: st)
  case Nil
  then show ?case by simp
next
  case (Cons e es)
  show ?case
  proof (intro conjI impI allI)
    fix i
    assume "run_shared la (e # es) st = Inr st'"
    then obtain st1 where s1: "shared_call la e st = Inr st1" and rest: "run_shared la es st1 = Inr st'"
      by (auto simp: res_bind_Inr_iff)
    have d: "own_call la e (get_inst (call_inst e) st) = Inr (get_inst (call_inst e) st1)"
        "\<forall>j. j \<noteq> call_inst e \<longrightarrow> get_inst j st1 = get_inst j st"
      using shared_call_InrD [OF s1] by simp_all
    have "run_own la i es (get_inst i st1) = Inr (get_inst i st')" using Cons.IH rest by blast
    then show "run_own la i (e # es) (get_inst i st) = Inr (get_inst i st')"
      using d by (cases "call_inst e = i") auto
  next
    assume all: "\<forall>i. \<exists>c. run_own la i (e # es) (get_inst i st) = Inr c"
    then obtain c where "run_own la (call_inst e) (e # es) (get_inst (call_inst e) st) = Inr c" by blast
    then obtain c' where c': "own_call la e (get_inst (call_inst e) st) = Inr c'"
      by (auto simp: res_bind_Inr_iff)
    then obtain st1 where s1: "shared_call la e st = Inr st1" using shared_call_exists by blast
    have d: "own_call la e (get_inst (call_inst e) st) = Inr (get_inst (call_inst e) st1)"
        "\<forall>j. j \<noteq> call_inst e \<longrightarrow> get_inst j st1 = get_inst j st"
      using shared_call_InrD [OF s1] by simp_all
    have "\<forall>i. \<exists>c. run_own la i es (get_inst i st1) = Inr c"
    proof
      fix i
      show "\<exists>c. run_own la i es (get_inst i st1) = Inr c"
        using all [rule_format, of i] d by (cases "call_inst e = i") (auto simp: res_bind_Inr_iff)
    qed
    then obtain st'' where "run_shared la es st1 = Inr st''" using Cons.IH by blast
    then show "\<exists>st''. run_shared la (e # es) st = Inr st''" using s1 by simp
  qed
qed

theorem shared_temporaries_harmless_witness:
  "\<exists>st'. run_shared demo_la [Update InstA, Move InstB forwardVec3, Update InstB]
      \<lparr>ctlA = demo_ctl, ctlB = demo_ctl, tmp = vec0, tmove = vec0\<rparr> = Inr st' \<and> ctlA st' = demo_ctl1"
proof -
  let ?es = "[Update InstA, Move InstB forwardVec3, Update InstB]"
  let ?st = "\<lparr>ctlA = demo_ctl, ctlB = demo_ctl, tmp = vec0, tmove = vec0\<rparr>"
  have "limits_ok (move forwardVec3 demo_ctl)" "vlen (offset (move forwardVec3 demo_ctl)) \<noteq> 0"
    using move_pose_variant [of demo_ctl forwardVec3]
    by (simp_all add: move_eq limits_ok_def limit_ok_def demo_ctl_simps offset_demo vlen_demo)
  then obtain cB where "updateTransform demo_la (move forwardVec3 demo_ctl) = Inr cB"
    using updateTransform_Inr_exists by blast
  then have own: "\<forall>i. \<exists>c. run_own demo_la i ?es (get_inst i ?st) = Inr c"
    using updateTransform_demo1 by (auto intro: inst.induct)
  have h: "(run_shared demo_la ?es ?st = Inr st' \<longrightarrow> (\<forall>i. run_own demo_la i ?es (get_inst i ?st) = Inr (get_inst i st')))
   \<and> ((\<forall>i. \<exists>c. run_own demo_la i ?es (get_inst i ?st) = Inr c) \<longrightarrow> (\<exists>st''. run_shared demo_la ?es ?st = Inr st''))"
    for st' by (rule shared_temporaries_harmless)
  obtain st' where st': "run_shared demo_la ?es ?st = Inr st'" using h own by blast
  with h have "run_own demo_la InstA ?es (get_inst InstA ?st) = Inr (get_inst InstA st')" by blast
  then have "ctlA st' = demo_ctl1" using updateTransform_demo1 by simp
  then show ?thesis using st' by blast
qed


end
