(* ===== verification/Spec2Isabelle.thy ===== *)
theory Spec2Isabelle
  imports Runs Imperative
begin

text \<open>
  \<^bold>\<open>A verification development of ViewportControl.\<close>

  The repository is one TypeScript class, \<open>ViewportControl\<close> in
  \<open>src/src/ViewportControl.ts\<close>: an orbit camera script for the Oasis engine. Each
  frame \<open>onUpdate\<close> polls the input manager (AltLeft with W/S, A/D, Q/E pans the
  camera and its target together through \<open>_move\<close>; the wheel multiplies a pending
  zoom \<open>_scale\<close>; AltLeft with the primary button drag accumulates pending rotation
  in \<open>_sphericalDelta\<close>) and then \<open>_updateTransform\<close> reads the camera's offset
  from the target into spherical coordinates, adds the pending rotation, clamps the
  azimuth and polar angle to the configured limits, keeps the polar angle off the
  poles (\<open>makeSafe\<close>), applies the zoom, clamps the distance, writes the position
  back, orients the camera with \<open>lookAt\<close> and resets the pending input. The
  \<open>Spherical\<close> helper it imports is not part of the repository and is modelled
  from the contract of spec section 4.1; the engine (vectors, quaternions,
  transform, input manager) is modelled at the interface of spec section 6.

  \<^bold>\<open>Theories.\<close>
  \<^item> \<open>Prelude\<close>: \<open>Vector3\<close> as the record \<open>vec3\<close>; JavaScript numbers with the
    infinities used as default limits as the datatype \<open>jsnum\<close>, an instance of
    \<open>linorder\<close>; the clamp idiom \<open>Math.max(lo, Math.min(hi, x))\<close> as
    \<open>js_clamp\<close>, generic over the order, with its bounds, idempotence and the
    idempotence of two clamps in sequence; \<open>Math.atan2\<close> and its polar
    decomposition; the fault type and the bind of \<open>fault + 'a\<close>.
  \<^item> \<open>Spherical\<close>: the record \<open>spherical\<close> and \<open>setFromVec3\<close>, \<open>makeSafe\<close>,
    \<open>setToVec3\<close>, \<open>set\<close> (as \<open>set_sph\<close>) with the up axis fixed to
    \<open>(0, 1, 0)\<close> as the constructor sets it; lemmas: reading then writing an offset
    gives it back in either hemisphere, the flag is stable off the axis, writing then
    reading recovers radius, polar angle and the azimuth up to a full turn, the pole
    margin.
  \<^item> \<open>Transform\<close>: quaternions, \<open>Vector3.transformByQuat\<close> (length-preserving
    for unit quaternions), the transform's \<open>translate\<close> and \<open>lookAt\<close>; the
    orientation that \<open>lookAt\<close> computes is a parameter \<open>la\<close> of type
    \<open>look_at\<close>, so every controller lemma holds for any engine orientation. The
    contract of spec section 6 on that orientation is \<open>look_at_ok\<close> (a rotation
    turning +Z towards the eye, roll left open); \<open>std_look_at\<close>, the shortest-arc
    rotation, meets it, which shows the contract satisfiable.
  \<^item> \<open>ViewportControl\<close>: the state record \<open>ctl\<close> (fields of lines 15-37),
    the constructor, \<open>move\<close> (\<open>_move\<close>), \<open>keyPan\<close>, \<open>wheelZoom\<close>,
    \<open>dragRotate\<close> (the three parts of \<open>onUpdate\<close>), \<open>frame_sph\<close> (the
    spherical coordinates \<open>_updateTransform\<close> computes, lines 124-145),
    \<open>updateTransform\<close> (\<open>_updateTransform\<close>) and \<open>onUpdate\<close>. Its lemmas are the
    properties of one frame: the clamps bound the pose, a frame succeeds exactly when
    the azimuth and distance limits keep their clamps finite (an infinite polar clamp
    is pulled back by \<open>makeSafe\<close>, \<open>makeSafe_js\<close>), the pose written back and
    the resets of the pending input, the zoomed radius, the back flag is never set,
    \<open>_move\<close> shifts camera and target by the same vector, panning does not change
    the spherical coordinates, the wheel direction, the drag in radians and its fault.
  \<^item> \<open>Frames\<close>: the well-formed states (finite-clamp azimuth and distance limits,
    \<open>minDistance > 0\<close>, camera off its target, positive pending zoom) as the type
    \<open>wf_state\<close> (a \<open>typedef\<close> with \<open>onUpdate\<close> lifted to \<open>wf_frame\<close>): frames keep
    states well-formed, and on them the only fault is the missing pointer, after which
    the controller keeps the frame's pan and zoom. It also holds what a
    frame reads back from the state the previous frame wrote (\<open>frame_sph_reread\<close>),
    how the pending zoom enters it (\<open>zoom_frame\<close>), and the collapse of inverted
    limit pairs to their lower limit (spec section 7).
  \<^item> \<open>Runs\<close>: sequences of frames. \<open>reach la c0 c\<close> is the inductive relation of
    the states a run of successful \<open>onUpdate\<close> calls reaches from \<open>c0\<close> (the engine
    calls the script once per frame); by rule induction the limits never change, a
    nonzero offset never vanishes when \<open>minDistance > 0\<close>, so every further frame
    succeeds unless it is an Alt-drag without a pointer, and the default limits keep
    the polar angle in [1, 179/180 pi]. \<open>run la inps c\<close> is the executable
    counterpart, a list of frame inputs applied in turn, stopping at the first fault; n
    frames with the wheel rolled up end \<open>1 / 0.95 ^ (n * zoomSpeed)\<close> times as far
    away; a wheel-up frame followed by a wheel-down frame restores the camera's
    transform; n frames of a steady vertical drag lower the polar angle by a fixed
    step per frame until it reaches \<open>minPolarAngle\<close>, then hold it.
  \<^item> \<open>Imperative\<close>: \<open>_updateTransform\<close> and \<open>_move\<close> transcribed statement by
    statement (\<open>ut_body\<close>, thirteen statements for lines 125-155, the polar clamp
    and \<open>makeSafe\<close> of lines 133-137 one step as the record holds finite angles;
    \<open>move_body\<close>,
    three for lines 115-119) over \<open>imp_state\<close>, the controller record extended with
    the module-level temporaries \<open>_tempVec3\<close> and \<open>_targetMoveVector3\<close> of lines
    10-11, run in order by \<open>exec\<close>, which stops at the first fault. The transcriptions
    compute the composed definitions \<open>updateTransform\<close> and \<open>move\<close>, so the
    statement order of the source (the temporary written at 125 and 146 before it is
    read at 126 and 147, then overwritten with the up vector at 150) is what the
    composed model assumes. Two instances over one shared store of
    temporaries (\<open>store\<close>, \<open>run_shared\<close>): under any interleaving of their calls
    each instance ends as if it ran alone, and the interleaving faults only when one
    instance's own calls do.
  \<^item> this theory: the remaining properties that span components. The input
    handlers: the keyboard block refines the specification \<open>pan_vec\<close> (one
    displacement, S over W, A over D, Q over E), and a frame without AltLeft and
    without vertical wheel motion is just the update. Orbiting: a
    frame whose only pending input is an azimuth delta rotates the offset about the up
    axis (\<open>rot_y\<close>) by that delta. Two frames in a row: a frame with no input after
    a frame is a fixed point when the azimuth limits contain (-pi, pi], and a concrete
    run with azimuth limits [0, 3/2 pi] shows that it is not otherwise; for any
    limits, the state after two frames without input is a fixed point of the update,
    so the azimuth jumps at most once. Facing the target: under the \<open>lookAt\<close>
    contract every frame leaves the camera looking at its target, and Alt+W then moves
    camera and target 0.1 towards it.

  \<^bold>\<open>Modelling choices.\<close> Numbers are real numbers, not IEEE doubles; the results are
  exact-arithmetic statements (the spec's "within tolerance"). A limit is a
  \<open>jsnum\<close>, so \<open>Infinity\<close> defaults are represented exactly, and the clamps of lines
  129-145 are clamps of such numbers; \<open>makeSafe\<close> clamps the polar angle, infinite or
  not, into the pole margin. A frame whose JavaScript run would produce a non-finite
  pose (an infinite azimuth or distance), that reads the azimuth of a zero offset
  (undefined in spec 4.1; the program does not throw, the fault marks the result as
  undefined) or
  that reads \<open>pointers[0]\<close> of an empty list (a TypeError) ends in \<open>Inl\<close> of a
  \<open>fault\<close> paired with the controller state when it arose; for the TypeError that is the
  state the object keeps after the exception, with the frame's pan and zoom applied.
  Frames after a fault are not modelled (\<open>reach\<close> and \<open>run\<close> follow returning
  frames). The entity is a root
  entity: local and world position and rotation coincide. Canvas sizes are those
  of a real viewport; a zero size would divide by zero, which HOL reads as 0.
  There are no loops and no recursion: every operation is a total, executable
  definition, and no fuel is needed.

  \<^bold>\<open>Termination.\<close> The script has no loop and no recursion, so no termination
  argument is needed. The only iteration is the engine calling \<open>onUpdate\<close> each
  frame, modelled by \<open>reach\<close> and by \<open>run\<close> (structural recursion on the list of
  frame inputs); without input that iteration comes to rest after two frames.

  \<^bold>\<open>Not modelled.\<close> The engine itself (input sampling, the scene graph, the
  look-at matrix), \<open>setYAxis\<close> for up axes other than \<open>(0, 1, 0)\<close>, IEEE
  rounding and NaN propagation.
\<close>

section \<open>Example states\<close>

text \<open>
  The default controller of the frame examples, five units in front of its target, with
  the azimuth limited to \<open>[0, 3\<pi>/2]\<close> and a pending rotation of \<open>3\<pi>/2\<close>.
\<close>

definition demo_az :: ctl where
  "demo_az = demo_ctl\<lparr>minAzimuthAngle := Fin 0, maxAzimuthAngle := Fin (3 / 2 * pi),
     sphericalDelta := \<lparr>radius = 0, theta = 3 / 2 * pi, phi = 0\<rparr>\<rparr>"

text \<open>A frame whose input the controller ignores: W without AltLeft, the primary button
  without AltLeft or a pointer, and a wheel event with no vertical delta.\<close>

definition demo_idle :: frame_input where
  "demo_idle = \<lparr>keysHeld = {KeyW}, buttonsHeld = {Primary}, pointers = [],
     wheelDelta = Some \<lparr>vx = 3, vy = 0, vz = 0\<rparr>\<rparr>"

text \<open>The example camera with a pending azimuth of a quarter turn.\<close>

definition demo_spin :: ctl where
  "demo_spin = demo_ctl\<lparr>sphericalDelta := \<lparr>radius = 0, theta = pi / 2, phi = 0\<rparr>\<rparr>"

text \<open>Alt+W alone: the forward pan.\<close>

definition demo_fwd :: frame_input where
  "demo_fwd = \<lparr>keysHeld = {AltLeft, KeyW}, buttonsHeld = {}, pointers = [], wheelDelta = None\<rparr>"

section \<open>Two frames in a row\<close>

text \<open>
  What the next frame computes from a state a frame produced, when the azimuth limits
  admit every angle of \<open>(-\<pi>, \<pi>]\<close> and the minimum distance is positive: the same
  radius and polar angle, and an azimuth with the same sine and cosine.
\<close>

lemma frame_sph_after_frame:
  assumes first: "updateTransform la c = Inr c1"
    and az: "minAzimuthAngle c \<le> Fin (- pi)" "Fin pi \<le> maxAzimuthAngle c"
    and dist: "Fin 0 < minDistance c"
  shows "\<exists>t. frame_sph c1 = Inr \<lparr>radius = radius (spherical c1), theta = t, phi = phi (spherical c1)\<rparr>
             \<and> sin t = sin (theta (spherical c1)) \<and> cos t = cos (theta (spherical c1))"
proof -
  obtain t v where f: "frame_sph c1 = Inr \<lparr>radius = radius (spherical c1), theta = t, phi = phi (spherical c1)\<rparr>"
      and v: "js_clamp (minAzimuthAngle c) (maxAzimuthAngle c) (Fin v) = Fin t" "- pi < v" "v \<le> pi"
        "sin v = sin (theta (spherical c1))" "cos v = cos (theta (spherical c1))"
    using frame_sph_reread [OF first dist] by blast
  have "minAzimuthAngle c \<le> Fin v" "Fin v \<le> maxAzimuthAngle c"
    using az v(2,3) by (simp_all add: order.trans [OF az(1)] order.trans [OF _ az(2)])
  then have "t = v" using v(1) by simp
  then show ?thesis using f v by blast
qed

text \<open>
  C13. A frame with no input after a frame changes nothing the camera shows: when the
  azimuth limits admit every angle of \<open>(-\<pi>, \<pi>]\<close> (the defaults are infinite) and the
  minimum distance is positive, the second frame succeeds and leaves the transform (position
  and orientation), the target, the flag, the radius and the polar angle as they were.
  This is the spec's round-trip and no-input fixed-point property (section 8).
\<close>

theorem no_input_frame_fixed:
  assumes first: "updateTransform la c = Inr c1"
    and az: "minAzimuthAngle c \<le> Fin (- pi)" "Fin pi \<le> maxAzimuthAngle c"
    and dist: "Fin 0 < minDistance c"
  shows "\<exists>c2. updateTransform la c1 = Inr c2 \<and> transform c2 = transform c1 \<and> target c2 = target c1
    \<and> atTheBack c2 = atTheBack c1 \<and> radius (spherical c2) = radius (spherical c1)
    \<and> phi (spherical c2) = phi (spherical c1)"
proof -
  obtain t where t: "frame_sph c1 = Inr \<lparr>radius = radius (spherical c1), theta = t, phi = phi (spherical c1)\<rparr>"
      and trig: "sin t = sin (theta (spherical c1))" "cos t = cos (theta (spherical c1))"
    using frame_sph_after_frame [OF first az dist] by blast
  let ?s2 = "\<lparr>radius = radius (spherical c1), theta = t, phi = phi (spherical c1)\<rparr>"
  have same: "setToVec3 ?s2 = setToVec3 (spherical c1)"
    using setToVec3_trig_cong [OF trig] by (cases "spherical c1") simp
  have post: "\<not> atTheBack c1 \<and> \<not> snd (setToVec3 (spherical c1)) \<and>
      transform c1 = (transform c)\<lparr>position := vadd (target c) (fst (setToVec3 (spherical c1))),
        rotationQuaternion := la (vadd (target c) (fst (setToVec3 (spherical c1)))) (target c) (up c)\<rparr>"
    using updateTransform_post [OF first] by simp
  have cfg: "target c1 = target c" "up c1 = up c"
    using updateTransform_config [OF first] by simp_all
  define c2 where "c2 = c1\<lparr>atTheBack := snd (setToVec3 ?s2), spherical := ?s2,
      transform := lookAt la (target c1) (vscale (if snd (setToVec3 ?s2) then -1 else 1) (up c1))
        ((transform c1)\<lparr>position := vadd (target c1) (fst (setToVec3 ?s2))\<rparr>),
      zoomFrag := 0, scale := 1, sphericalDelta := set_sph 0 0 0 (sphericalDelta c1)\<rparr>"
  have "updateTransform la c1 = Inr c2"
    using t by (simp add: updateTransform_def split_def Let_def c2_def)
  moreover have "transform c2 = transform c1 \<and> target c2 = target c1 \<and> atTheBack c2 = atTheBack c1
    \<and> radius (spherical c2) = radius (spherical c1) \<and> phi (spherical c2) = phi (spherical c1)"
    using same post cfg by (simp add: c2_def lookAt_def)
  ultimately show ?thesis by blast
qed

theorem no_input_frame_fixed_witness:
  "\<exists>c2. updateTransform demo_la demo_ctl1 = Inr c2 \<and> transform c2 = transform demo_ctl1"
proof -
  have "minAzimuthAngle demo_ctl \<le> Fin (- pi)" "Fin pi \<le> maxAzimuthAngle demo_ctl"
    "Fin 0 < minDistance demo_ctl"
    by (simp_all add: demo_ctl_simps)
  from no_input_frame_fixed [OF updateTransform_demo1 this] show ?thesis by blast
qed

lemma setFromVec3_demo: "setFromVec3 \<lparr>vx = 0, vy = 0, vz = 5\<rparr> False = Inr \<lparr>radius = 5, theta = 0, phi = pi / 2\<rparr>"
  by (simp add: setFromVec3_def vlen_demo atan2_def js_clamp_def)

lemma frame_sph_demo_az: "frame_sph demo_az = Inr \<lparr>radius = 5, theta = 3 / 2 * pi, phi = pi / 2\<rparr>"
proof -
  have th: "clampFin (Fin 0) (Fin (3 / 2 * pi)) (0 + 3 / 2 * pi) = Inr (3 / 2 * pi)"
    by (simp add: clampFin_def js_clamp_def)
  have ph: "makeSafe_js (js_clamp (Fin 1) (Fin (179 / 180 * pi)) (Fin (pi / 2 + 0))) = pi / 2"
    using demo_phi_window by (simp add: js_clamp_def)
  have off: "offset demo_az = \<lparr>vx = 0, vy = 0, vz = 5\<rparr>"
    using offset_demo by (simp add: demo_az_def offset_def)
  have r: "clampFin (Fin (1 / 10)) PosInf (5 + 0) = Inr 5"
    by (simp add: clampFin_def js_clamp_def)
  show ?thesis
    unfolding frame_sph_def off
    using th ph r
    by (simp add: demo_az_def demo_ctl_simps setFromVec3_demo Let_def)
qed

lemma sin_three_half_pi_neg: "sin (3 / 2 * pi) < 0"
  by (rule sin_lt_zero) simp_all

text \<open>
  C14. With azimuth limits that do not contain \<open>(-\<pi>, \<pi>]\<close>, a frame with no input moves
  the camera. From the example with limits \<open>[0, 3\<pi>/2]\<close>, a frame applying a rotation
  of \<open>3\<pi>/2\<close> reaches azimuth \<open>3\<pi>/2\<close>; the next frame reads the offset back as an
  azimuth in \<open>(-\<pi>, 0)\<close> (\<open>Math.atan2\<close> normalises it), clamps it to 0 and snaps the
  camera back to where it started.
\<close>

theorem azimuth_limits_jump:
  "\<exists>c1 c2. updateTransform la demo_az = Inr c1 \<and> updateTransform la c1 = Inr c2
     \<and> theta (spherical c1) = 3 / 2 * pi \<and> theta (spherical c2) = 0
     \<and> position (transform c2) \<noteq> position (transform c1)"
proof -
  let ?s1 = "\<lparr>radius = 5, theta = 3 / 2 * pi, phi = pi / 2\<rparr>"
  define c1 where "c1 = demo_az\<lparr>atTheBack := snd (setToVec3 ?s1), spherical := ?s1,
      transform := lookAt la (target demo_az) (vscale (if snd (setToVec3 ?s1) then -1 else 1) (up demo_az))
        ((transform demo_az)\<lparr>position := vadd (target demo_az) (fst (setToVec3 ?s1))\<rparr>),
      zoomFrag := 0, scale := 1, sphericalDelta := set_sph 0 0 0 (sphericalDelta demo_az)\<rparr>"
  have f1: "updateTransform la demo_az = Inr c1"
    by (simp add: updateTransform_def frame_sph_demo_az split_def Let_def c1_def)
  have sph1: "spherical c1 = ?s1" by (simp add: c1_def)
  have post: "offset c1 = fst (setToVec3 ?s1) \<and> \<not> atTheBack c1 \<and> theta (sphericalDelta c1) = 0
      \<and> phi (sphericalDelta c1) = 0 \<and> scale c1 = 1 \<and> zoomFrag c1 = 0"
    using updateTransform_post [OF f1] sph1 by simp
  obtain s' where s': "setFromVec3 (fst (setToVec3 ?s1)) False = Inr s'"
    "radius s' = 5" "phi s' = pi / 2" "sin (theta s') = sin (3 / 2 * pi)" "- pi < theta s'" "theta s' \<le> pi"
    using setFromVec3_setToVec3_front [of ?s1] by auto
  have neg: "theta s' < 0"
  proof (rule ccontr)
    assume "\<not> theta s' < 0"
    then have "0 \<le> sin (theta s')" using s'(6) by (simp add: sin_ge_zero)
    then show False using s'(4) sin_three_half_pi_neg by simp
  qed
  have cfg: "minAzimuthAngle c1 = Fin 0" "maxAzimuthAngle c1 = Fin (3 / 2 * pi)"
    "minPolarAngle c1 = Fin 1" "maxPolarAngle c1 = Fin (179 / 180 * pi)"
    "minDistance c1 = Fin (1 / 10)" "maxDistance c1 = PosInf" "target c1 = vec0" "transform c1 = transform c1"
    by (simp_all add: c1_def demo_az_def demo_ctl_simps)
  obtain t where st: "s' = \<lparr>radius = 5, theta = t, phi = pi / 2\<rparr>" using s'(2,3) by (cases s') simp
  have th2: "clampFin (Fin 0) (Fin (3 / 2 * pi)) (t + 0) = Inr 0"
    using neg st by (simp add: clampFin_def js_clamp_def)
  have ph2: "makeSafe_js (js_clamp (Fin 1) (Fin (179 / 180 * pi)) (Fin (pi / 2 + 0))) = pi / 2"
    using demo_phi_window by (simp add: js_clamp_def)
  have r2: "clampFin (Fin (1 / 10)) PosInf (5 + 0) = Inr 5"
    by (simp add: clampFin_def js_clamp_def)
  have "frame_sph c1 = Inr \<lparr>radius = 5, theta = 0, phi = pi / 2\<rparr>"
    unfolding frame_sph_def using post s'(1) cfg th2 ph2 r2 st
    by (simp add: Let_def)
  then obtain c2 where f2: "updateTransform la c1 = Inr c2"
      and sph2: "spherical c2 = \<lparr>radius = 5, theta = 0, phi = pi / 2\<rparr>"
      and pos2: "position (transform c2) = vadd vec0 (fst (setToVec3 \<lparr>radius = 5, theta = 0, phi = pi / 2\<rparr>))"
    using cfg by (simp add: updateTransform_def split_def Let_def lookAt_def)
  have pos1: "position (transform c1) = vadd vec0 (fst (setToVec3 ?s1))"
    by (simp add: c1_def lookAt_def demo_az_def demo_ctl_simps)
  have "vx (position (transform c1)) \<noteq> vx (position (transform c2))"
    using pos1 pos2 sin_three_half_pi_neg by (simp add: setToVec3_def vadd_def vec0_def Let_def)
  then show ?thesis using f1 f2 sph2 by (auto simp: c1_def)
qed

text \<open>
  C22. Whatever the limits, repeated frames without input come to rest: after any frame
  from a state with a positive minimum distance, the next frame succeeds and the state it
  leaves is a fixed point of the update. The radius and polar angle are already fixed by
  the first of these frames; the azimuth can move once more (as in C15), when the value
  read back in \<open>(-pi, pi]\<close> lies outside the azimuth limits, and then stays.
\<close>

theorem no_input_converges:
  assumes first: "updateTransform la c = Inr c1" and dist: "Fin 0 < minDistance c"
  shows "\<exists>c2. updateTransform la c1 = Inr c2 \<and> updateTransform la c2 = Inr c2"
proof -
  obtain t1 v1 where f1: "frame_sph c1 = Inr \<lparr>radius = radius (spherical c1), theta = t1, phi = phi (spherical c1)\<rparr>"
      and v1: "js_clamp (minAzimuthAngle c) (maxAzimuthAngle c) (Fin v1) = Fin t1" "- pi < v1" "v1 \<le> pi"
    using frame_sph_reread [OF first dist] by blast
  then obtain c2 where second: "updateTransform la c1 = Inr c2"
    by (simp add: updateTransform_def split_def Let_def)
  have s2: "spherical c2 = \<lparr>radius = radius (spherical c1), theta = t1, phi = phi (spherical c1)\<rparr>"
    using spherical_updateTransform [of la c1] second f1 by simp
  have cfg: "minAzimuthAngle c1 = minAzimuthAngle c" "maxAzimuthAngle c1 = maxAzimuthAngle c"
      "minDistance c1 = minDistance c"
    using updateTransform_config [OF first] by simp_all
  obtain t2 v2 where f2: "frame_sph c2 = Inr \<lparr>radius = radius (spherical c2), theta = t2, phi = phi (spherical c2)\<rparr>"
      and v2: "js_clamp (minAzimuthAngle c) (maxAzimuthAngle c) (Fin v2) = Fin t2" "- pi < v2" "v2 \<le> pi"
        "sin v2 = sin (theta (spherical c2))" "cos v2 = cos (theta (spherical c2))"
    using frame_sph_reread [OF second] dist cfg by auto
  have "js_clamp (minAzimuthAngle c) (maxAzimuthAngle c) (Fin v2) = Fin t1"
  proof (rule js_clamp_reread [OF v1(1)])
    show "Fin (- pi) < Fin v1" "Fin v1 \<le> Fin pi" "Fin (- pi) < Fin v2" "Fin v2 \<le> Fin pi"
      using v1 v2 by simp_all
    assume "Fin (- pi) < Fin t1" "Fin t1 \<le> Fin pi"
    then show "Fin v2 = Fin t1" using angle_eq_by_sin_cos [of v2 t1] v2 s2 by simp
  qed
  then have "t2 = t1" using v2(1) by simp
  then have f2': "frame_sph c2 = Inr (spherical c2)" using f2 s2 by simp
  obtain s0 th ph r s' where
    s': "s' = \<lparr>radius = r, theta = th, phi = makeSafe_js ph\<rparr>" and
    c2: "c2 = c1\<lparr>atTheBack := snd (setToVec3 s'), spherical := s',
             transform := lookAt la (target c1) (vscale (if snd (setToVec3 s') then -1 else 1) (up c1))
               ((transform c1)\<lparr>position := vadd (target c1) (fst (setToVec3 s'))\<rparr>),
             zoomFrag := 0, scale := 1, sphericalDelta := set_sph 0 0 0 (sphericalDelta c1)\<rparr>"
    using second by (rule updateTransform_InrE)
  have "updateTransform la c2 = Inr c2"
    using f2' unfolding updateTransform_def c2 by (simp add: split_def Let_def lookAt_def set_sph_def)
  then show ?thesis using second by blast
qed

theorem no_input_converges_witness:
  "\<exists>c1 c2. updateTransform demo_la demo_az = Inr c1 \<and> updateTransform demo_la c1 = Inr c2
     \<and> updateTransform demo_la c2 = Inr c2"
proof -
  have "limits_ok demo_az" "vlen (offset demo_az) \<noteq> 0" "Fin 0 < minDistance demo_az"
    using offset_demo vlen_demo
    by (simp_all add: demo_az_def limits_ok_def limit_ok_def demo_ctl_simps offset_def)
  moreover obtain c1 where c1: "updateTransform demo_la demo_az = Inr c1"
    using updateTransform_Inr_exists calculation(1,2) by blast
  ultimately obtain c2 where "updateTransform demo_la c1 = Inr c2 \<and> updateTransform demo_la c2 = Inr c2"
    using no_input_converges [OF c1] by blast
  then show ?thesis using c1 by blast
qed

section \<open>The input handlers of a frame\<close>

text \<open>C17: keyboard panning implements its specification \<open>pan_vec\<close>: camera and target
  are both displaced by the requested local vector rotated into the camera's frame,
  with S taking precedence over W, A over D and Q over E, and nothing else changes.\<close>

theorem keyPan_refines_pan_vec:
  "keyPan inp c = (let d = transformByQuat (pan_vec inp) (rotationQuaternion (transform c))
     in c\<lparr>transform := (transform c)\<lparr>position := vadd (position (transform c)) d\<rparr>,
          target := vadd (target c) d\<rparr>)"
  by (simp add: keyPan_eq_move move_eq Let_def)

text \<open>C18: a frame without AltLeft and without a vertical wheel delta is just the update:
  held keys, buttons and horizontal wheel motion are ignored, and no pointer is read; a
  fault of the update is paired with the unchanged state.\<close>

theorem onUpdate_idle:
  assumes "\<not> held inp AltLeft" and "\<forall>w. wheelDelta inp = Some w \<longrightarrow> vy w = 0"
  shows "onUpdate la inp c = map_sum (\<lambda>e. (e, c)) id (updateTransform la c)"
proof -
  have "keyPan inp c = c" using assms(1) by (simp add: keyPan_def)
  moreover have "wheelZoom inp c = c" using assms(2) by (simp add: wheelZoom_def split: option.split)
  moreover have "dragRotate inp c = Inr c" using assms(1) by (simp add: dragRotate_def)
  ultimately show ?thesis by (simp add: onUpdate_def)
qed

theorem onUpdate_idle_witness: "onUpdate demo_la demo_idle demo_ctl = Inr demo_ctl1"
proof -
  have "\<not> held demo_idle AltLeft" "\<forall>w. wheelDelta demo_idle = Some w \<longrightarrow> vy w = 0"
    by (simp_all add: demo_idle_def held_def)
  then have "onUpdate demo_la demo_idle demo_ctl = map_sum (\<lambda>e. (e, demo_ctl)) id (updateTransform demo_la demo_ctl)"
    by (rule onUpdate_idle)
  then show ?thesis by (simp add: updateTransform_demo1)
qed

section \<open>Orbiting\<close>

text \<open>C20: a frame whose only pending input is an azimuth delta d orbits the camera: with
  unbounded azimuth limits, no zoom pending, the current distance and polar angle inside
  their limits and inside the pole margin, the new offset is the old one rotated about
  the up axis by d; height and distance do not drift.\<close>

theorem azimuth_frame_rotates:
  assumes "updateTransform la c = Inr c'" and "\<not> atTheBack c"
    and "minAzimuthAngle c = NegInf" "maxAzimuthAngle c = PosInf"
    and "phi (sphericalDelta c) = 0" "scale c = 1" "zoomFrag c = 0"
    and "minPolarAngle c \<le> Fin (arccos (vy (offset c) / vlen (offset c)))"
        "Fin (arccos (vy (offset c) / vlen (offset c))) \<le> maxPolarAngle c"
    and "spherical_eps \<le> arccos (vy (offset c) / vlen (offset c))"
        "arccos (vy (offset c) / vlen (offset c)) \<le> pi - spherical_eps"
    and "minDistance c \<le> Fin (vlen (offset c))" "Fin (vlen (offset c)) \<le> maxDistance c"
  shows "offset c' = rot_y (theta (sphericalDelta c)) (offset c)"
proof -
  let ?d = "theta (sphericalDelta c)"
  obtain s0 th ph r s' where
    s0: "setFromVec3 (offset c) (atTheBack c) = Inr s0" and
    th: "js_clamp (minAzimuthAngle c) (maxAzimuthAngle c) (Fin (theta s0 + ?d)) = Fin th" and
    ph: "js_clamp (minPolarAngle c) (maxPolarAngle c) (Fin (phi s0 + phi (sphericalDelta c))) = ph" and
    r: "js_clamp (minDistance c) (maxDistance c)
       (Fin (radius s0 + (if scale c \<noteq> 1 then radius s0 * (scale c - 1) else zoomFrag c))) = Fin r" and
    s': "s' = \<lparr>radius = r, theta = th, phi = makeSafe_js ph\<rparr>" and
    c': "c' = c\<lparr>atTheBack := snd (setToVec3 s'), spherical := s',
             transform := lookAt la (target c) (vscale (if snd (setToVec3 s') then -1 else 1) (up c))
               ((transform c)\<lparr>position := vadd (target c) (fst (setToVec3 s'))\<rparr>),
             zoomFrag := 0, scale := 1, sphericalDelta := set_sph 0 0 0 (sphericalDelta c)\<rparr>"
    using assms(1) by (rule updateTransform_InrE)
  have v0: "vlen (offset c) \<noteq> 0" using s0 by (rule setFromVec3_nonzero)
  have s0e: "s0 = \<lparr>radius = vlen (offset c), theta = atan2 (vx (offset c)) (vz (offset c)),
      phi = arccos (vy (offset c) / vlen (offset c))\<rparr>"
    using s0 setFromVec3_Inr [OF v0, of False] assms(2) by simp
  have "th = theta s0 + ?d" using th assms(3,4) by (simp add: js_clamp_def)
  moreover have "makeSafe_js ph = phi s0"
  proof -
    have "ph = Fin (phi s0)" using ph assms(5,8,9) s0e by simp
    then show ?thesis using assms(10,11) s0e by simp
  qed
  moreover have "r = radius s0" using r assms(6,7,12,13) s0e by simp
  ultimately have "s' = s0\<lparr>theta := theta s0 + ?d\<rparr>" using s' s0e by simp
  then have "fst (setToVec3 s') = rot_y ?d (offset c)"
    using setToVec3_rotate_theta [of s0 ?d] setToVec3_setFromVec3_vec [OF s0] by simp
  moreover have "offset c' = fst (setToVec3 (spherical c'))" using updateTransform_post [OF assms(1)] by simp
  ultimately show ?thesis using c' by simp
qed

theorem azimuth_frame_rotates_witness:
  "\<exists>c'. updateTransform demo_la demo_spin = Inr c' \<and> offset c' = \<lparr>vx = 5, vy = 0, vz = 0\<rparr>"
proof -
  have off: "offset demo_spin = \<lparr>vx = 0, vy = 0, vz = 5\<rparr>" using offset_demo by (simp add: demo_spin_def offset_def)
  have v: "vlen (offset demo_spin) = 5" using off vlen_demo by simp
  have f: "limits_ok demo_spin" "\<not> atTheBack demo_spin" "minAzimuthAngle demo_spin = NegInf"
      "maxAzimuthAngle demo_spin = PosInf" "phi (sphericalDelta demo_spin) = 0" "scale demo_spin = 1"
      "zoomFrag demo_spin = 0" "minPolarAngle demo_spin = Fin 1" "maxPolarAngle demo_spin = Fin (179 / 180 * pi)"
      "minDistance demo_spin = Fin (1 / 10)" "maxDistance demo_spin = PosInf"
      "theta (sphericalDelta demo_spin) = pi / 2"
    by (simp_all add: demo_spin_def demo_ctl_simps limits_ok_def limit_ok_def)
  have a: "arccos (vy (offset demo_spin) / vlen (offset demo_spin)) = pi / 2" using off v by simp
  obtain c' where c': "updateTransform demo_la demo_spin = Inr c'"
    using updateTransform_Inr_exists [of demo_spin demo_la] f(1) v by auto
  have p: "minPolarAngle demo_spin \<le> Fin (arccos (vy (offset demo_spin) / vlen (offset demo_spin)))"
      "Fin (arccos (vy (offset demo_spin) / vlen (offset demo_spin))) \<le> maxPolarAngle demo_spin"
      "spherical_eps \<le> arccos (vy (offset demo_spin) / vlen (offset demo_spin))"
      "arccos (vy (offset demo_spin) / vlen (offset demo_spin)) \<le> pi - spherical_eps"
    unfolding a using demo_phi_window f(8,9) by simp_all
  have d: "minDistance demo_spin \<le> Fin (vlen (offset demo_spin))" "Fin (vlen (offset demo_spin)) \<le> maxDistance demo_spin"
    using f(10,11) v by simp_all
  from c' f(2-7) p d have "offset c' = rot_y (theta (sphericalDelta demo_spin)) (offset demo_spin)"
    by (rule azimuth_frame_rotates)
  then show ?thesis using c' off f(12) by (simp add: rot_y_def)
qed

section \<open>Facing the target\<close>

text \<open>
  C23. With a \<open>lookAt\<close> that meets its contract (spec section 6), every frame leaves the
  camera facing its target: the orientation is a rotation, and it turns the local +Z axis
  into the unit vector from the target to the camera, so the view axis -Z points at the
  target.
\<close>

theorem frame_faces_target:
  assumes "look_at_ok la" and "updateTransform la c = Inr c'" and "Fin 0 < minDistance c"
  shows "quat_norm2 (rotationQuaternion (transform c')) = 1
    \<and> transformByQuat \<lparr>vx = 0, vy = 0, vz = 1\<rparr> (rotationQuaternion (transform c'))
        = vscale (1 / vlen (offset c')) (offset c')"
proof -
  let ?P = "position (transform c')" and ?T = "target c'"
  have h: "vlen (vsub ?P ?T) \<noteq> 0" "rotationQuaternion (transform c') = la ?P ?T (up c)" "offset c' = vsub ?P ?T"
    using updateTransform_view [OF assms(2,3)] by simp_all
  show ?thesis using look_at_okD [OF assms(1), of ?P ?T "up c"] h by simp
qed

theorem frame_faces_target_witness:
  "\<exists>c'. updateTransform std_look_at demo_ctl = Inr c'
     \<and> transformByQuat \<lparr>vx = 0, vy = 0, vz = 1\<rparr> (rotationQuaternion (transform c'))
        = vscale (1 / vlen (offset c')) (offset c')"
proof -
  obtain c' where c': "updateTransform std_look_at demo_ctl = Inr c'"
    using updateTransform_Inr_exists [of demo_ctl std_look_at]
    by (auto simp: limits_ok_def limit_ok_def demo_ctl_simps offset_demo vlen_demo)
  have "Fin 0 < minDistance demo_ctl" by (simp add: demo_ctl_simps)
  then have "transformByQuat \<lparr>vx = 0, vy = 0, vz = 1\<rparr> (rotationQuaternion (transform c'))
        = vscale (1 / vlen (offset c')) (offset c')"
    using frame_faces_target [OF std_look_at_ok c'] by simp
  then show ?thesis using c' by blast
qed

text \<open>
  C24. After a frame, Alt+W alone moves camera and target together by exactly 0.1 along
  the view direction, towards the target, and leaves the offset between them unchanged:
  the constant named forward does move the camera forward (compare \<open>upVec3\<close>).
\<close>

theorem pan_forward_after_frame:
  assumes "look_at_ok la" and u: "updateTransform la c = Inr c1" and "Fin 0 < minDistance c"
    and keys: "keysHeld inp = {AltLeft, KeyW}"
  shows "position (transform (keyPan inp c1))
           = vsub (position (transform c1)) (vscale (1 / 10 / vlen (offset c1)) (offset c1))
    \<and> target (keyPan inp c1) = vsub (target c1) (vscale (1 / 10 / vlen (offset c1)) (offset c1))
    \<and> offset (keyPan inp c1) = offset c1"
proof -
  let ?q = "rotationQuaternion (transform c1)"
  let ?P = "position (transform c1)" and ?T = "target c1"
  have h: "vlen (vsub ?P ?T) \<noteq> 0" "?q = la ?P ?T (up c)" "offset c1 = vsub ?P ?T"
    using updateTransform_view [OF u assms(3)] by simp_all
  have v: "transformByQuat \<lparr>vx = 0, vy = 0, vz = 1\<rparr> ?q = vscale (1 / vlen (offset c1)) (offset c1)"
    using look_at_okD [OF assms(1), of ?P ?T "up c"] h by simp
  have p: "pan_vec inp = vscale (- 1 / 10) \<lparr>vx = 0, vy = 0, vz = 1\<rparr>"
    using keys by (simp add: pan_vec_def held_def forwardVec3_def vscale_def)
  have "transformByQuat (pan_vec inp) ?q = vscale (- 1 / 10) (vscale (1 / vlen (offset c1)) (offset c1))"
    unfolding p transformByQuat_vscale v ..
  then show ?thesis
    by (simp add: keyPan_eq_move move_eq offset_def vec_defs)
qed

theorem pan_forward_after_frame_witness:
  "\<exists>c1. updateTransform std_look_at demo_ctl = Inr c1
     \<and> target (keyPan demo_fwd c1) = vsub (target c1) (vscale (1 / 10 / vlen (offset c1)) (offset c1))"
proof -
  obtain c1 where c1: "updateTransform std_look_at demo_ctl = Inr c1"
    using updateTransform_Inr_exists [of demo_ctl std_look_at]
    by (auto simp: limits_ok_def limit_ok_def demo_ctl_simps offset_demo vlen_demo)
  have "Fin 0 < minDistance demo_ctl" "keysHeld demo_fwd = {AltLeft, KeyW}"
    by (simp_all add: demo_ctl_simps demo_fwd_def)
  then have "target (keyPan demo_fwd c1) = vsub (target c1) (vscale (1 / 10 / vlen (offset c1)) (offset c1))"
    using pan_forward_after_frame [OF std_look_at_ok c1] by simp
  then show ?thesis using c1 by blast
qed

end
